theory Spec2Isabelle
  imports Complex_Main "HOL-Library.Word"
begin

unbundle bit_operations_syntax

section \<open>Machine types\<close>

type_synonym u8 = "8 word"
type_synonym u16 = "16 word"
type_synonym u32 = "32 word"
type_synonym u64 = "64 word"

section \<open>Power-limit codec\<close>

text \<open>
  \<^verbatim>\<open>replace_power_field\<close> of the standalone MMIO writer: bits 14:0 of one 32-bit half
  are replaced, everything else of the half is kept.
\<close>

definition replace_power_field :: "u32 \<Rightarrow> u16 \<Rightarrow> u32" where
  "replace_power_field cur new_units = (cur AND NOT 0x7FFF) OR (ucast new_units AND 0x7FFF)"

text \<open>
  The \<^verbatim>\<open>--set\<close> branch of the standalone MMIO writer: the register is split in two
  halves, each half goes through \<^const>\<open>replace_power_field\<close>, and the halves are
  joined again.
\<close>

definition pl_write_set_target :: "u64 \<Rightarrow> u16 \<Rightarrow> u16 \<Rightarrow> u64" where
  "pl_write_set_target orig pl1_units pl2_units =
     (let lo = (ucast (orig AND 0xffffffff) :: u32);
          hi = (ucast (drop_bit 32 orig) :: u32);
          lo2 = replace_power_field lo pl1_units;
          hi2 = replace_power_field hi pl2_units
      in push_bit 32 (ucast hi2 :: u64) OR ucast lo2)"

text \<open>\<^verbatim>\<open>set_pl_units\<close> of the interactive command-line tool.\<close>

definition set_pl_units :: "u64 \<Rightarrow> u16 \<Rightarrow> u16 \<Rightarrow> u64" where
  "set_pl_units cur pl1_units pl2_units =
     (let lo = (ucast (cur AND 0xffffffff) :: u32);
          hi = (ucast (drop_bit 32 cur) :: u32);
          lo = (lo AND NOT 0x7FFF) OR (ucast pl1_units AND 0x7FFF);
          hi = (hi AND NOT 0x7FFF) OR (ucast pl2_units AND 0x7FFF)
      in push_bit 32 (ucast hi :: u64) OR ucast lo)"

text \<open>\<^verbatim>\<open>apply_pl_units\<close> of the graphical tool: the same computation.\<close>

definition apply_pl_units :: "u64 \<Rightarrow> u16 \<Rightarrow> u16 \<Rightarrow> u64" where
  "apply_pl_units cur pl1_units pl2_units =
     (let lo = (ucast (cur AND 0xffffffff) :: u32);
          hi = (ucast (drop_bit 32 cur) :: u32);
          lo = (lo AND NOT 0x7FFF) OR (ucast pl1_units AND 0x7FFF);
          hi = (hi AND NOT 0x7FFF) OR (ucast pl2_units AND 0x7FFF)
      in push_bit 32 (ucast hi :: u64) OR ucast lo)"

text \<open>
  The two unit fields as \<^verbatim>\<open>print_pl\<close> (and \<^verbatim>\<open>update_msr\<close>, \<^verbatim>\<open>update_mmio\<close>) read them
  from a raw register value: the locals \<^verbatim>\<open>pl1\<close> and \<^verbatim>\<open>pl2\<close>.
\<close>

definition print_pl_units :: "u64 \<Rightarrow> u16 \<times> u16" where
  "print_pl_units val = (ucast (val AND 0x7FFF), ucast (drop_bit 32 val AND 0x7FFF))"

section \<open>MMIO base discovery\<close>

text \<open>
  The header reports a failure as \<^verbatim>\<open>-1\<close> and a message; the messages are the
  constructors below.
\<close>

datatype mchbar_error =
    PathTooLong
  | OpenDirFailed
  | HostBridgeNotFound
  | OpenConfigFailed
  | SeekFailed
  | ReadFailed
  | ShortRead nat
  | MchbarDisabled u64
  | BaseZero u64

text \<open>
  What a PCI configuration file does when it is opened, positioned and read: the open
  fails, the seek fails, the read fails, or the file holds these bytes.
\<close>

datatype config_file = NoOpen | NoSeek | ReadErr | Bytes "u8 list"

text \<open>
  The part of the operating system the header looks at. \<^verbatim>\<open>sysfs_hex_u32\<close> is the result
  of \<^verbatim>\<open>mchbar_read_sysfs_hex_u32\<close> on a path (\<open>None\<close> for its \<^verbatim>\<open>-1\<close>), \<^verbatim>\<open>pci_devices\<close>
  the entries \<^verbatim>\<open>readdir\<close> returns for the device directory in their order (\<open>None\<close>
  when \<^verbatim>\<open>opendir\<close> fails), \<^verbatim>\<open>config_at\<close> the configuration file at a path.
\<close>

record sysfs =
  sysfs_hex_u32 :: "string \<Rightarrow> u32 option"
  pci_devices :: "string list option"
  config_at :: "string \<Rightarrow> config_file"

definition PATH_MAX :: nat where
  "PATH_MAX = 4096"

text \<open>\<^verbatim>\<open>snprintf\<close> into a buffer of \<open>sz\<close> bytes keeps at most \<open>sz - 1\<close> characters.\<close>

definition snprintf_path :: "nat \<Rightarrow> string \<Rightarrow> string" where
  "snprintf_path sz s = take (sz - 1) s"

definition mchbar_is_intel_host_bridge :: "sysfs \<Rightarrow> string \<Rightarrow> bool" where
  "mchbar_is_intel_host_bridge fs dev_path =
     (let class_path = snprintf_path PATH_MAX (dev_path @ ''/class'');
          vendor_path = snprintf_path PATH_MAX (dev_path @ ''/vendor'')
      in case sysfs_hex_u32 fs class_path of
           None \<Rightarrow> False
         | Some class_val \<Rightarrow>
             (case sysfs_hex_u32 fs vendor_path of
                None \<Rightarrow> False
              | Some vendor_val \<Rightarrow>
                  if vendor_val \<noteq> 0x8086 then False
                  else if class_val AND 0xFFFF00 \<noteq> 0x060000 then False
                  else True))"

text \<open>The \<^verbatim>\<open>readdir\<close> loop: the first entry that is an Intel host bridge decides.\<close>

fun scan_pci_devices :: "sysfs \<Rightarrow> nat \<Rightarrow> string list \<Rightarrow> mchbar_error + string" where
  "scan_pci_devices fs out_sz [] = Inl HostBridgeNotFound"
| "scan_pci_devices fs out_sz (d_name # rest) =
     (if (case d_name of [] \<Rightarrow> False | c # _ \<Rightarrow> c = CHR ''.'') then scan_pci_devices fs out_sz rest
      else let dev_path = snprintf_path PATH_MAX (''/sys/bus/pci/devices/'' @ d_name)
           in if \<not> mchbar_is_intel_host_bridge fs dev_path then scan_pci_devices fs out_sz rest
              else if length dev_path + length ''/config'' + 1 > out_sz then Inl PathTooLong
              else Inr (dev_path @ ''/config''))"

definition mchbar_find_host_bridge_config :: "sysfs \<Rightarrow> nat \<Rightarrow> mchbar_error + string" where
  "mchbar_find_host_bridge_config fs out_sz =
     (let primary = ''/sys/bus/pci/devices/0000:00:00.0''
      in if mchbar_is_intel_host_bridge fs primary then
           (if length primary + length ''/config'' + 1 > out_sz then Inl PathTooLong
            else Inr (primary @ ''/config''))
         else case pci_devices fs of
                None \<Rightarrow> Inl OpenDirFailed
              | Some entries \<Rightarrow> scan_pci_devices fs out_sz entries)"

text \<open>
  The eight bytes \<^verbatim>\<open>read\<close> stores into a \<^verbatim>\<open>uint64_t\<close>, as the value the (little-endian)
  host then sees.
\<close>

fun le_u64 :: "u8 list \<Rightarrow> u64" where
  "le_u64 [] = 0"
| "le_u64 (b # bs) = ucast b OR push_bit 8 (le_u64 bs)"

definition mchbar_read_config_u64 :: "sysfs \<Rightarrow> string \<Rightarrow> nat \<Rightarrow> mchbar_error + u64" where
  "mchbar_read_config_u64 fs config_path offset =
     (case config_at fs config_path of
        NoOpen \<Rightarrow> Inl OpenConfigFailed
      | NoSeek \<Rightarrow> Inl SeekFailed
      | ReadErr \<Rightarrow> Inl ReadFailed
      | Bytes bs \<Rightarrow>
          (let got = take 8 (drop offset bs)
           in if length got \<noteq> 8 then Inl (ShortRead (length got))
              else Inr (le_u64 got)))"

definition mchbar_get_base :: "sysfs \<Rightarrow> mchbar_error + u64" where
  "mchbar_get_base fs =
     (case mchbar_find_host_bridge_config fs PATH_MAX of
        Inl e \<Rightarrow> Inl e
      | Inr config_path \<Rightarrow>
          (case mchbar_read_config_u64 fs config_path 0x48 of
             Inl e \<Rightarrow> Inl e
           | Inr val \<Rightarrow>
               if val AND 0x1 = 0 then Inl (MchbarDisabled val)
               else let base = val AND NOT 0xFFF
                    in if base = 0 then Inl (BaseZero val) else Inr base))"

text \<open>A machine whose device \<^verbatim>\<open>0000:00:00.0\<close> is an Intel host bridge with the given configuration bytes.\<close>

definition demo_sysfs :: "u8 list \<Rightarrow> sysfs" where
  "demo_sysfs bs =
     \<lparr> sysfs_hex_u32 = (\<lambda>p. if p = ''/sys/bus/pci/devices/0000:00:00.0/class'' then Some 0x060000
                             else if p = ''/sys/bus/pci/devices/0000:00:00.0/vendor'' then Some 0x8086
                             else None),
       pci_devices = Some [''.'', ''..'', ''0000:00:00.0''],
       config_at = (\<lambda>p. if p = ''/sys/bus/pci/devices/0000:00:00.0/config'' then Bytes bs else NoOpen) \<rparr>"

section \<open>Double arithmetic\<close>

text \<open>
  A \<^verbatim>\<open>double\<close> is modelled as the real number it stands for, and an operation on doubles
  as the exact operation followed by the rounding of IEEE 754 binary64: to the nearest
  number with 53 significant bits, a tie going to the one whose last bit is even
  (\<open>rint\<close>). The exponent of a number is found among \<open>-1022\<close> to \<open>1025\<close> by bisection;
  below \<open>2 powi -1022\<close> the spacing stays that of the subnormal numbers. Beyond the
  largest double the hardware gives an infinity where this function still gives a real
  number: every quotient or product below is passed to \<^verbatim>\<open>llround\<close>, for which both lie
  outside the range of \<^verbatim>\<open>long long\<close>.
\<close>

definition rint :: "real \<Rightarrow> int" where
  "rint x = (let f = \<lfloor>x\<rfloor>; d = x - of_int f
             in if d < 1 / 2 then f else if 1 / 2 < d then f + 1
                else if even f then f else f + 1)"

fun expo_search :: "nat \<Rightarrow> int \<Rightarrow> real \<Rightarrow> int" where
  "expo_search 0 lo a = lo"
| "expo_search (Suc n) lo a =
     (if 2 powi (lo + 2 ^ n) \<le> a then expo_search n (lo + 2 ^ n) a else expo_search n lo a)"

definition expo :: "real \<Rightarrow> int" where
  "expo a = expo_search 11 (- 1022) a"

definition binary64 :: "real \<Rightarrow> real" where
  "binary64 x = (let s = 2 powi (expo \<bar>x\<bar> - 52) in of_int (rint (x / s)) * s)"

text \<open>Division and multiplication of two doubles.\<close>

definition ddiv :: "real \<Rightarrow> real \<Rightarrow> real" where
  "ddiv a b = binary64 (a / b)"

definition dmul :: "real \<Rightarrow> real \<Rightarrow> real" where
  "dmul a b = binary64 (a * b)"

text \<open>
  \<^verbatim>\<open>llround\<close> rounds to the nearest integer, halves away from zero. Its result is a
  \<^verbatim>\<open>long long\<close>; the casts to \<^verbatim>\<open>uint64_t\<close> and \<^verbatim>\<open>uint16_t\<close> keep the low 64 and 16 bits (an
  argument beyond the range of \<^verbatim>\<open>long long\<close> has no specified result in C; where the
  result is cast the model wraps it).
\<close>

definition llround :: "real \<Rightarrow> int" where
  "llround x = (if 0 \<le> x then \<lfloor>x + 1 / 2\<rfloor> else - \<lfloor>- x + 1 / 2\<rfloor>)"

section \<open>Voltage-offset quantisation\<close>

text \<open>
  \<^verbatim>\<open>kUvMvScale\<close> is the double nearest to 1.024. \<^verbatim>\<open>quantize_uv_mv\<close> multiplies, rounds with
  \<^verbatim>\<open>llround\<close>, converts the \<^verbatim>\<open>long long\<close> to a double and divides; where the product is
  beyond the range of \<^verbatim>\<open>long long\<close> the result is not specified and is \<open>None\<close> here.
\<close>

definition kUvMvScale :: real where
  "kUvMvScale = binary64 1.024"

definition quantize_uv_mv :: "real \<Rightarrow> real option" where
  "quantize_uv_mv mv =
     (let n = llround (dmul mv kUvMvScale)
      in if - (2 ^ 63) \<le> n \<and> n < 2 ^ 63 then Some (ddiv (binary64 (of_int n)) kUvMvScale)
         else None)"

section \<open>Watts to units\<close>

text \<open>
  The conversion of the command-line tools (\<^verbatim>\<open>set_limits\<close> of the interactive tool and
  \<^verbatim>\<open>main\<close> of the scanner): the rounded quotient is cast to \<^verbatim>\<open>uint16_t\<close> first, the range
  test comes after the cast.
\<close>

definition cli_units :: "real \<Rightarrow> real \<Rightarrow> u16" where
  "cli_units w unit_watts = word_of_int (llround (ddiv w unit_watts))"

definition cli_units_out_of_range :: "u16 \<Rightarrow> u16 \<Rightarrow> bool" where
  "cli_units_out_of_range pl1_units pl2_units =
     (pl1_units = 0 \<or> pl2_units = 0 \<or> pl1_units > 0x7FFF \<or> pl2_units > 0x7FFF)"

definition cli_build_units :: "real \<Rightarrow> real \<Rightarrow> real \<Rightarrow> (u16 \<times> u16) option" where
  "cli_build_units unit_watts pl1_w pl2_w =
     (let pl1_units = cli_units pl1_w unit_watts;
          pl2_units = cli_units pl2_w unit_watts
      in if cli_units_out_of_range pl1_units pl2_units then None
         else Some (pl1_units, pl2_units))"

section \<open>Text\<close>

definition hex_digit :: "nat \<Rightarrow> char" where
  "hex_digit n = ''0123456789abcdef'' ! (n mod 16)"

text \<open>\<^verbatim>\<open>hex64\<close>: \<^verbatim>\<open>0x\<close> and sixteen lower-case hexadecimal digits.\<close>

definition hex64 :: "u64 \<Rightarrow> string" where
  "hex64 v = ''0x'' @ map (\<lambda>i. hex_digit (unat (drop_bit (4 * i) v AND 0xF))) (rev [0..<16])"

fun dec_nat :: "nat \<Rightarrow> string" where
  "dec_nat n = (if n < 10 then [hex_digit n] else dec_nat (n div 10) @ [hex_digit (n mod 10)])"

declare dec_nat.simps [simp del]

definition dec_int :: "int \<Rightarrow> string" where
  "dec_int i = (if i < 0 then CHR ''-'' # dec_nat (nat (- i)) else dec_nat (nat i))"

definition is_space :: "char \<Rightarrow> bool" where
  "is_space c = (c = CHR '' '' \<or> c = CHR 0x09 \<or> c = CHR 0x0A \<or> c = CHR 0x0B \<or> c = CHR 0x0C
                 \<or> c = CHR 0x0D)"

text \<open>\<^verbatim>\<open>QString::trimmed\<close>: white space removed at both ends.\<close>

definition trimmed :: "string \<Rightarrow> string" where
  "trimmed s = rev (dropWhile is_space (rev (dropWhile is_space s)))"

text \<open>\<^verbatim>\<open>QString::split\<close> at a character, and the same with \<^verbatim>\<open>Qt::SkipEmptyParts\<close>.\<close>

fun split_at :: "char \<Rightarrow> string \<Rightarrow> string list" where
  "split_at sep [] = [[]]"
| "split_at sep (c # cs) =
     (if c = sep then [] # split_at sep cs
      else (case split_at sep cs of [] \<Rightarrow> [[c]] | part # parts \<Rightarrow> (c # part) # parts))"

definition split_skip_empty :: "char \<Rightarrow> string \<Rightarrow> string list" where
  "split_skip_empty sep s = filter (\<lambda>part. part \<noteq> []) (split_at sep s)"

text \<open>\<^verbatim>\<open>QString::indexOf\<close>: the first position of the character, \<open>-1\<close> when there is none.\<close>

fun indexOf :: "char \<Rightarrow> string \<Rightarrow> int" where
  "indexOf ch [] = -1"
| "indexOf ch (c # cs) =
     (if c = ch then 0 else (let i = indexOf ch cs in if i < 0 then -1 else i + 1))"

section \<open>The helper's protocol\<close>

record ReadState =
  power_unit :: int
  unit_watts :: real
  msr :: u64
  mmio :: u64
  core_type_supported :: bool
  p_cpus :: string
  e_cpus :: string
  u_cpus :: string
  p_ratio_valid :: bool
  e_ratio_valid :: bool
  p_ratio :: int
  e_ratio :: int
  p_ratio_cur_valid :: bool
  e_ratio_cur_valid :: bool
  p_ratio_cur :: int
  e_ratio_cur :: int
  core_uv_valid :: bool
  core_uv_mv :: real
  core_uv_raw :: string

text \<open>What a finished (or unfinished) helper process leaves behind.\<close>

record proc_result =
  finished :: bool
  normal_exit :: bool
  exit_code :: int
  std_out :: string
  std_err :: string

text \<open>
  Everything the window relies on and does not implement. The state \<open>'w\<close> is the world
  outside the process: the hardware, the helper, the operator. \<^verbatim>\<open>pkexec\<close> runs the helper
  with arguments, \<^verbatim>\<open>message_box\<close> shows a Yes/No box (title, detail) and tells whether Yes
  was chosen; both may change the world. The others are the library's conversions:
  \<^verbatim>\<open>toInt\<close>, \<^verbatim>\<open>toDouble\<close> and \<^verbatim>\<open>toULongLong\<close> with base 0 (\<open>None\<close> when \<^verbatim>\<open>ok\<close> is false),
  \<^verbatim>\<open>arg\<close> of a double in format \<^verbatim>\<open>'f'\<close> with a precision, and the value a spin box of two
  decimals within 1 and 5000 keeps when it is set.
\<close>

record 'w platform =
  pkexec :: "string list \<Rightarrow> 'w \<Rightarrow> proc_result \<times> 'w"
  message_box :: "string \<Rightarrow> string \<Rightarrow> 'w \<Rightarrow> bool \<times> 'w"
  toInt :: "string \<Rightarrow> int option"
  toDouble :: "string \<Rightarrow> real option"
  toULongLong :: "string \<Rightarrow> u64 option"
  arg_f :: "real \<Rightarrow> nat \<Rightarrow> string"
  spin_value :: "real \<Rightarrow> real"

text \<open>What the window did, in order: helper runs, error boxes, questions with their answer, log lines.\<close>

datatype event =
    HelperCall "string list"
  | ErrorBox string string
  | Question string string bool
  | LogLine string

text \<open>
  The window: the world it acts on, the record of what it did, and the widgets and
  members the limit workflow reads or writes (the members \<^verbatim>\<open>power_unit_\<close> and
  \<^verbatim>\<open>unit_watts_\<close> are \<open>win_power_unit\<close> and \<open>win_unit_watts\<close>, the others lose their
  final underscore).
\<close>

record 'w window =
  world :: 'w
  events :: "event list"
  pl1_spin :: real
  pl2_spin :: real
  powercap_check :: bool
  win_power_unit :: int
  win_unit_watts :: real
  unit_label :: string
  msr_raw :: string
  msr_pl1 :: string
  msr_pl2 :: string
  mmio_raw :: string
  mmio_pl1 :: string
  mmio_pl2 :: string
  did_init_limits :: bool

definition run_pkexec ::
  "'w platform \<Rightarrow> string list \<Rightarrow> 'w window \<Rightarrow> (bool \<times> string \<times> string) \<times> 'w window" where
  "run_pkexec P args g =
     (let (r, w) = pkexec P args (world g);
          g = g\<lparr>world := w, events := events g @ [HelperCall args]\<rparr>
      in if \<not> finished r then ((False, [], ''Helper timed out.''), g)
         else let out = std_out r; err_text = std_err r
              in if \<not> normal_exit r \<or> exit_code r \<noteq> 0 then
                   ((False, out,
                     if err_text \<noteq> [] then trimmed err_text
                     else ''Helper failed (exit '' @ dec_int (exit_code r) @ '')''), g)
                 else ((True, out, trimmed err_text), g))"

definition run_simple :: "'w platform \<Rightarrow> string list \<Rightarrow> 'w window \<Rightarrow> string option \<times> 'w window" where
  "run_simple P args g =
     (case run_pkexec P args g of
        ((False, out, err_out), g) \<Rightarrow>
          (Some (if err_out = [] then ''Failed to run helper'' else err_out), g)
      | ((True, out, err_out), g) \<Rightarrow> (None, g))"

definition value_of :: "(string \<rightharpoonup> string) \<Rightarrow> string \<Rightarrow> string" where
  "value_of vals key = (case vals key of None \<Rightarrow> [] | Some v \<Rightarrow> v)"

definition insert_line :: "(string \<rightharpoonup> string) \<Rightarrow> string \<Rightarrow> (string \<rightharpoonup> string)" where
  "insert_line vals line =
     (let idx = indexOf CHR ''='' line
      in if idx \<le> 0 then vals
         else vals(trimmed (take (nat idx) line) \<mapsto> trimmed (drop (nat (idx + 1)) line)))"

definition state_values :: "string \<Rightarrow> (string \<rightharpoonup> string)" where
  "state_values out = foldl insert_line Map.empty (split_skip_empty CHR 0x0A out)"

definition int_or_0 :: "int option \<Rightarrow> int" where
  "int_or_0 r = (case r of None \<Rightarrow> 0 | Some v \<Rightarrow> v)"

definition parse_state :: "'w platform \<Rightarrow> string \<Rightarrow> string + ReadState" where
  "parse_state P out =
     (let vals = state_values out in
      case toInt P (value_of vals ''POWER_UNIT'') of
        None \<Rightarrow> Inl ''Missing POWER_UNIT from helper.''
      | Some pu \<Rightarrow>
      (case toDouble P (value_of vals ''UNIT_WATTS'') of
        None \<Rightarrow> Inl ''Missing UNIT_WATTS from helper.''
      | Some uw \<Rightarrow>
      (case toULongLong P (value_of vals ''MSR'') of
        None \<Rightarrow> Inl ''Missing MSR value from helper.''
      | Some msr_val \<Rightarrow>
      (case toULongLong P (value_of vals ''MMIO'') of
        None \<Rightarrow> Inl ''Missing MMIO value from helper.''
      | Some mmio_val \<Rightarrow>
          Inr \<lparr> power_unit = pu, unit_watts = uw, msr = msr_val, mmio = mmio_val,
                core_type_supported = (int_or_0 (toInt P (value_of vals ''CORE_TYPE_SUPPORTED'')) = 1),
                p_cpus = value_of vals ''P_CPUS'',
                e_cpus = value_of vals ''E_CPUS'',
                u_cpus = value_of vals ''U_CPUS'',
                p_ratio_valid = (int_or_0 (toInt P (value_of vals ''P_RATIO_VALID'')) = 1),
                e_ratio_valid = (int_or_0 (toInt P (value_of vals ''E_RATIO_VALID'')) = 1),
                p_ratio = int_or_0 (toInt P (value_of vals ''P_RATIO_TARGET'')),
                e_ratio = int_or_0 (toInt P (value_of vals ''E_RATIO_TARGET'')),
                p_ratio_cur_valid = (int_or_0 (toInt P (value_of vals ''P_RATIO_CUR_VALID'')) = 1),
                e_ratio_cur_valid = (int_or_0 (toInt P (value_of vals ''E_RATIO_CUR_VALID'')) = 1),
                p_ratio_cur = int_or_0 (toInt P (value_of vals ''P_RATIO_CUR'')),
                e_ratio_cur = int_or_0 (toInt P (value_of vals ''E_RATIO_CUR'')),
                core_uv_valid = (int_or_0 (toInt P (value_of vals ''CORE_UV_VALID'')) = 1),
                core_uv_mv = (case toDouble P (value_of vals ''CORE_UV_MV'') of None \<Rightarrow> 0 | Some v \<Rightarrow> v),
                core_uv_raw = value_of vals ''CORE_UV_RAW'' \<rparr>))))"

definition read_state :: "'w platform \<Rightarrow> 'w window \<Rightarrow> (string + ReadState) \<times> 'w window" where
  "read_state P g =
     (case run_pkexec P [''--read''] g of
        ((False, out, err_out), g) \<Rightarrow>
          (Inl (if err_out = [] then ''Failed to run helper'' else err_out), g)
      | ((True, out, err_out), g) \<Rightarrow> (parse_state P out, g))"

definition write_msr :: "'w platform \<Rightarrow> u64 \<Rightarrow> 'w window \<Rightarrow> string option \<times> 'w window" where
  "write_msr P val g = run_simple P [''--write-msr'', hex64 val] g"

definition write_mmio :: "'w platform \<Rightarrow> u64 \<Rightarrow> 'w window \<Rightarrow> string option \<times> 'w window" where
  "write_mmio P val g = run_simple P [''--write-mmio'', hex64 val] g"

definition write_powercap :: "'w platform \<Rightarrow> u64 \<Rightarrow> u64 \<Rightarrow> 'w window \<Rightarrow> string option \<times> 'w window" where
  "write_powercap P pl1_uw pl2_uw g =
     run_simple P [''--write-powercap'', dec_nat (unat pl1_uw), dec_nat (unat pl2_uw)] g"

text \<open>
  The keys a response gives, read off its text: each non-empty line with a \<^verbatim>\<open>=\<close> after
  its first character gives the trimmed text before the first \<^verbatim>\<open>=\<close>. A response lacks a
  key when the key is not among them.
\<close>

definition line_key :: "string \<Rightarrow> string option" where
  "line_key line =
     (if 0 < indexOf CHR ''='' line then Some (trimmed (take (nat (indexOf CHR ''='' line)) line))
      else None)"

definition response_keys :: "string \<Rightarrow> string list" where
  "response_keys out = List.map_filter line_key (split_skip_empty CHR 0x0A out)"

definition required_keys :: "string list" where
  "required_keys = [''POWER_UNIT'', ''UNIT_WATTS'', ''MSR'', ''MMIO'']"

text \<open>All the keys \<^verbatim>\<open>parse_state\<close> looks up.\<close>

definition state_keys :: "string list" where
  "state_keys =
     [''POWER_UNIT'', ''UNIT_WATTS'', ''MSR'', ''MMIO'', ''CORE_TYPE_SUPPORTED'', ''P_CPUS'',
      ''E_CPUS'', ''U_CPUS'', ''P_RATIO_VALID'', ''E_RATIO_VALID'', ''P_RATIO_CUR_VALID'',
      ''E_RATIO_CUR_VALID'', ''P_RATIO_TARGET'', ''E_RATIO_TARGET'', ''P_RATIO_CUR'',
      ''E_RATIO_CUR'', ''CORE_UV_VALID'', ''CORE_UV_MV'', ''CORE_UV_RAW'']"

section \<open>The window's limit workflow\<close>

datatype Target = Msr | Mmio | Both

text \<open>\<^verbatim>\<open>log_message\<close> appends a line to the log view (the time stamp in front of it is left out).\<close>

definition log_message :: "string \<Rightarrow> 'w window \<Rightarrow> 'w window" where
  "log_message msg g = g\<lparr>events := events g @ [LogLine msg]\<rparr>"

definition show_error :: "string \<Rightarrow> string \<Rightarrow> 'w window \<Rightarrow> 'w window" where
  "show_error title detail g =
     log_message (title @ '': '' @ detail) (g\<lparr>events := events g @ [ErrorBox title detail]\<rparr>)"

definition confirm_action :: "'w platform \<Rightarrow> string \<Rightarrow> string \<Rightarrow> 'w window \<Rightarrow> bool \<times> 'w window" where
  "confirm_action P title detail g =
     (let (yes, w) = message_box P title detail (world g)
      in (yes, g\<lparr>world := w, events := events g @ [Question title detail yes]\<rparr>))"

definition update_units :: "'w platform \<Rightarrow> ReadState \<Rightarrow> 'w window \<Rightarrow> bool \<times> 'w window" where
  "update_units P state g =
     (if unit_watts state \<le> 0 then (False, g)
      else (True, g\<lparr>win_power_unit := power_unit state,
                     win_unit_watts := unit_watts state,
                     unit_label := ''2^-'' @ dec_int (power_unit state) @ '' W = ''
                                      @ arg_f P (unit_watts state) 6 @ '' W''\<rparr>))"

definition units_to_text :: "'w platform \<Rightarrow> u16 \<Rightarrow> real \<Rightarrow> string" where
  "units_to_text P units uw =
     (let watts = dmul (real (unat units)) uw
      in ''units '' @ dec_nat (unat units) @ '' ('' @ arg_f P watts 2 @ '' W)'')"

definition update_msr :: "'w platform \<Rightarrow> u64 \<Rightarrow> 'w window \<Rightarrow> 'w window" where
  "update_msr P val g =
     (let pl1 = (ucast (val AND 0x7FFF) :: u16);
          pl2 = (ucast (drop_bit 32 val AND 0x7FFF) :: u16)
      in g\<lparr>msr_raw := hex64 val,
            msr_pl1 := units_to_text P pl1 (win_unit_watts g),
            msr_pl2 := units_to_text P pl2 (win_unit_watts g)\<rparr>)"

definition update_mmio :: "'w platform \<Rightarrow> u64 \<Rightarrow> 'w window \<Rightarrow> 'w window" where
  "update_mmio P val g =
     (let pl1 = (ucast (val AND 0x7FFF) :: u16);
          pl2 = (ucast (drop_bit 32 val AND 0x7FFF) :: u16)
      in g\<lparr>mmio_raw := hex64 val,
            mmio_pl1 := units_to_text P pl1 (win_unit_watts g),
            mmio_pl2 := units_to_text P pl2 (win_unit_watts g)\<rparr>)"

definition maybe_init_limits :: "'w platform \<Rightarrow> ReadState \<Rightarrow> 'w window \<Rightarrow> 'w window" where
  "maybe_init_limits P state g =
     (if did_init_limits g then g
      else let base = (if msr state \<noteq> 0 then msr state else mmio state);
               pl1 = (ucast (base AND 0x7FFF) :: u16);
               pl2 = (ucast (drop_bit 32 base AND 0x7FFF) :: u16)
           in if pl1 = 0 \<or> pl2 = 0 \<or> win_unit_watts g \<le> 0 then g
              else let pl1_w = dmul (real (unat pl1)) (win_unit_watts g);
                       pl2_w = dmul (real (unat pl2)) (win_unit_watts g)
                   in g\<lparr>pl1_spin := spin_value P pl1_w,
                         pl2_spin := spin_value P pl2_w,
                         did_init_limits := True\<rparr>)"

text \<open>
  \<^verbatim>\<open>refresh\<close>. Its call of \<^verbatim>\<open>update_core_info\<close>, which fills the core-ratio and voltage
  widgets, is left out: it touches neither the helper nor a widget of this workflow.
\<close>

definition refresh :: "'w platform \<Rightarrow> 'w window \<Rightarrow> 'w window" where
  "refresh P g =
     (case read_state P g of
        (Inl err, g) \<Rightarrow> show_error ''Read failed'' err g
      | (Inr state, g) \<Rightarrow>
          (case update_units P state g of
             (False, g) \<Rightarrow> show_error ''Invalid unit'' ''Power unit is unknown or zero.'' g
           | (True, g) \<Rightarrow>
               maybe_init_limits P state (update_mmio P (mmio state) (update_msr P (msr state) g))))"

definition build_units :: "real \<Rightarrow> 'w window \<Rightarrow> (u16 \<times> u16) option \<times> 'w window" where
  "build_units uw g =
     (if uw \<le> 0 then (None, show_error ''Invalid unit'' ''Power unit is unknown or zero.'' g)
      else let pl1_w = pl1_spin g;
               pl2_w = pl2_spin g;
               pl1_calc = (word_of_int (llround (ddiv pl1_w uw)) :: u64);
               pl2_calc = (word_of_int (llround (ddiv pl2_w uw)) :: u64)
           in if pl1_calc = 0 \<or> pl2_calc = 0 \<or> pl1_calc > 0x7FFF \<or> pl2_calc > 0x7FFF then
                (None, show_error ''Invalid values'' ''Converted units out of range.'' g)
              else (Some (ucast pl1_calc, ucast pl2_calc), g))"

text \<open>
  The three blocks of \<^verbatim>\<open>apply_limits_internal\<close> after the conversion, each as a function
  that tells whether the workflow goes on (\<open>False\<close> is its \<^verbatim>\<open>return false\<close>).
\<close>

definition limits_msr_block ::
  "'w platform \<Rightarrow> Target \<Rightarrow> bool \<Rightarrow> ReadState \<Rightarrow> u16 \<Rightarrow> u16 \<Rightarrow> 'w window \<Rightarrow> bool \<times> 'w window" where
  "limits_msr_block P target confirm state pl1_units pl2_units g =
     (if target = Msr \<or> target = Both then
        let next = apply_pl_units (msr state) pl1_units pl2_units;
            (yes, g) = (if confirm then
                          confirm_action P ''Write MSR?''
                            (''MSR (0x'' @ ''610'' @ '') new value: '' @ hex64 next) g
                        else (True, g))
        in if \<not> yes then (False, g)
           else (case write_msr P next g of
                   (Some err, g) \<Rightarrow> (False, show_error ''Write MSR failed'' err g)
                 | (None, g) \<Rightarrow> (True, log_message (''Wrote MSR '' @ hex64 next) g))
      else (True, g))"

definition limits_mmio_block ::
  "'w platform \<Rightarrow> Target \<Rightarrow> bool \<Rightarrow> ReadState \<Rightarrow> u16 \<Rightarrow> u16 \<Rightarrow> 'w window \<Rightarrow> bool \<times> 'w window" where
  "limits_mmio_block P target confirm state pl1_units pl2_units g =
     (if target = Mmio \<or> target = Both then
        let next = apply_pl_units (mmio state) pl1_units pl2_units;
            (yes, g) = (if confirm then
                          confirm_action P ''Write MMIO?''
                            (''MMIO (0x'' @ ''59a0'' @ '') new value: '' @ hex64 next) g
                        else (True, g))
        in if \<not> yes then (False, g)
           else (case write_mmio P next g of
                   (Some err, g) \<Rightarrow> (False, show_error ''Write MMIO failed'' err g)
                 | (None, g) \<Rightarrow> (True, log_message (''Wrote MMIO '' @ hex64 next) g))
      else (True, g))"

definition limits_powercap_block ::
  "'w platform \<Rightarrow> bool \<Rightarrow> real \<Rightarrow> real \<Rightarrow> 'w window \<Rightarrow> bool \<times> 'w window" where
  "limits_powercap_block P confirm pl1_w pl2_w g =
     (if powercap_check g then
        let pl1_uw = (word_of_int (llround (dmul pl1_w 1000000)) :: u64);
            pl2_uw = (word_of_int (llround (dmul pl2_w 1000000)) :: u64)
        in if pl1_uw = 0 \<or> pl2_uw = 0 then
             (False, show_error ''Invalid values'' ''Kernel powercap values must be non-zero.'' g)
           else
             let (yes, g) = (if confirm then
                               confirm_action P ''Write kernel powercap?''
                                 (''PL1: '' @ arg_f P pl1_w 2 @ '' W ('' @ dec_nat (unat pl1_uw)
                                   @ '' uW)'' @ [CHR 0x0A] @ ''PL2: '' @ arg_f P pl2_w 2 @ '' W (''
                                   @ dec_nat (unat pl2_uw) @ '' uW)'') g
                             else (True, g))
             in if \<not> yes then (False, g)
                else (case write_powercap P pl1_uw pl2_uw g of
                        (Some err, g) \<Rightarrow> (False, show_error ''Write powercap failed'' err g)
                      | (None, g) \<Rightarrow>
                          (True, log_message (''Wrote kernel powercap PL1='' @ arg_f P pl1_w 2
                                   @ ''W PL2='' @ arg_f P pl2_w 2 @ ''W'') g))
      else (True, g))"

definition apply_limits_internal ::
  "'w platform \<Rightarrow> Target \<Rightarrow> bool \<Rightarrow> bool \<Rightarrow> 'w window \<Rightarrow> bool \<times> 'w window" where
  "apply_limits_internal P target confirm do_refresh g =
     (case read_state P g of
        (Inl err, g) \<Rightarrow> (False, show_error ''Read failed'' err g)
      | (Inr state, g) \<Rightarrow>
      (case update_units P state g of
        (False, g) \<Rightarrow> (False, show_error ''Invalid unit'' ''Power unit is unknown or zero.'' g)
      | (True, g) \<Rightarrow>
      (case build_units (unit_watts state) g of
        (None, g) \<Rightarrow> (False, g)
      | (Some (pl1_units, pl2_units), g) \<Rightarrow>
      (let pl1_w = pl1_spin g; pl2_w = pl2_spin g in
       case limits_msr_block P target confirm state pl1_units pl2_units g of
        (False, g) \<Rightarrow> (False, g)
      | (True, g) \<Rightarrow>
      (case limits_mmio_block P target confirm state pl1_units pl2_units g of
        (False, g) \<Rightarrow> (False, g)
      | (True, g) \<Rightarrow>
      (case limits_powercap_block P confirm pl1_w pl2_w g of
        (False, g) \<Rightarrow> (False, g)
      | (True, g) \<Rightarrow> (True, if do_refresh then refresh P g else g)))))))"

definition apply_limits :: "'w platform \<Rightarrow> Target \<Rightarrow> 'w window \<Rightarrow> 'w window" where
  "apply_limits P target g = snd (apply_limits_internal P target True True g)"

definition sync_msr_to_mmio :: "'w platform \<Rightarrow> 'w window \<Rightarrow> 'w window" where
  "sync_msr_to_mmio P g =
     (case read_state P g of
        (Inl err, g) \<Rightarrow> show_error ''Read failed'' err g
      | (Inr state, g) \<Rightarrow>
          (case confirm_action P ''Sync MSR -> MMIO?''
                  (''MMIO (0x'' @ ''59a0'' @ '') will be set to '' @ hex64 (msr state)) g of
             (False, g) \<Rightarrow> g
           | (True, g) \<Rightarrow>
               (case write_mmio P (msr state) g of
                  (Some err, g) \<Rightarrow> show_error ''Write MMIO failed'' err g
                | (None, g) \<Rightarrow>
                    refresh P (log_message (''Synced MSR -> MMIO ('' @ hex64 (msr state) @ '')'') g))))"

definition sync_mmio_to_msr :: "'w platform \<Rightarrow> 'w window \<Rightarrow> 'w window" where
  "sync_mmio_to_msr P g =
     (case read_state P g of
        (Inl err, g) \<Rightarrow> show_error ''Read failed'' err g
      | (Inr state, g) \<Rightarrow>
          (case confirm_action P ''Sync MMIO -> MSR?''
                  (''MSR (0x'' @ ''610'' @ '') will be set to '' @ hex64 (mmio state)) g of
             (False, g) \<Rightarrow> g
           | (True, g) \<Rightarrow>
               (case write_msr P (mmio state) g of
                  (Some err, g) \<Rightarrow> show_error ''Write MSR failed'' err g
                | (None, g) \<Rightarrow>
                    refresh P (log_message (''Synced MMIO -> MSR ('' @ hex64 (mmio state) @ '')'') g))))"

text \<open>The helper runs among the events, and those with a given first argument.\<close>

fun helper_calls :: "event list \<Rightarrow> string list list" where
  "helper_calls [] = []"
| "helper_calls (HelperCall args # es) = args # helper_calls es"
| "helper_calls (e # es) = helper_calls es"

definition calls_of :: "string \<Rightarrow> event list \<Rightarrow> string list list" where
  "calls_of cmd es = filter (\<lambda>args. args \<noteq> [] \<and> hd args = cmd) (helper_calls es)"

section \<open>The interactive command-line tool\<close>

text \<open>
  The machine the tool runs on. \<^verbatim>\<open>msr_regs\<close> is what an 8-byte \<^verbatim>\<open>pread\<close> on the MSR device
  delivers at a register number (\<open>None\<close> when it does not deliver 8 bytes) and
  \<^verbatim>\<open>msr_writable\<close> tells whether the \<^verbatim>\<open>pwrite\<close> there delivers 8 bytes; \<^verbatim>\<open>mmio_mem\<close> is the
  mapped window, one 32-bit word at each byte offset used; \<^verbatim>\<open>sys_files\<close> are the files
  \<^verbatim>\<open>write_text_file\<close> can open for writing, with their text; \<^verbatim>\<open>stdin\<close> is the input not
  yet read. A register and a word of the window keep what was last written to them. What
  the tool prints is left out.
\<close>

record machine =
  msr_regs :: "u32 \<Rightarrow> u64 option"
  msr_writable :: "u32 \<Rightarrow> bool"
  mmio_mem :: "nat \<Rightarrow> u32"
  sys_files :: "string \<Rightarrow> string option"
  stdin :: string

text \<open>
  \<^verbatim>\<open>strtol\<close> with base 10 and \<^verbatim>\<open>strtod\<close>: the value and the number of characters
  converted (0 when there is no conversion).
\<close>

record libc =
  strtol :: "string \<Rightarrow> int \<times> nat"
  strtod :: "string \<Rightarrow> real \<times> nat"

definition PL_OFF :: nat where
  "PL_OFF = 0x59A0"

definition MSR_PKG_POWER_LIMIT :: u32 where
  "MSR_PKG_POWER_LIMIT = 0x610"

definition rd64 :: "(nat \<Rightarrow> u32) \<Rightarrow> nat \<Rightarrow> u64" where
  "rd64 base off =
     (let lo = (ucast (base off) :: u64);
          hi = (ucast (base (off + 4)) :: u64)
      in lo OR push_bit 32 hi)"

definition wr64 :: "(nat \<Rightarrow> u32) \<Rightarrow> nat \<Rightarrow> u64 \<Rightarrow> (nat \<Rightarrow> u32)" where
  "wr64 base off v = (base(off := ucast (v AND 0xffffffff)))(off + 4 := ucast (drop_bit 32 v))"

definition rdmsr :: "machine \<Rightarrow> u32 \<Rightarrow> u64 option" where
  "rdmsr m reg = msr_regs m reg"

definition wrmsr :: "u32 \<Rightarrow> u64 \<Rightarrow> machine \<Rightarrow> bool \<times> machine" where
  "wrmsr reg val m =
     (if msr_writable m reg then (True, m\<lparr>msr_regs := (msr_regs m)(reg \<mapsto> val)\<rparr>)
      else (False, m))"

definition write_text_file :: "string \<Rightarrow> string \<Rightarrow> machine \<Rightarrow> bool \<times> machine" where
  "write_text_file path text m =
     (case sys_files m path of
        None \<Rightarrow> (False, m)
      | Some old \<Rightarrow> (True, m\<lparr>sys_files := (sys_files m)(path \<mapsto> text)\<rparr>))"

definition write_powercap_uw :: "u64 \<Rightarrow> u64 \<Rightarrow> machine \<Rightarrow> bool \<times> machine" where
  "write_powercap_uw pl1_uw pl2_uw m =
     (case write_text_file ''/sys/class/powercap/intel-rapl:0/constraint_0_power_limit_uw''
             (dec_nat (unat pl1_uw)) m of
        (False, m) \<Rightarrow> (False, m)
      | (True, m) \<Rightarrow>
          write_text_file ''/sys/class/powercap/intel-rapl:0/constraint_1_power_limit_uw''
            (dec_nat (unat pl2_uw)) m)"

text \<open>
  \<^verbatim>\<open>read_line\<close>: \<^verbatim>\<open>fgets\<close> takes at most \<open>sz - 1\<close> characters and stops after a newline,
  which is then removed; nothing to read is \<open>None\<close>.
\<close>

definition read_line :: "nat \<Rightarrow> machine \<Rightarrow> string option \<times> machine" where
  "read_line sz m =
     (let inp = stdin m
      in if inp = [] then (None, m)
         else let line = takeWhile (\<lambda>c. c \<noteq> CHR 0x0A) inp
              in if length line < sz - 1 then (Some line, m\<lparr>stdin := drop (length line + 1) inp\<rparr>)
                 else (Some (take (sz - 1) inp), m\<lparr>stdin := drop (sz - 1) inp\<rparr>))"

definition blank :: "char \<Rightarrow> bool" where
  "blank c = (c = CHR '' '' \<or> c = CHR 0x09)"

definition parse_int :: "libc \<Rightarrow> string \<Rightarrow> int option" where
  "parse_int L s =
     (let (v, n) = strtol L s
      in if n = 0 then None
         else if dropWhile blank (drop n s) \<noteq> [] then None
         else Some (sint (word_of_int v :: 32 word)))"

definition parse_double :: "libc \<Rightarrow> string \<Rightarrow> real option" where
  "parse_double L s =
     (let (v, n) = strtod L s
      in if n = 0 then None
         else if dropWhile blank (drop n s) \<noteq> [] then None
         else Some v)"

definition prompt_int :: "libc \<Rightarrow> machine \<Rightarrow> int option \<times> machine" where
  "prompt_int L m =
     (case read_line 128 m of
        (None, m) \<Rightarrow> (None, m)
      | (Some buf, m) \<Rightarrow> if buf = [] then (None, m) else (parse_int L buf, m))"

definition prompt_double :: "libc \<Rightarrow> machine \<Rightarrow> real option \<times> machine" where
  "prompt_double L m =
     (case read_line 128 m of
        (None, m) \<Rightarrow> (None, m)
      | (Some buf, m) \<Rightarrow>
          if buf = [] then (None, m)
          else if hd buf = CHR ''q'' \<or> hd buf = CHR ''Q'' then (None, m)
          else (parse_double L buf, m))"

definition confirm :: "machine \<Rightarrow> bool \<times> machine" where
  "confirm m =
     (case read_line 16 m of
        (None, m) \<Rightarrow> (False, m)
      | (Some buf, m) \<Rightarrow> (buf \<noteq> [] \<and> (hd buf = CHR ''y'' \<or> hd buf = CHR ''Y''), m))"

text \<open>
  The three blocks of \<^verbatim>\<open>set_limits\<close> after the conversion. The first tells whether the
  function goes on (\<open>False\<close> is its \<^verbatim>\<open>return -1\<close>), the last gives the function's result.
\<close>

definition set_limits_msr :: "int \<Rightarrow> u16 \<Rightarrow> u16 \<Rightarrow> machine \<Rightarrow> bool \<times> machine" where
  "set_limits_msr target pl1_units pl2_units m =
     (if target = 1 \<or> target = 3 then
        (case rdmsr m MSR_PKG_POWER_LIMIT of
           None \<Rightarrow> (False, m)
         | Some cur \<Rightarrow>
             let next = set_pl_units cur pl1_units pl2_units;
                 (yes, m) = confirm m
             in if yes then wrmsr MSR_PKG_POWER_LIMIT next m else (True, m))
      else (True, m))"

definition set_limits_mmio :: "int \<Rightarrow> u16 \<Rightarrow> u16 \<Rightarrow> machine \<Rightarrow> machine" where
  "set_limits_mmio target pl1_units pl2_units m =
     (if target = 2 \<or> target = 3 then
        let cur = rd64 (mmio_mem m) PL_OFF;
            next = set_pl_units cur pl1_units pl2_units;
            (yes, m) = confirm m
        in if yes then m\<lparr>mmio_mem := wr64 (mmio_mem m) PL_OFF next\<rparr> else m
      else m)"

definition set_limits_powercap :: "real \<Rightarrow> real \<Rightarrow> machine \<Rightarrow> int \<times> machine" where
  "set_limits_powercap pl1_w pl2_w m =
     (let (yes, m) = confirm m
      in if yes then
           let pl1_uw = (word_of_int (llround (dmul pl1_w 1000000)) :: u64);
               pl2_uw = (word_of_int (llround (dmul pl2_w 1000000)) :: u64)
           in if pl1_uw = 0 \<or> pl2_uw = 0 then (- 1, m)
              else (case write_powercap_uw pl1_uw pl2_uw m of
                      (False, m) \<Rightarrow> (- 1, m)
                    | (True, m) \<Rightarrow> (0, m))
         else (0, m))"

definition set_limits :: "libc \<Rightarrow> real \<Rightarrow> machine \<Rightarrow> int \<times> machine" where
  "set_limits L uw m =
     (case prompt_double L m of
        (None, m) \<Rightarrow> (0, m)
      | (Some pl1_w, m) \<Rightarrow>
      (case prompt_double L m of
        (None, m) \<Rightarrow> (0, m)
      | (Some pl2_w, m) \<Rightarrow>
      if pl1_w \<le> 0 \<or> pl2_w \<le> 0 \<or> pl1_w > 5000 \<or> pl2_w > 5000 then (- 1, m)
      else
      (case prompt_int L m of
        (None, m) \<Rightarrow> (0, m)
      | (Some target, m) \<Rightarrow>
      if target < 1 \<or> target > 3 then (- 1, m)
      else
      (case cli_build_units uw pl1_w pl2_w of
        None \<Rightarrow> (- 1, m)
      | Some (pl1_units, pl2_units) \<Rightarrow>
      (case set_limits_msr target pl1_units pl2_units m of
        (False, m) \<Rightarrow> (- 1, m)
      | (True, m) \<Rightarrow>
          set_limits_powercap pl1_w pl2_w (set_limits_mmio target pl1_units pl2_units m))))))"

text \<open>\<^verbatim>\<open>sync_limits\<close>: the part after the direction is read, and the whole.\<close>

definition sync_limits_dir :: "int \<Rightarrow> machine \<Rightarrow> int \<times> machine" where
  "sync_limits_dir dir m =
     (if dir = 1 then
        (case rdmsr m MSR_PKG_POWER_LIMIT of
           None \<Rightarrow> (- 1, m)
         | Some msr_val \<Rightarrow>
             let (yes, m) = confirm m
             in if yes then (0, m\<lparr>mmio_mem := wr64 (mmio_mem m) PL_OFF msr_val\<rparr>) else (0, m))
      else if dir = 2 then
        (let mmio_val = rd64 (mmio_mem m) PL_OFF;
             (yes, m) = confirm m
         in if yes then
              (case wrmsr MSR_PKG_POWER_LIMIT mmio_val m of
                 (False, m) \<Rightarrow> (- 1, m)
               | (True, m) \<Rightarrow> (0, m))
            else (0, m))
      else (- 1, m))"

definition sync_limits :: "libc \<Rightarrow> machine \<Rightarrow> int \<times> machine" where
  "sync_limits L m =
     (case prompt_int L m of
        (None, m) \<Rightarrow> (0, m)
      | (Some dir, m) \<Rightarrow> sync_limits_dir dir m)"

text \<open>A machine and a library for concrete runs of the tool.\<close>

definition demo_libc :: libc where
  "demo_libc =
     \<lparr> strtol = (\<lambda>s. if s = ''1'' then (1, 1) else if s = ''2'' then (2, 1)
                      else if s = ''3'' then (3, 1) else (0, 0)),
       strtod = (\<lambda>s. if s = ''55'' then (55, 2) else if s = ''157'' then (157, 3) else (0, 0)) \<rparr>"

definition demo_cli :: "string \<Rightarrow> machine" where
  "demo_cli input =
     \<lparr> msr_regs = (\<lambda>reg. if reg = 0x610 then Some 0x00DD8000004281B8
                          else if reg = 0x606 then Some 0x000A0E03 else None),
       msr_writable = (\<lambda>reg. reg = 0x610),
       mmio_mem = (\<lambda>off. if off = 0x59A0 then 0x00DF8168 else if off = 0x59A4 then 0x004280A0 else 0),
       sys_files = (\<lambda>path. None),
       stdin = input \<rparr>"

section \<open>A small machine to run the workflow on\<close>

text \<open>
  A world for concrete runs: the two registers. Its helper prints the state as the window
  expects it and stores what it is told to write; the commands listed in \<open>fails\<close> exit
  with status 1 instead, and the operator answers No to the boxes whose titles are listed
  in \<open>nos\<close>.
\<close>

record demo_world =
  hw_msr :: u64
  hw_mmio :: u64

fun hex_value :: "char \<Rightarrow> string \<Rightarrow> nat option" where
  "hex_value c [] = None"
| "hex_value c (d # ds) = (if c = d then Some 0 else map_option Suc (hex_value c ds))"

fun parse_hex_digits :: "u64 \<Rightarrow> string \<Rightarrow> u64 option" where
  "parse_hex_digits acc [] = Some acc"
| "parse_hex_digits acc (c # cs) =
     (case hex_value c ''0123456789abcdef'' of
        None \<Rightarrow> None
      | Some d \<Rightarrow> parse_hex_digits (push_bit 4 acc OR of_nat d) cs)"

definition demo_toULongLong :: "string \<Rightarrow> u64 option" where
  "demo_toULongLong s =
     (case s of
        c0 # c1 # d # ds \<Rightarrow>
          if c0 = CHR ''0'' \<and> c1 = CHR ''x'' then parse_hex_digits 0 (d # ds) else None
      | _ \<Rightarrow> None)"

definition demo_toInt :: "string \<Rightarrow> int option" where
  "demo_toInt s = (if s = ''0'' then Some 0 else if s = ''1'' then Some 1
                   else if s = ''3'' then Some 3 else None)"

definition demo_toDouble :: "string \<Rightarrow> real option" where
  "demo_toDouble s = (if s = ''0.125'' then Some (1 / 8) else None)"

definition demo_exit :: "int \<Rightarrow> string \<Rightarrow> string \<Rightarrow> proc_result" where
  "demo_exit code out err =
     \<lparr> finished = True, normal_exit = True, exit_code = code, std_out = out, std_err = err \<rparr>"

definition demo_state_text :: "demo_world \<Rightarrow> string" where
  "demo_state_text w =
     ''POWER_UNIT=3'' @ [CHR 0x0A] @ ''UNIT_WATTS=0.125'' @ [CHR 0x0A]
     @ ''MSR='' @ hex64 (hw_msr w) @ [CHR 0x0A] @ ''MMIO='' @ hex64 (hw_mmio w) @ [CHR 0x0A]"

definition demo_store :: "string \<Rightarrow> string list \<Rightarrow> demo_world \<Rightarrow> demo_world" where
  "demo_store cmd rest w =
     (case rest of
        [v] \<Rightarrow> (case demo_toULongLong v of
                   None \<Rightarrow> w
                 | Some x \<Rightarrow> if cmd = ''--write-msr'' then w\<lparr>hw_msr := x\<rparr>
                             else if cmd = ''--write-mmio'' then w\<lparr>hw_mmio := x\<rparr>
                             else w)
      | _ \<Rightarrow> w)"

definition demo_pkexec :: "string list \<Rightarrow> string list \<Rightarrow> demo_world \<Rightarrow> proc_result \<times> demo_world" where
  "demo_pkexec fails args w =
     (case args of
        [] \<Rightarrow> (demo_exit 2 [] ''usage'', w)
      | cmd # rest \<Rightarrow>
          if List.member fails cmd then (demo_exit 1 [] ''denied'', w)
          else if cmd = ''--read'' then (demo_exit 0 (demo_state_text w) [], w)
          else (demo_exit 0 [] [], demo_store cmd rest w))"

definition demo_platform :: "string list \<Rightarrow> string list \<Rightarrow> demo_world platform" where
  "demo_platform fails nos =
     \<lparr> pkexec = demo_pkexec fails,
       message_box = (\<lambda>title detail w. (\<not> List.member nos title, w)),
       toInt = demo_toInt,
       toDouble = demo_toDouble,
       toULongLong = demo_toULongLong,
       arg_f = (\<lambda>x prec. ''#''),
       spin_value = (\<lambda>x. max 1 (min 5000 x)) \<rparr>"

definition demo_window :: "demo_world \<Rightarrow> demo_world window" where
  "demo_window w =
     \<lparr> world = w, events = [], pl1_spin = 55, pl2_spin = 157, powercap_check = True,
       win_power_unit = 0, win_unit_watts = 0, unit_label = [],
       msr_raw = [], msr_pl1 = [], msr_pl2 = [], mmio_raw = [], mmio_pl1 = [], mmio_pl2 = [],
       did_init_limits = False \<rparr>"

definition demo_machine :: demo_world where
  "demo_machine = \<lparr> hw_msr = 0x00DD8000004281B8, hw_mmio = 0x004280A000DF8168 \<rparr>"

text \<open>What the window reads from that machine, and the window right after the read.\<close>

definition demo_state :: ReadState where
  "demo_state =
     \<lparr> power_unit = 3, unit_watts = 1 / 8, msr = 0x00DD8000004281B8, mmio = 0x004280A000DF8168,
       core_type_supported = False, p_cpus = [], e_cpus = [], u_cpus = [],
       p_ratio_valid = False, e_ratio_valid = False, p_ratio = 0, e_ratio = 0,
       p_ratio_cur_valid = False, e_ratio_cur_valid = False, p_ratio_cur = 0, e_ratio_cur = 0,
       core_uv_valid = False, core_uv_mv = 0, core_uv_raw = [] \<rparr>"

definition demo_window_read :: "demo_world window" where
  "demo_window_read = (demo_window demo_machine)\<lparr>events := [HelperCall [''--read'']]\<rparr>"

text \<open>
  A response with the four required keys, a voltage offset flagged valid with no value,
  and a key the window does not know.
\<close>

definition demo_response :: string where
  "demo_response =
     ''POWER_UNIT=3'' @ [CHR 0x0A] @ ''UNIT_WATTS=0.125'' @ [CHR 0x0A]
     @ ''MSR=0x00dd8000004281b8'' @ [CHR 0x0A] @ ''MMIO=0x004280a000df8168'' @ [CHR 0x0A]
     @ ''CORE_UV_VALID=1'' @ [CHR 0x0A] @ ''BOGUS=zzz'' @ [CHR 0x0A]"

section \<open>Facts about words\<close>

lemma mask15_u16: "(0x7FFF :: u16) = mask 15"
  by (simp add: mask_eq_exp_minus_1)

lemma mask15_u32: "(0x7FFF :: u32) = mask 15"
  by (simp add: mask_eq_exp_minus_1)

lemma mask15_u64: "(0x7FFF :: u64) = mask 15"
  by (simp add: mask_eq_exp_minus_1)

lemma mask32_u64: "(0xffffffff :: u64) = mask 32"
  by (simp add: mask_eq_exp_minus_1)

lemma power_fields_u64: "(0x7FFF00007FFF :: u64) = push_bit 32 (mask 15) OR mask 15"
  by (simp add: mask_eq_exp_minus_1)

lemma apply_pl_units_eq_set: "apply_pl_units cur a b = set_pl_units cur a b"
  by (simp add: apply_pl_units_def set_pl_units_def)

lemma pl_write_set_target_eq_set: "pl_write_set_target cur a b = set_pl_units cur a b"
  by (simp add: pl_write_set_target_def set_pl_units_def replace_power_field_def)

lemma set_pl_units_opaque:
  "set_pl_units raw a b AND NOT 0x7FFF00007FFF = raw AND NOT 0x7FFF00007FFF"
  unfolding set_pl_units_def Let_def mask15_u32 mask32_u64 power_fields_u64
  by (rule bit_eqI) (auto simp add: bit_simps)

lemma set_pl_units_low:
  "ucast (set_pl_units raw a b AND 0x7FFF) = a AND 0x7FFF"
  unfolding set_pl_units_def Let_def mask15_u32 mask32_u64 mask15_u64 mask15_u16
  by (rule bit_eqI) (auto simp add: bit_simps)

lemma set_pl_units_high:
  "ucast (drop_bit 32 (set_pl_units raw a b) AND 0x7FFF) = b AND 0x7FFF"
  unfolding set_pl_units_def Let_def mask15_u32 mask32_u64 mask15_u64 mask15_u16
  by (rule bit_eqI) (auto simp add: bit_simps)

lemma replace_power_field_opaque:
  "replace_power_field cur u AND NOT 0x7FFF = cur AND NOT 0x7FFF"
  unfolding replace_power_field_def mask15_u32
  by (rule bit_eqI) (auto simp add: bit_simps)

section \<open>Rounding to a double\<close>

lemma rint_error: "\<bar>of_int (rint x) - x\<bar> \<le> 1 / 2"
  unfolding rint_def Let_def by (auto; linarith)

lemma rint_of_int: "rint (of_int k) = k"
  by (simp add: rint_def)

lemma llround_near:
  assumes "\<bar>p - of_int n\<bar> < 1 / 2"
  shows "llround p = n"
proof (cases "0 \<le> p")
  case True
  from assms have "of_int n \<le> p + 1 / 2" "p + 1 / 2 < of_int n + 1" by linarith+
  then have "\<lfloor>p + 1 / 2\<rfloor> = n" by (rule floor_unique)
  with True show ?thesis by (simp add: llround_def)
next
  case False
  from assms have "of_int (- n) \<le> - p + 1 / 2" "- p + 1 / 2 < of_int (- n) + 1"
    by (simp_all, linarith+)
  then have "\<lfloor>- p + 1 / 2\<rfloor> = - n" by (rule floor_unique)
  with False show ?thesis by (simp add: llround_def)
qed

lemma llround_error: "\<bar>of_int (llround p) - p\<bar> \<le> 1 / 2"
proof (cases "0 \<le> p")
  case True
  have "of_int \<lfloor>p + 1 / 2\<rfloor> \<le> p + 1 / 2" "p + 1 / 2 < of_int \<lfloor>p + 1 / 2\<rfloor> + 1"
    by linarith+
  then have "\<bar>of_int \<lfloor>p + 1 / 2\<rfloor> - p\<bar> \<le> 1 / 2" by linarith
  with True show ?thesis by (simp add: llround_def)
next
  case False
  have "of_int \<lfloor>- p + 1 / 2\<rfloor> \<le> - p + 1 / 2" "- p + 1 / 2 < of_int \<lfloor>- p + 1 / 2\<rfloor> + 1"
    by linarith+
  then have "\<bar>- of_int \<lfloor>- p + 1 / 2\<rfloor> - p\<bar> \<le> 1 / 2" by linarith
  with False show ?thesis by (simp add: llround_def)
qed

lemma pow2_diff: "(2::real) powi (e - int n) = 2 powi e / 2 ^ n"
  by (simp add: power_int_diff)

lemma pow2_pos: "0 < (2::real) powi k"
  by (simp add: zero_less_power_int)

lemma pow2_add: "(2::real) powi (a + b) = 2 powi a * 2 powi b"
  by (simp add: power_int_add)

lemma pow2_mono: "a \<le> b \<Longrightarrow> (2::real) powi a \<le> 2 powi b"
  by (simp add: power_int_increasing)

lemma pow2_less: "(2::real) powi a < 2 powi b \<Longrightarrow> a < b"
  using pow2_mono [of b a] by (cases "a < b") auto

lemma expo_search_bounds:
  "2 powi lo \<le> a \<Longrightarrow> a < 2 powi (lo + 2 ^ n) \<Longrightarrow>
   2 powi (expo_search n lo a) \<le> a \<and> a < 2 powi (expo_search n lo a + 1)"
proof (induction n arbitrary: lo)
  case 0
  then show ?case by simp
next
  case (Suc n)
  have e: "lo + 2 ^ Suc n = lo + 2 ^ n + (2 ^ n :: int)" by simp
  show ?case
  proof (cases "2 powi (lo + 2 ^ n) \<le> a")
    case True
    from Suc.IH [OF True] Suc.prems(2) True show ?thesis unfolding e by simp
  next
    case False
    then have "a < 2 powi (lo + 2 ^ n)" by simp
    from Suc.IH [OF Suc.prems(1) this] False show ?thesis by simp
  qed
qed

lemma expo_search_below: "a < 2 powi lo \<Longrightarrow> expo_search n lo a = lo"
proof (induction n)
  case 0
  then show ?case by simp
next
  case (Suc n)
  have "(2::real) powi lo \<le> 2 powi (lo + 2 ^ n)" by (intro pow2_mono) simp
  with Suc show ?case by simp
qed

lemma expo_normal:
  assumes "2 powi (- 1022) \<le> a" "a < 2 powi 1026"
  shows "2 powi (expo a) \<le> a" "a < 2 powi (expo a + 1)"
  using expo_search_bounds [of "- 1022" a 11] assms unfolding expo_def by simp_all

lemma expo_subnormal: "a < 2 powi (- 1022) \<Longrightarrow> expo a = - 1022"
  unfolding expo_def by (rule expo_search_below)

lemma binary64_step:
  "\<bar>binary64 x - x\<bar> \<le> 2 powi (expo \<bar>x\<bar> - 53)"
proof -
  define s :: real where "s = 2 powi (expo \<bar>x\<bar> - 52)"
  have s: "0 < s" unfolding s_def by (rule pow2_pos)
  have "expo \<bar>x\<bar> - 53 = expo \<bar>x\<bar> - 52 - int 1" by simp
  then have h: "(2::real) powi (expo \<bar>x\<bar> - 53) = s / 2"
    unfolding s_def by (simp only: pow2_diff power_one_right)
  have "binary64 x - x = (of_int (rint (x / s)) - x / s) * s"
    using s by (simp add: binary64_def s_def [symmetric] Let_def algebra_simps)
  then have "\<bar>binary64 x - x\<bar> = \<bar>of_int (rint (x / s)) - x / s\<bar> * s"
    using s by (simp add: abs_mult)
  also have "\<dots> \<le> 1 / 2 * s" using rint_error [of "x / s"] s by (intro mult_right_mono) simp_all
  finally show ?thesis unfolding h by simp
qed

lemma binary64_error:
  assumes "2 powi (- 1022) \<le> \<bar>x\<bar>" "\<bar>x\<bar> < 2 powi 1026"
  shows "\<bar>binary64 x - x\<bar> \<le> \<bar>x\<bar> / 2 ^ 53"
proof -
  have "(2::real) powi (expo \<bar>x\<bar> - 53) = 2 powi (expo \<bar>x\<bar>) / 2 ^ 53"
    using pow2_diff [of "expo \<bar>x\<bar>" 53] by simp
  also have "\<dots> \<le> \<bar>x\<bar> / 2 ^ 53" using expo_normal(1) [OF assms] by (simp add: divide_right_mono)
  finally show ?thesis using binary64_step [of x] by simp
qed

lemma binary64_subnormal:
  assumes "\<bar>x\<bar> < 2 powi (- 1022)"
  shows "\<bar>binary64 x - x\<bar> \<le> 2 powi (- 1075)"
  using binary64_step [of x] unfolding expo_subnormal [OF assms] by simp

lemma binary64_int:
  assumes "\<bar>n\<bar> < 2 ^ 53"
  shows "binary64 (of_int n) = of_int n"
proof (cases "n = 0")
  case True
  then show ?thesis by (simp add: binary64_def rint_def)
next
  case False
  define a :: real where "a = \<bar>of_int n\<bar>"
  define e where "e = expo a"
  from False have a1: "1 \<le> a" unfolding a_def by (simp flip: of_int_abs)
  from assms have a2: "a < 2 ^ 53" unfolding a_def
    by (metis of_int_abs of_int_less_numeral_power_cancel_iff)
  have "(2::real) powi (- 1022) \<le> 2 powi 0" by (intro pow2_mono) simp
  with a1 have l: "2 powi (- 1022) \<le> a" by simp
  have "(2::real) ^ 53 \<le> 2 powi 1026" using pow2_mono [of 53 1026] by simp
  with a2 have u: "a < 2 powi 1026" by simp
  note b = expo_normal [OF l u, folded e_def]
  from b(2) a1 have "(2::real) powi 0 < 2 powi (e + 1)" by simp
  then have e0: "0 \<le> e" using pow2_less [of 0 "e + 1"] by simp
  from b(1) a2 have "(2::real) powi e < 2 powi 53" by simp
  then have e1: "e \<le> 52" using pow2_less [of e 53] by simp
  define k where "k = nat (52 - e)"
  have s: "(2::real) powi (e - 52) = 1 / 2 ^ k"
    using e1 unfolding k_def by (simp add: power_int_def field_simps)
  have "of_int n / (1 / 2 ^ k) = (of_int (n * 2 ^ k) :: real)" by simp
  then have "rint (of_int n / (1 / 2 ^ k)) = n * 2 ^ k" by (simp only: rint_of_int)
  then show ?thesis
    unfolding binary64_def Let_def a_def [symmetric] e_def [symmetric] s by simp
qed


lemma expo_eq:
  assumes "2 powi e \<le> a" "a < 2 powi (e + 1)" "- 1022 \<le> e" "e \<le> 1024"
  shows "expo a = e"
proof -
  from assms(3) have "(2::real) powi (- 1022) \<le> 2 powi e" by (rule pow2_mono)
  with assms(1) have l: "2 powi (- 1022) \<le> a" by simp
  from assms(4) have "(2::real) powi (e + 1) \<le> 2 powi 1026" by (intro pow2_mono) simp
  with assms(2) have u: "a < 2 powi 1026" by simp
  note b = expo_normal [OF l u]
  from b(1) assms(2) have "(2::real) powi (expo a) < 2 powi (e + 1)" by simp
  then have 1: "expo a < e + 1" by (rule pow2_less)
  from b(2) assms(1) have "(2::real) powi e < 2 powi (expo a + 1)" by simp
  then have 2: "e < expo a + 1" by (rule pow2_less)
  from 1 2 show ?thesis by simp
qed

lemma binary64_eval:
  assumes "2 powi e \<le> \<bar>x\<bar>" "\<bar>x\<bar> < 2 powi (e + 1)" "- 1022 \<le> e" "e \<le> 1024"
  shows "binary64 x = of_int (rint (x / 2 powi (e - 52))) * 2 powi (e - 52)"
  unfolding binary64_def Let_def expo_eq [OF assms] ..

lemma llround_of_int: "llround (of_int n) = n"
  by (rule llround_near) simp

lemma llround_ddiv_exact:
  assumes "a = of_int n * b" "b \<noteq> 0" "\<bar>n\<bar> < 2 ^ 53"
  shows "llround (ddiv a b) = n"
proof -
  from assms(1,2) have "a / b = of_int n" by simp
  then show ?thesis unfolding ddiv_def by (simp add: binary64_int [OF assms(3)] llround_of_int)
qed

section \<open>The codec's properties\<close>

text \<open>
  C1. Encoding leaves every bit outside the two 15-bit power fields as it was in the raw
  value: for every raw value and all unit values, masking the result with the complement
  of \<open>0x7FFF00007FFF\<close> gives the raw value masked the same way. This holds for
  \<^const>\<open>apply_pl_units\<close>, for \<^const>\<open>set_pl_units\<close> and for the standalone writer built on
  \<^const>\<open>replace_power_field\<close>, which keeps the other bits of each half.
\<close>

theorem encode_preserves_opaque_bits:
  "apply_pl_units raw a b AND NOT 0x7FFF00007FFF = raw AND NOT 0x7FFF00007FFF
   \<and> set_pl_units raw a b AND NOT 0x7FFF00007FFF = raw AND NOT 0x7FFF00007FFF
   \<and> pl_write_set_target raw a b AND NOT 0x7FFF00007FFF = raw AND NOT 0x7FFF00007FFF
   \<and> replace_power_field cur a AND NOT 0x7FFF = cur AND NOT 0x7FFF"
  by (simp only: apply_pl_units_eq_set pl_write_set_target_eq_set set_pl_units_opaque
        replace_power_field_opaque simp_thms)

text \<open>
  C2. Decoding an encoded value gives the masked inputs: bits 14:0 of the low word are
  \<open>a AND 0x7FFF\<close> and bits 14:0 of the high word are \<open>b AND 0x7FFF\<close>, whatever the raw
  value was.
\<close>

theorem decode_encode_roundtrip:
  "print_pl_units (apply_pl_units raw a b) = (a AND 0x7FFF, b AND 0x7FFF)
   \<and> print_pl_units (set_pl_units raw a b) = (a AND 0x7FFF, b AND 0x7FFF)"
  by (simp only: apply_pl_units_eq_set print_pl_units_def set_pl_units_low set_pl_units_high
        simp_thms)

section \<open>MMIO base resolution\<close>

lemma enable_bit_clear: "(val AND 0x1 = 0) = (\<not> bit (val::u64) 0)"
  by (simp add: and_one_eq bit_0 mod_2_eq_odd)

lemma mask12_u64: "(0xFFF :: u64) = mask 12"
  by (simp add: mask_eq_exp_minus_1)

lemma page_base: "(val::u64) AND NOT 0xFFF = push_bit 12 (drop_bit 12 val)"
  unfolding mask12_u64
  by (rule bit_eqI) (auto simp add: bit_simps)

lemma drop_page_base: "drop_bit 12 ((val::u64) AND NOT 0xFFF) = drop_bit 12 val"
  unfolding mask12_u64
  by (rule bit_eqI) (auto simp add: bit_simps dest: bit_imp_le_length)

lemma page_base_zero: "((val::u64) AND NOT 0xFFF = 0) = (drop_bit 12 val = 0)"
proof
  assume "val AND NOT 0xFFF = 0"
  then have "drop_bit 12 (val AND NOT 0xFFF) = drop_bit 12 (0::u64)" by (rule arg_cong)
  then show "drop_bit 12 val = 0" unfolding drop_page_base by simp
next
  assume "drop_bit 12 val = 0"
  then show "val AND NOT 0xFFF = 0" unfolding page_base by simp
qed

text \<open>
  C5. Once the host bridge's configuration file is found, base resolution reads eight
  bytes at offset \<open>0x48\<close> of it (a file shorter than \<open>0x48 + 8\<close> bytes is a short read,
  and every read error is the result); a value whose bit 0 is clear is rejected as
  disabled; otherwise the base is the value with its low 12 bits cleared, rejected when
  it is zero. For the value \<open>0x00000000FEDC0001\<close> the base is \<open>0xFEDC0000\<close>.
\<close>

theorem mchbar_get_base_resolution:
  assumes "mchbar_find_host_bridge_config fs PATH_MAX = Inr path"
  shows "(config_at fs path = Bytes bs \<longrightarrow>
            mchbar_read_config_u64 fs path 0x48 =
              (if length bs < 0x48 + 8 then Inl (ShortRead (length bs - 0x48))
               else Inr (le_u64 (take 8 (drop 0x48 bs)))))
       \<and> (\<forall>e. mchbar_read_config_u64 fs path 0x48 = Inl e \<longrightarrow> mchbar_get_base fs = Inl e)
       \<and> (\<forall>val. mchbar_read_config_u64 fs path 0x48 = Inr val \<longrightarrow>
            (\<not> bit val 0 \<longrightarrow> mchbar_get_base fs = Inl (MchbarDisabled val)) \<and>
            (bit val 0 \<and> drop_bit 12 val = 0 \<longrightarrow> mchbar_get_base fs = Inl (BaseZero val)) \<and>
            (bit val 0 \<and> drop_bit 12 val \<noteq> 0 \<longrightarrow>
               mchbar_get_base fs = Inr (push_bit 12 (drop_bit 12 val))))
       \<and> (mchbar_read_config_u64 fs path 0x48 = Inr 0x00000000FEDC0001 \<longrightarrow>
            mchbar_get_base fs = Inr 0xFEDC0000)"
proof -
  have rd: "config_at fs path = Bytes bs \<longrightarrow>
            mchbar_read_config_u64 fs path 0x48 =
              (if length bs < 0x48 + 8 then Inl (ShortRead (length bs - 0x48))
               else Inr (le_u64 (take 8 (drop 0x48 bs))))"
    by (auto simp add: mchbar_read_config_u64_def Let_def min_def)
  have err: "\<forall>e. mchbar_read_config_u64 fs path 0x48 = Inl e \<longrightarrow> mchbar_get_base fs = Inl e"
    using assms by (simp add: mchbar_get_base_def)
  have ok: "mchbar_read_config_u64 fs path 0x48 = Inr val \<Longrightarrow>
      mchbar_get_base fs =
        (if \<not> bit val 0 then Inl (MchbarDisabled val)
         else if drop_bit 12 val = 0 then Inl (BaseZero val)
         else Inr (push_bit 12 (drop_bit 12 val)))" for val
    using assms unfolding mchbar_get_base_def Let_def enable_bit_clear page_base_zero
    unfolding page_base by simp
  have ex: "mchbar_read_config_u64 fs path 0x48 = Inr 0x00000000FEDC0001 \<longrightarrow>
            mchbar_get_base fs = Inr 0xFEDC0000"
    using assms by (simp add: mchbar_get_base_def Let_def)
  from rd err ok ex show ?thesis by simp
qed

theorem mchbar_get_base_resolution_witness:
  "mchbar_find_host_bridge_config
     (demo_sysfs (replicate 0x48 0 @ [0x01, 0x00, 0xDC, 0xFE, 0, 0, 0, 0])) PATH_MAX
     = Inr ''/sys/bus/pci/devices/0000:00:00.0/config''
   \<and> mchbar_read_config_u64 (demo_sysfs (replicate 0x48 0 @ [0x01, 0x00, 0xDC, 0xFE, 0, 0, 0, 0]))
        ''/sys/bus/pci/devices/0000:00:00.0/config'' 0x48 = Inr 0x00000000FEDC0001
   \<and> mchbar_get_base (demo_sysfs (replicate 0x48 0 @ [0x01, 0x00, 0xDC, 0xFE, 0, 0, 0, 0]))
       = Inr 0xFEDC0000"
proof -
  let ?fs = "demo_sysfs (replicate 0x48 0 @ [0x01, 0x00, 0xDC, 0xFE, 0, 0, 0, 0])"
  have f: "mchbar_find_host_bridge_config ?fs PATH_MAX
             = Inr ''/sys/bus/pci/devices/0000:00:00.0/config''"
    by (simp add: mchbar_find_host_bridge_config_def mchbar_is_intel_host_bridge_def
          demo_sysfs_def snprintf_path_def PATH_MAX_def)
  have r: "mchbar_read_config_u64 ?fs ''/sys/bus/pci/devices/0000:00:00.0/config'' 0x48
             = Inr 0x00000000FEDC0001"
    by (simp add: mchbar_read_config_u64_def demo_sysfs_def)
  from mchbar_get_base_resolution [OF f, of "[]"] r f show ?thesis by simp
qed

section \<open>Watts to units: range\<close>

lemma demo_units:
  "llround (ddiv 55 (1 / 8)) = 440" "llround (ddiv 157 (1 / 8)) = 1256"
  "llround (ddiv 5000 (1 / 8)) = 40000" "llround (ddiv 4100 (1 / 16)) = 65600"
  "llround (ddiv (- 1) 1) = - 1"
  by (rule llround_ddiv_exact; simp)+

lemma llround_dmul_exact:
  assumes "a * b = of_int n" "\<bar>n\<bar> < 2 ^ 53"
  shows "llround (dmul a b) = n"
  unfolding dmul_def assms(1) by (simp add: binary64_int [OF assms(2)] llround_of_int)

lemma demo_microwatts:
  "llround (dmul 55 1000000) = 55000000" "llround (dmul 157 1000000) = 157000000"
  by (rule llround_dmul_exact; simp)+

text \<open>
  The quotient is the rounded one: with the double nearest to 0.1 as the unit, 3276.75 W
  gives the double 32767.5 and so 32768 units, where the exact quotient would have given
  32767.
\<close>

lemma double_tenth: "binary64 (1 / 10) = 3602879701896397 / 36028797018963968"
  by (subst binary64_eval [of "- 4"]) (simp_all add: rint_def)

lemma tenth_units:
  "llround (ddiv (13107 / 4) (binary64 (1 / 10))) = 32768"
  "llround (ddiv 157 (binary64 (1 / 10))) = 1570"
  "llround ((13107 / 4) / binary64 (1 / 10)) = 32767"
proof -
  have a: "ddiv (13107 / 4) (binary64 (1 / 10)) = 65535 / 2"
    unfolding ddiv_def double_tenth by (subst binary64_eval [of 14]) (simp_all add: rint_def)
  show "llround (ddiv (13107 / 4) (binary64 (1 / 10))) = 32768"
    unfolding a by (simp add: llround_def)
  have b: "ddiv 157 (binary64 (1 / 10)) = 1570"
    unfolding ddiv_def double_tenth by (subst binary64_eval [of 10]) (simp_all add: rint_def)
  show "llround (ddiv 157 (binary64 (1 / 10))) = 1570"
    unfolding b by (simp add: llround_def)
  show "llround ((13107 / 4) / binary64 (1 / 10)) = 32767"
    unfolding double_tenth by (simp add: llround_def)
qed

lemma u64_of_llong:
  assumes "- (2 ^ 63) \<le> r" "r < 2 ^ 63"
  shows "uint (word_of_int r :: u64) = (if 0 \<le> r then r else r + 2 ^ 64)"
proof (cases "0 \<le> r")
  case True
  with assms show ?thesis by (simp add: uint_word_of_int take_bit_eq_mod)
next
  case False
  with assms have "(r + 2 ^ 64) mod 2 ^ 64 = r + 2 ^ 64"
    by (intro mod_pos_pos_trivial) simp_all
  then have "r mod 2 ^ 64 = r + 2 ^ 64" by simp
  with False show ?thesis by (simp add: uint_word_of_int take_bit_eq_mod)
qed

lemma u64_calc_rejected:
  assumes "- (2 ^ 63) \<le> r" "r < 2 ^ 63"
  shows "((word_of_int r :: u64) = 0 \<or> (word_of_int r :: u64) > 0x7FFF) = (r \<le> 0 \<or> 32767 < r)"
proof -
  have z: "((word_of_int r :: u64) = 0) = (uint (word_of_int r :: u64) = 0)"
    by (simp add: uint_0_iff)
  have g: "((word_of_int r :: u64) > 0x7FFF) = (uint (word_of_int r :: u64) > 32767)"
    by (simp add: word_less_def)
  show ?thesis unfolding z g u64_of_llong [OF assms] using assms by auto
qed

lemma u64_calc_accepted:
  assumes "0 < r" "r \<le> 32767"
  shows "uint (ucast (word_of_int r :: u64) :: u16) = r"
proof -
  from assms have "r mod 2 ^ 64 = r" by (intro mod_pos_pos_trivial) simp_all
  moreover from assms have "take_bit 16 r = r" by (intro take_bit_int_eq_self) simp_all
  ultimately show ?thesis by (simp add: uint_word_of_int unsigned_ucast_eq)
qed

lemma u16_of_int:
  assumes "- (2 ^ 15) \<le> r" "r < 2 ^ 16"
  shows "uint (word_of_int r :: u16) = (if 0 \<le> r then r else r + 2 ^ 16)"
proof (cases "0 \<le> r")
  case True
  with assms show ?thesis by (simp add: uint_word_of_int take_bit_eq_mod)
next
  case False
  with assms have "(r + 2 ^ 16) mod 2 ^ 16 = r + 2 ^ 16"
    by (intro mod_pos_pos_trivial) simp_all
  then have "r mod 2 ^ 16 = r + 2 ^ 16" by simp
  with False show ?thesis by (simp add: uint_word_of_int take_bit_eq_mod)
qed

lemma u16_units_rejected:
  assumes "- (2 ^ 15) \<le> r" "r < 2 ^ 16"
  shows "((word_of_int r :: u16) = 0 \<or> (word_of_int r :: u16) > 0x7FFF) = (r \<le> 0 \<or> 32767 < r)"
proof -
  have z: "((word_of_int r :: u16) = 0) = (uint (word_of_int r :: u16) = 0)"
    by (simp add: uint_0_iff)
  have g: "((word_of_int r :: u16) > 0x7FFF) = (uint (word_of_int r :: u16) > 32767)"
    by (simp add: word_less_def)
  show ?thesis unfolding z g u16_of_int [OF assms] using assms by auto
qed

lemma build_units_None:
  assumes "0 < uw"
      and "- (2 ^ 63) \<le> llround (ddiv (pl1_spin g) uw)" "llround (ddiv (pl1_spin g) uw) < 2 ^ 63"
      and "- (2 ^ 63) \<le> llround (ddiv (pl2_spin g) uw)" "llround (ddiv (pl2_spin g) uw) < 2 ^ 63"
  shows "(fst (build_units uw g) = None) =
         (llround (ddiv (pl1_spin g) uw) \<le> 0 \<or> 32767 < llround (ddiv (pl1_spin g) uw)
          \<or> llround (ddiv (pl2_spin g) uw) \<le> 0 \<or> 32767 < llround (ddiv (pl2_spin g) uw))"
proof -
  have "(fst (build_units uw g) = None) =
        (((word_of_int (llround (ddiv (pl1_spin g) uw)) :: u64) = 0
           \<or> (word_of_int (llround (ddiv (pl1_spin g) uw)) :: u64) > 0x7FFF)
         \<or> ((word_of_int (llround (ddiv (pl2_spin g) uw)) :: u64) = 0
           \<or> (word_of_int (llround (ddiv (pl2_spin g) uw)) :: u64) > 0x7FFF))"
    using assms(1) by (auto simp add: build_units_def Let_def)
  then show ?thesis
    unfolding u64_calc_rejected [OF assms(2,3)] u64_calc_rejected [OF assms(4,5)] by blast
qed

lemma build_units_Some:
  assumes "fst (build_units uw g) = Some (a, b)"
      and "- (2 ^ 63) \<le> llround (ddiv (pl1_spin g) uw)" "llround (ddiv (pl1_spin g) uw) < 2 ^ 63"
      and "- (2 ^ 63) \<le> llround (ddiv (pl2_spin g) uw)" "llround (ddiv (pl2_spin g) uw) < 2 ^ 63"
  shows "uint a = llround (ddiv (pl1_spin g) uw) \<and> uint b = llround (ddiv (pl2_spin g) uw)"
proof -
  let ?c1 = "word_of_int (llround (ddiv (pl1_spin g) uw)) :: u64"
  let ?c2 = "word_of_int (llround (ddiv (pl2_spin g) uw)) :: u64"
  from assms(1) have ok: "\<not> (?c1 = 0 \<or> ?c1 > 0x7FFF)" "\<not> (?c2 = 0 \<or> ?c2 > 0x7FFF)"
    and ab: "a = ucast ?c1" "b = ucast ?c2"
    by (auto simp add: build_units_def Let_def split: if_splits)
  from ok(1) have r1: "0 < llround (ddiv (pl1_spin g) uw)" "llround (ddiv (pl1_spin g) uw) \<le> 32767"
    unfolding u64_calc_rejected [OF assms(2,3)] by auto
  from ok(2) have r2: "0 < llround (ddiv (pl2_spin g) uw)" "llround (ddiv (pl2_spin g) uw) \<le> 32767"
    unfolding u64_calc_rejected [OF assms(4,5)] by auto
  show ?thesis unfolding ab using u64_calc_accepted [OF r1] u64_calc_accepted [OF r2] by simp
qed

lemma helper_calls_append: "helper_calls (xs @ ys) = helper_calls xs @ helper_calls ys"
  by (induction xs rule: helper_calls.induct) simp_all

lemma build_units_no_call:
  "helper_calls (events (snd (build_units uw g))) = helper_calls (events g)"
  by (simp add: build_units_def Let_def show_error_def log_message_def helper_calls_append)

lemma cli_build_units_None:
  assumes "- (2 ^ 15) \<le> llround (ddiv w1 uw)" "llround (ddiv w1 uw) < 2 ^ 16"
      and "- (2 ^ 15) \<le> llround (ddiv w2 uw)" "llround (ddiv w2 uw) < 2 ^ 16"
  shows "(cli_build_units uw w1 w2 = None) =
         (llround (ddiv w1 uw) \<le> 0 \<or> 32767 < llround (ddiv w1 uw)
          \<or> llround (ddiv w2 uw) \<le> 0 \<or> 32767 < llround (ddiv w2 uw))"
proof -
  have "(cli_build_units uw w1 w2 = None) =
        (((word_of_int (llround (ddiv w1 uw)) :: u16) = 0
           \<or> (word_of_int (llround (ddiv w1 uw)) :: u16) > 0x7FFF)
         \<or> ((word_of_int (llround (ddiv w2 uw)) :: u16) = 0
           \<or> (word_of_int (llround (ddiv w2 uw)) :: u16) > 0x7FFF))"
    by (auto simp add: cli_build_units_def cli_units_def cli_units_out_of_range_def Let_def)
  then show ?thesis
    unfolding u16_units_rejected [OF assms(1,2)] u16_units_rejected [OF assms(3,4)] by blast
qed

section \<open>What the window's steps record\<close>

lemma calls_of_append: "calls_of c (xs @ ys) = calls_of c xs @ calls_of c ys"
  by (simp add: calls_of_def helper_calls_append)

lemma run_pkexec_events: "events (snd (run_pkexec P args g)) = events g @ [HelperCall args]"
  by (simp add: run_pkexec_def Let_def split: prod.splits)

lemma run_simple_events: "events (snd (run_simple P args g)) = events g @ [HelperCall args]"
proof -
  obtain b out err g' where r: "run_pkexec P args g = ((b, out, err), g')"
    by (metis prod.exhaust)
  with run_pkexec_events [of P args g] have "events g' = events g @ [HelperCall args]" by simp
  with r show ?thesis by (cases b) (simp_all add: run_simple_def)
qed

lemma read_state_events: "events (snd (read_state P g)) = events g @ [HelperCall [''--read'']]"
proof -
  obtain b out err g' where r: "run_pkexec P [''--read''] g = ((b, out, err), g')"
    by (metis prod.exhaust)
  with run_pkexec_events [of P "[''--read'']" g] have "events g' = events g @ [HelperCall [''--read'']]" by simp
  with r show ?thesis by (cases b) (simp_all add: read_state_def)
qed

lemma confirm_action_events:
  "events (snd (confirm_action P t d g)) = events g @ [Question t d (fst (confirm_action P t d g))]"
  by (simp add: confirm_action_def Let_def split: prod.splits)

lemma confirm_action_answer:
  "fst (confirm_action P t d g) = fst (message_box P t d (world g))"
  by (simp add: confirm_action_def Let_def split: prod.splits)

lemma show_error_events: "events (show_error t d g) = events g @ [ErrorBox t d, LogLine (t @ '': '' @ d)]"
  by (simp add: show_error_def log_message_def)

lemma log_message_events: "events (log_message m g) = events g @ [LogLine m]"
  by (simp add: log_message_def)

lemma update_units_events: "events (snd (update_units P st g)) = events g"
  by (simp add: update_units_def)

lemma refresh_calls: "helper_calls (events (refresh P g)) = helper_calls (events g) @ [[''--read'']]"
proof -
  obtain r g1 where r: "read_state P g = (r, g1)" by (metis prod.exhaust)
  with read_state_events [of P g] have e: "events g1 = events g @ [HelperCall [''--read'']]" by simp
  show ?thesis
  proof (cases r)
    case (Inl err)
    with r e show ?thesis by (simp add: refresh_def show_error_events helper_calls_append)
  next
    case (Inr st)
    obtain b g2 where u: "update_units P st g1 = (b, g2)" by (metis prod.exhaust)
    with update_units_events [of P st g1] have "events g2 = events g1" by simp
    with r e Inr u show ?thesis
      by (cases b) (simp_all add: refresh_def show_error_events helper_calls_append
            maybe_init_limits_def update_mmio_def update_msr_def Let_def)
  qed
qed

lemma limits_msr_block_cases:
  assumes "limits_msr_block P t c st u1 u2 g = (b, g')"
  obtains
    (skipped) "t = Mmio" "b" "g' = g"
  | (declined) d where "t \<noteq> Mmio" "c" "\<not> b"
      "\<not> fst (message_box P ''Write MSR?'' d (world g))"
      "helper_calls (events g') = helper_calls (events g)"
  | (failed) d ga err where "t \<noteq> Mmio" "\<not> b"
      "c \<longrightarrow> fst (message_box P ''Write MSR?'' d (world g))"
      "fst (write_msr P (apply_pl_units (msr st) u1 u2) ga) = Some err"
      "helper_calls (events g') = helper_calls (events g)
         @ [[''--write-msr'', hex64 (apply_pl_units (msr st) u1 u2)]]"
      "ErrorBox ''Write MSR failed'' err \<in> set (events g')"
  | (written) d ga where "t \<noteq> Mmio" "b"
      "c \<longrightarrow> fst (message_box P ''Write MSR?'' d (world g))"
      "fst (write_msr P (apply_pl_units (msr st) u1 u2) ga) = None"
      "helper_calls (events g') = helper_calls (events g)
         @ [[''--write-msr'', hex64 (apply_pl_units (msr st) u1 u2)]]"
proof (cases "t = Mmio")
  case True
  with assms have "b" "g' = g" by (simp_all add: limits_msr_block_def)
  with True show ?thesis by (rule skipped)
next
  case False
  then have tt: "t = Msr \<or> t = Both" by (cases t) simp_all
  let ?next = "apply_pl_units (msr st) u1 u2"
  let ?d = "''MSR (0x'' @ ''610'' @ '') new value: '' @ hex64 ?next"
  obtain yes ga where q: "(if c then confirm_action P ''Write MSR?'' ?d g else (True, g)) = (yes, ga)"
    by (metis prod.exhaust)
  have ea: "helper_calls (events ga) = helper_calls (events g)"
    using q confirm_action_events [of P "''Write MSR?''" ?d g]
    by (cases c) (auto simp add: helper_calls_append)
  have ans: "c \<longrightarrow> yes = fst (message_box P ''Write MSR?'' ?d (world g))"
    using q confirm_action_answer [of P "''Write MSR?''" ?d g] by auto
  show ?thesis
  proof (cases yes)
    case no: False
    with q have c: "c" by (cases c) simp_all
    with ans no have "\<not> fst (message_box P ''Write MSR?'' ?d (world g))" by simp
    moreover from assms tt q no have "\<not> b" "g' = ga"
      by (auto simp add: limits_msr_block_def Let_def)
    ultimately show ?thesis using False c ea by (intro declined [of ?d]) simp_all
  next
    case yes: True
    obtain r gb where w: "write_msr P ?next ga = (r, gb)" by (metis prod.exhaust)
    have eb: "events gb = events ga @ [HelperCall [''--write-msr'', hex64 ?next]]"
      using w run_simple_events [of P "[''--write-msr'', hex64 ?next]" ga]
      by (simp add: write_msr_def)
    show ?thesis
    proof (cases r)
      case None
      with assms tt q yes w have "b" "g' = log_message (''Wrote MSR '' @ hex64 ?next) gb"
        by (auto simp add: limits_msr_block_def Let_def)
      with None w ea eb False ans yes show ?thesis
        by (intro written [of ?d ga]) (simp_all add: log_message_events helper_calls_append)
    next
      case (Some err)
      with assms tt q yes w have "\<not> b" "g' = show_error ''Write MSR failed'' err gb"
        by (auto simp add: limits_msr_block_def Let_def)
      with Some w ea eb False ans yes show ?thesis
        by (intro failed [of ?d ga err]) (simp_all add: show_error_events helper_calls_append)
    qed
  qed
qed

lemma limits_mmio_block_cases:
  assumes "limits_mmio_block P t c st u1 u2 g = (b, g')"
  obtains
    (skipped) "t = Msr" "b" "g' = g"
  | (declined) d where "t \<noteq> Msr" "c" "\<not> b"
      "\<not> fst (message_box P ''Write MMIO?'' d (world g))"
      "helper_calls (events g') = helper_calls (events g)"
  | (failed) d ga err where "t \<noteq> Msr" "\<not> b"
      "c \<longrightarrow> fst (message_box P ''Write MMIO?'' d (world g))"
      "fst (write_mmio P (apply_pl_units (mmio st) u1 u2) ga) = Some err"
      "helper_calls (events g') = helper_calls (events g)
         @ [[''--write-mmio'', hex64 (apply_pl_units (mmio st) u1 u2)]]"
      "ErrorBox ''Write MMIO failed'' err \<in> set (events g')"
  | (written) d ga where "t \<noteq> Msr" "b"
      "c \<longrightarrow> fst (message_box P ''Write MMIO?'' d (world g))"
      "fst (write_mmio P (apply_pl_units (mmio st) u1 u2) ga) = None"
      "helper_calls (events g') = helper_calls (events g)
         @ [[''--write-mmio'', hex64 (apply_pl_units (mmio st) u1 u2)]]"
proof (cases "t = Msr")
  case True
  with assms have "b" "g' = g" by (simp_all add: limits_mmio_block_def)
  with True show ?thesis by (rule skipped)
next
  case False
  then have tt: "t = Mmio \<or> t = Both" by (cases t) simp_all
  let ?next = "apply_pl_units (mmio st) u1 u2"
  let ?d = "''MMIO (0x'' @ ''59a0'' @ '') new value: '' @ hex64 ?next"
  obtain yes ga where q: "(if c then confirm_action P ''Write MMIO?'' ?d g else (True, g)) = (yes, ga)"
    by (metis prod.exhaust)
  have ea: "helper_calls (events ga) = helper_calls (events g)"
    using q confirm_action_events [of P "''Write MMIO?''" ?d g]
    by (cases c) (auto simp add: helper_calls_append)
  have ans: "c \<longrightarrow> yes = fst (message_box P ''Write MMIO?'' ?d (world g))"
    using q confirm_action_answer [of P "''Write MMIO?''" ?d g] by auto
  show ?thesis
  proof (cases yes)
    case no: False
    with q have c: "c" by (cases c) simp_all
    with ans no have "\<not> fst (message_box P ''Write MMIO?'' ?d (world g))" by simp
    moreover from assms tt q no have "\<not> b" "g' = ga"
      by (auto simp add: limits_mmio_block_def Let_def)
    ultimately show ?thesis using False c ea by (intro declined [of ?d]) simp_all
  next
    case yes: True
    obtain r gb where w: "write_mmio P ?next ga = (r, gb)" by (metis prod.exhaust)
    have eb: "events gb = events ga @ [HelperCall [''--write-mmio'', hex64 ?next]]"
      using w run_simple_events [of P "[''--write-mmio'', hex64 ?next]" ga]
      by (simp add: write_mmio_def)
    show ?thesis
    proof (cases r)
      case None
      with assms tt q yes w have "b" "g' = log_message (''Wrote MMIO '' @ hex64 ?next) gb"
        by (auto simp add: limits_mmio_block_def Let_def)
      with None w ea eb False ans yes show ?thesis
        by (intro written [of ?d ga]) (simp_all add: log_message_events helper_calls_append)
    next
      case (Some err)
      with assms tt q yes w have "\<not> b" "g' = show_error ''Write MMIO failed'' err gb"
        by (auto simp add: limits_mmio_block_def Let_def)
      with Some w ea eb False ans yes show ?thesis
        by (intro failed [of ?d ga err]) (simp_all add: show_error_events helper_calls_append)
    qed
  qed
qed

lemma limits_powercap_block_cases:
  assumes "limits_powercap_block P c pl1_w pl2_w g = (b, g')"
  obtains
    (skipped) "\<not> powercap_check g" "b" "g' = g"
  | (invalid) "powercap_check g" "\<not> b"
      "helper_calls (events g') = helper_calls (events g)"
  | (declined) d where "powercap_check g" "c" "\<not> b"
      "\<not> fst (message_box P ''Write kernel powercap?'' d (world g))"
      "helper_calls (events g') = helper_calls (events g)"
  | (failed) d ga err where "powercap_check g" "\<not> b"
      "c \<longrightarrow> fst (message_box P ''Write kernel powercap?'' d (world g))"
      "fst (write_powercap P (word_of_int (llround (dmul pl1_w 1000000)))
              (word_of_int (llround (dmul pl2_w 1000000))) ga) = Some err"
      "helper_calls (events g') = helper_calls (events g)
         @ [[''--write-powercap'', dec_nat (unat (word_of_int (llround (dmul pl1_w 1000000)) :: u64)),
             dec_nat (unat (word_of_int (llround (dmul pl2_w 1000000)) :: u64))]]"
      "ErrorBox ''Write powercap failed'' err \<in> set (events g')"
  | (written) d ga where "powercap_check g" "b"
      "c \<longrightarrow> fst (message_box P ''Write kernel powercap?'' d (world g))"
      "fst (write_powercap P (word_of_int (llround (dmul pl1_w 1000000)))
              (word_of_int (llround (dmul pl2_w 1000000))) ga) = None"
      "helper_calls (events g') = helper_calls (events g)
         @ [[''--write-powercap'', dec_nat (unat (word_of_int (llround (dmul pl1_w 1000000)) :: u64)),
             dec_nat (unat (word_of_int (llround (dmul pl2_w 1000000)) :: u64))]]"
proof (cases "powercap_check g")
  case False
  with assms have "b" "g' = g" by (simp_all add: limits_powercap_block_def)
  with False show ?thesis by (rule skipped)
next
  case True
  let ?u1 = "word_of_int (llround (dmul pl1_w 1000000)) :: u64"
  let ?u2 = "word_of_int (llround (dmul pl2_w 1000000)) :: u64"
  show ?thesis
  proof (cases "?u1 = 0 \<or> ?u2 = 0")
    case zero: True
    with assms True have "\<not> b"
      "g' = show_error ''Invalid values'' ''Kernel powercap values must be non-zero.'' g"
      by (auto simp add: limits_powercap_block_def Let_def)
    with True show ?thesis
      by (intro invalid) (simp_all add: show_error_events helper_calls_append)
  next
    case nz: False
    let ?d = "''PL1: '' @ arg_f P pl1_w 2 @ '' W ('' @ dec_nat (unat ?u1)
                @ '' uW)'' @ [CHR 0x0A] @ ''PL2: '' @ arg_f P pl2_w 2 @ '' W (''
                @ dec_nat (unat ?u2) @ '' uW)''"
    obtain yes ga where
      q: "(if c then confirm_action P ''Write kernel powercap?'' ?d g else (True, g)) = (yes, ga)"
      by (metis prod.exhaust)
    have ea: "helper_calls (events ga) = helper_calls (events g)"
      using q confirm_action_events [of P "''Write kernel powercap?''" ?d g]
      by (cases c) (auto simp add: helper_calls_append)
    have ans: "c \<longrightarrow> yes = fst (message_box P ''Write kernel powercap?'' ?d (world g))"
      using q confirm_action_answer [of P "''Write kernel powercap?''" ?d g] by auto
    show ?thesis
    proof (cases yes)
      case no: False
      with q have c: "c" by (cases c) simp_all
      with ans no have "\<not> fst (message_box P ''Write kernel powercap?'' ?d (world g))" by simp
      moreover from assms True nz q no have "\<not> b" "g' = ga"
        by (auto simp add: limits_powercap_block_def Let_def)
      ultimately show ?thesis using True c ea by (intro declined [of ?d]) simp_all
    next
      case yes: True
      obtain r gb where w: "write_powercap P ?u1 ?u2 ga = (r, gb)" by (metis prod.exhaust)
      have eb: "events gb = events ga
                  @ [HelperCall [''--write-powercap'', dec_nat (unat ?u1), dec_nat (unat ?u2)]]"
        using w run_simple_events [of P "[''--write-powercap'', dec_nat (unat ?u1), dec_nat (unat ?u2)]" ga]
        by (simp add: write_powercap_def)
      show ?thesis
      proof (cases r)
        case None
        with assms \<open>powercap_check g\<close> nz q yes w have "b"
          "g' = log_message (''Wrote kernel powercap PL1='' @ arg_f P pl1_w 2
                                   @ ''W PL2='' @ arg_f P pl2_w 2 @ ''W'') gb"
          by (auto simp add: limits_powercap_block_def Let_def)
        with None w ea eb \<open>powercap_check g\<close> ans yes show ?thesis
          by (intro written [of ?d ga]) (simp_all add: log_message_events helper_calls_append)
      next
        case (Some err)
        with assms \<open>powercap_check g\<close> nz q yes w have "\<not> b"
          "g' = show_error ''Write powercap failed'' err gb"
          by (auto simp add: limits_powercap_block_def Let_def)
        with Some w ea eb \<open>powercap_check g\<close> ans yes show ?thesis
          by (intro failed [of ?d ga err]) (simp_all add: show_error_events helper_calls_append)
      qed
    qed
  qed
qed

text \<open>Before the three blocks: either the workflow has stopped after the read, or the blocks run.\<close>

lemma apply_limits_internal_stages:
  assumes "apply_limits_internal P t c rf g = (ok, g')"
  obtains
    (stopped) "\<not> ok" "helper_calls (events g') = helper_calls (events g) @ [[''--read'']]"
  | (reached) st g1 g2 u1 u2 g3 where
      "read_state P g = (Inr st, g1)" "update_units P st g1 = (True, g2)"
      "build_units (unit_watts st) g2 = (Some (u1, u2), g3)"
proof -
  obtain r g1 where rd: "read_state P g = (r, g1)" by (metis prod.exhaust)
  with read_state_events [of P g] have e1: "events g1 = events g @ [HelperCall [''--read'']]"
    by simp
  show ?thesis
  proof (cases r)
    case (Inl err)
    with assms rd have "\<not> ok" "g' = show_error ''Read failed'' err g1"
      by (auto simp add: apply_limits_internal_def)
    with e1 show ?thesis
      by (intro stopped) (simp_all add: show_error_events helper_calls_append)
  next
    case (Inr st)
    obtain b g2 where un: "update_units P st g1 = (b, g2)" by (metis prod.exhaust)
    with update_units_events [of P st g1] have e2: "events g2 = events g1" by simp
    show ?thesis
    proof (cases b)
      case False
      with assms rd Inr un have "\<not> ok"
        "g' = show_error ''Invalid unit'' ''Power unit is unknown or zero.'' g2"
        by (auto simp add: apply_limits_internal_def)
      with e1 e2 show ?thesis
        by (intro stopped) (simp_all add: show_error_events helper_calls_append)
    next
      case True
      obtain x g3 where bu: "build_units (unit_watts st) g2 = (x, g3)" by (metis prod.exhaust)
      with build_units_no_call [of "unit_watts st" g2]
      have e3: "helper_calls (events g3) = helper_calls (events g2)" by simp
      show ?thesis
      proof (cases x)
        case None
        with assms rd Inr un True bu have "\<not> ok" "g' = g3"
          by (auto simp add: apply_limits_internal_def)
        with e1 e2 e3 show ?thesis
          by (intro stopped) (simp_all add: helper_calls_append)
      next
        case (Some u)
        obtain u1 u2 where "u = (u1, u2)" by (cases u)
        with rd Inr un True bu Some show ?thesis by (intro reached [of st g1 g2 u1 u2 g3]) simp_all
      qed
    qed
  qed
qed

lemma apply_limits_internal_blocks:
  assumes "read_state P g = (Inr st, g1)" "update_units P st g1 = (True, g2)"
      and "build_units (unit_watts st) g2 = (Some (u1, u2), g3)"
  shows "apply_limits_internal P t c rf g =
     (case limits_msr_block P t c st u1 u2 g3 of
        (False, g4) \<Rightarrow> (False, g4)
      | (True, g4) \<Rightarrow>
      (case limits_mmio_block P t c st u1 u2 g4 of
        (False, g5) \<Rightarrow> (False, g5)
      | (True, g5) \<Rightarrow>
      (case limits_powercap_block P c (pl1_spin g3) (pl2_spin g3) g5 of
        (False, g6) \<Rightarrow> (False, g6)
      | (True, g6) \<Rightarrow> (True, if rf then refresh P g6 else g6))))"
  using assms by (simp add: apply_limits_internal_def Let_def)

lemma stages_calls:
  assumes "read_state P g = (Inr st, g1)" "update_units P st g1 = (True, g2)"
      and "build_units (unit_watts st) g2 = (Some (u1, u2), g3)"
  shows "helper_calls (events g3) = helper_calls (events g) @ [[''--read'']]"
proof -
  from assms(1) read_state_events [of P g]
  have "events g1 = events g @ [HelperCall [''--read'']]" by simp
  moreover from assms(2) update_units_events [of P st g1] have "events g2 = events g1" by simp
  moreover from assms(3) build_units_no_call [of "unit_watts st" g2]
  have "helper_calls (events g3) = helper_calls (events g2)" by simp
  ultimately show ?thesis by (simp add: helper_calls_append)
qed

lemma limits_msr_block_shape:
  assumes "limits_msr_block P t c st u1 u2 g = (b, g')"
  obtains (shape) M where
    "helper_calls (events g') = helper_calls (events g) @ M"
    "M = [] \<or> M = [[''--write-msr'', hex64 (apply_pl_units (msr st) u1 u2)]]"
    "t = Mmio \<longrightarrow> M = [] \<and> b"
    "b \<and> t \<noteq> Mmio \<longrightarrow> M \<noteq> []"
    "c \<and> t \<noteq> Mmio \<and> (\<forall>d w. \<not> fst (message_box P ''Write MSR?'' d w)) \<longrightarrow> \<not> b \<and> M = []"
    "(c \<longrightarrow> (\<forall>d w. fst (message_box P ''Write MSR?'' d w))) \<and> t \<noteq> Mmio \<longrightarrow> M \<noteq> []"
    "M \<noteq> [] \<and> (\<forall>v ga. fst (write_msr P v ga) \<noteq> None) \<longrightarrow>
       \<not> b \<and> (\<exists>e. ErrorBox ''Write MSR failed'' e \<in> set (events g'))"
    "M \<noteq> [] \<and> (\<forall>v ga. fst (write_msr P v ga) = None) \<longrightarrow> b"
    "(c \<longrightarrow> (\<forall>d w. fst (message_box P ''Write MSR?'' d w)))
       \<and> (\<forall>v ga. fst (write_msr P v ga) = None) \<longrightarrow> b"
  using assms
proof (cases rule: limits_msr_block_cases)
  case skipped
  then show ?thesis by (intro shape [of "[]"]) simp_all
next
  case (declined d)
  then show ?thesis by (intro shape [of "[]"]) auto
next
  case (failed d ga err)
  then show ?thesis
    by (intro shape [of "[[''--write-msr'', hex64 (apply_pl_units (msr st) u1 u2)]]"]) auto
next
  case (written d ga)
  then show ?thesis
    by (intro shape [of "[[''--write-msr'', hex64 (apply_pl_units (msr st) u1 u2)]]"]) auto
qed

lemma limits_mmio_block_shape:
  assumes "limits_mmio_block P t c st u1 u2 g = (b, g')"
  obtains (shape) M where
    "helper_calls (events g') = helper_calls (events g) @ M"
    "M = [] \<or> M = [[''--write-mmio'', hex64 (apply_pl_units (mmio st) u1 u2)]]"
    "t = Msr \<longrightarrow> M = [] \<and> b"
    "b \<and> t \<noteq> Msr \<longrightarrow> M \<noteq> []"
    "c \<and> t \<noteq> Msr \<and> (\<forall>d w. \<not> fst (message_box P ''Write MMIO?'' d w)) \<longrightarrow> \<not> b \<and> M = []"
    "(c \<longrightarrow> (\<forall>d w. fst (message_box P ''Write MMIO?'' d w))) \<and> t \<noteq> Msr \<longrightarrow> M \<noteq> []"
    "M \<noteq> [] \<and> (\<forall>v ga. fst (write_mmio P v ga) \<noteq> None) \<longrightarrow>
       \<not> b \<and> (\<exists>e. ErrorBox ''Write MMIO failed'' e \<in> set (events g'))"
    "M \<noteq> [] \<and> (\<forall>v ga. fst (write_mmio P v ga) = None) \<longrightarrow> b"
    "(c \<longrightarrow> (\<forall>d w. fst (message_box P ''Write MMIO?'' d w)))
       \<and> (\<forall>v ga. fst (write_mmio P v ga) = None) \<longrightarrow> b"
  using assms
proof (cases rule: limits_mmio_block_cases)
  case skipped
  then show ?thesis by (intro shape [of "[]"]) simp_all
next
  case (declined d)
  then show ?thesis by (intro shape [of "[]"]) auto
next
  case (failed d ga err)
  then show ?thesis
    by (intro shape [of "[[''--write-mmio'', hex64 (apply_pl_units (mmio st) u1 u2)]]"]) auto
next
  case (written d ga)
  then show ?thesis
    by (intro shape [of "[[''--write-mmio'', hex64 (apply_pl_units (mmio st) u1 u2)]]"]) auto
qed

lemma limits_powercap_block_shape:
  assumes "limits_powercap_block P c pl1_w pl2_w g = (b, g')"
  obtains (shape) C where
    "helper_calls (events g') = helper_calls (events g) @ C"
    "C = [] \<or> (\<exists>a1 a2. C = [[''--write-powercap'', a1, a2]])"
    "\<not> powercap_check g \<longrightarrow> C = [] \<and> b"
    "b \<and> powercap_check g \<longrightarrow> C \<noteq> []"
    "c \<and> powercap_check g \<and> (\<forall>d w. \<not> fst (message_box P ''Write kernel powercap?'' d w))
       \<longrightarrow> \<not> b \<and> C = []"
  using assms
proof (cases rule: limits_powercap_block_cases)
  case skipped
  then show ?thesis by (intro shape [of "[]"]) simp_all
next
  case invalid
  then show ?thesis by (intro shape [of "[]"]) simp_all
next
  case (declined d)
  then show ?thesis by (intro shape [of "[]"]) auto
next
  case (failed d ga err)
  then show ?thesis
    by (intro shape [of "[[''--write-powercap'',
          dec_nat (unat (word_of_int (llround (dmul pl1_w 1000000)) :: u64)),
          dec_nat (unat (word_of_int (llround (dmul pl2_w 1000000)) :: u64))]]"]) auto
next
  case (written d ga)
  then show ?thesis
    by (intro shape [of "[[''--write-powercap'',
          dec_nat (unat (word_of_int (llround (dmul pl1_w 1000000)) :: u64)),
          dec_nat (unat (word_of_int (llround (dmul pl2_w 1000000)) :: u64))]]"]) auto
qed

lemma apply_limits_internal_result:
  assumes "read_state P g = (Inr st, g1)" "update_units P st g1 = (True, g2)"
      and "build_units (unit_watts st) g2 = (Some (u1, u2), g3)"
      and "limits_msr_block P t c st u1 u2 g3 = (b4, g4)"
      and "limits_mmio_block P t c st u1 u2 g4 = (b5, g5)"
      and "limits_powercap_block P c (pl1_spin g3) (pl2_spin g3) g5 = (b6, g6)"
      and "apply_limits_internal P t c rf g = (ok, g')"
  shows "(\<not> b4 \<and> \<not> ok \<and> g' = g4) \<or> (b4 \<and> \<not> b5 \<and> \<not> ok \<and> g' = g5)
       \<or> (b4 \<and> b5 \<and> \<not> b6 \<and> \<not> ok \<and> g' = g6)
       \<or> (b4 \<and> b5 \<and> b6 \<and> ok \<and> g' = (if rf then refresh P g6 else g6))"
  using assms(4-7) unfolding apply_limits_internal_blocks [OF assms(1-3)]
  by (cases b4; cases b5; cases b6) auto

lemma run_pkexec_powercap: "powercap_check (snd (run_pkexec P args g)) = powercap_check g"
  by (simp add: run_pkexec_def Let_def split: prod.splits)

lemma read_state_powercap: "powercap_check (snd (read_state P g)) = powercap_check g"
proof -
  obtain b out err g' where r: "run_pkexec P [''--read''] g = ((b, out, err), g')"
    by (metis prod.exhaust)
  with run_pkexec_powercap [of P "[''--read'']" g] have "powercap_check g' = powercap_check g" by simp
  with r show ?thesis by (cases b) (simp_all add: read_state_def)
qed

lemma run_simple_powercap: "powercap_check (snd (run_simple P args g)) = powercap_check g"
proof -
  obtain b out err g' where r: "run_pkexec P args g = ((b, out, err), g')"
    by (metis prod.exhaust)
  with run_pkexec_powercap [of P args g] have "powercap_check g' = powercap_check g" by simp
  with r show ?thesis by (cases b) (simp_all add: run_simple_def)
qed

lemma confirm_action_powercap: "powercap_check (snd (confirm_action P t d g)) = powercap_check g"
  by (simp add: confirm_action_def Let_def split: prod.splits)

lemma show_error_powercap: "powercap_check (show_error t d g) = powercap_check g"
  by (simp add: show_error_def log_message_def)

lemma log_message_powercap: "powercap_check (log_message m g) = powercap_check g"
  by (simp add: log_message_def)

lemma update_units_powercap: "powercap_check (snd (update_units P st g)) = powercap_check g"
  by (simp add: update_units_def)

lemma build_units_powercap: "powercap_check (snd (build_units uw g)) = powercap_check g"
  by (simp add: build_units_def Let_def show_error_powercap)

lemma limits_msr_block_powercap:
  "powercap_check (snd (limits_msr_block P t c st u1 u2 g)) = powercap_check g"
proof -
  let ?next = "apply_pl_units (msr st) u1 u2"
  let ?d = "''MSR (0x'' @ ''610'' @ '') new value: '' @ hex64 ?next"
  obtain yes ga where q: "(if c then confirm_action P ''Write MSR?'' ?d g else (True, g)) = (yes, ga)"
    by (metis prod.exhaust)
  have a: "powercap_check ga = powercap_check g"
    using q confirm_action_powercap [of P "''Write MSR?''" ?d g] by (cases c) auto
  obtain r gb where w: "write_msr P ?next ga = (r, gb)" by (metis prod.exhaust)
  have b: "powercap_check gb = powercap_check ga"
    using w run_simple_powercap [of P "[''--write-msr'', hex64 ?next]" ga] by (simp add: write_msr_def)
  show ?thesis using q w a b
    by (cases r) (auto simp add: limits_msr_block_def Let_def show_error_powercap log_message_powercap)
qed

lemma limits_mmio_block_powercap:
  "powercap_check (snd (limits_mmio_block P t c st u1 u2 g)) = powercap_check g"
proof -
  let ?next = "apply_pl_units (mmio st) u1 u2"
  let ?d = "''MMIO (0x'' @ ''59a0'' @ '') new value: '' @ hex64 ?next"
  obtain yes ga where q: "(if c then confirm_action P ''Write MMIO?'' ?d g else (True, g)) = (yes, ga)"
    by (metis prod.exhaust)
  have a: "powercap_check ga = powercap_check g"
    using q confirm_action_powercap [of P "''Write MMIO?''" ?d g] by (cases c) auto
  obtain r gb where w: "write_mmio P ?next ga = (r, gb)" by (metis prod.exhaust)
  have b: "powercap_check gb = powercap_check ga"
    using w run_simple_powercap [of P "[''--write-mmio'', hex64 ?next]" ga] by (simp add: write_mmio_def)
  show ?thesis using q w a b
    by (cases r) (auto simp add: limits_mmio_block_def Let_def show_error_powercap log_message_powercap)
qed

lemma stages_powercap:
  assumes "read_state P g = (Inr st, g1)" "update_units P st g1 = (True, g2)"
      and "build_units (unit_watts st) g2 = (Some (u1, u2), g3)"
      and "limits_msr_block P t c st u1 u2 g3 = (b4, g4)"
      and "limits_mmio_block P t c st u1 u2 g4 = (b5, g5)"
  shows "powercap_check g5 = powercap_check g"
  using assms read_state_powercap [of P g] update_units_powercap [of P st g1]
    build_units_powercap [of "unit_watts st" g2] limits_msr_block_powercap [of P t c st u1 u2 g3]
    limits_mmio_block_powercap [of P t c st u1 u2 g4]
  by simp

lemma apply_limits_internal_shape:
  assumes rd: "read_state P g = (Inr st, g1)" and un: "update_units P st g1 = (True, g2)"
      and bu: "build_units (unit_watts st) g2 = (Some (u1, u2), g3)"
      and res: "apply_limits_internal P t c rf g = (ok, g')"
  obtains (shape) M W C R where
    "helper_calls (events g') = helper_calls (events g) @ [[''--read'']] @ M @ W @ C @ R"
    "M = [] \<or> M = [[''--write-msr'', hex64 (apply_pl_units (msr st) u1 u2)]]"
    "W = [] \<or> W = [[''--write-mmio'', hex64 (apply_pl_units (mmio st) u1 u2)]]"
    "C = [] \<or> (\<exists>a1 a2. C = [[''--write-powercap'', a1, a2]])"
    "R = [] \<or> R = [[''--read'']]"
    "t = Mmio \<longrightarrow> M = []"
    "t = Msr \<longrightarrow> W = []"
    "ok \<longrightarrow> (t \<noteq> Mmio \<longrightarrow> M \<noteq> []) \<and> (t \<noteq> Msr \<longrightarrow> W \<noteq> [])"
    "\<not> ok \<longrightarrow> R = []"
    "M = [] \<and> t \<noteq> Mmio \<longrightarrow> W = [] \<and> C = [] \<and> \<not> ok"
    "W = [] \<and> t \<noteq> Msr \<longrightarrow> C = [] \<and> \<not> ok"
    "c \<and> t \<noteq> Mmio \<and> (\<forall>d w. \<not> fst (message_box P ''Write MSR?'' d w)) \<longrightarrow> M = []"
    "c \<and> t \<noteq> Msr \<and> (\<forall>d w. \<not> fst (message_box P ''Write MMIO?'' d w)) \<longrightarrow> W = []"
    "c \<and> powercap_check g \<and> (\<forall>d w. \<not> fst (message_box P ''Write kernel powercap?'' d w))
       \<longrightarrow> C = [] \<and> \<not> ok"
    "(c \<longrightarrow> (\<forall>d w. fst (message_box P ''Write MSR?'' d w))) \<and> t \<noteq> Mmio \<longrightarrow> M \<noteq> []"
    "(c \<longrightarrow> (\<forall>d w. fst (message_box P ''Write MMIO?'' d w))) \<and> t \<noteq> Msr
       \<and> (t \<noteq> Mmio \<longrightarrow> M \<noteq> [] \<and> (\<forall>v ga. fst (write_msr P v ga) = None)) \<longrightarrow> W \<noteq> []"
    "M \<noteq> [] \<and> (\<forall>v ga. fst (write_msr P v ga) \<noteq> None) \<longrightarrow>
       W = [] \<and> C = [] \<and> \<not> ok \<and> (\<exists>e. ErrorBox ''Write MSR failed'' e \<in> set (events g'))"
    "W \<noteq> [] \<and> (\<forall>v ga. fst (write_mmio P v ga) \<noteq> None) \<longrightarrow>
       C = [] \<and> \<not> ok \<and> (\<exists>e. ErrorBox ''Write MMIO failed'' e \<in> set (events g'))"
    "(c \<longrightarrow> (\<forall>d w. fst (message_box P ''Write MSR?'' d w)))
       \<and> (c \<longrightarrow> (\<forall>d w. fst (message_box P ''Write MMIO?'' d w)))
       \<and> (\<forall>v ga. fst (write_msr P v ga) = None) \<and> (\<forall>v ga. fst (write_mmio P v ga) = None)
       \<and> \<not> powercap_check g \<longrightarrow> ok"
proof -
  obtain b4 g4 where m: "limits_msr_block P t c st u1 u2 g3 = (b4, g4)" by (metis prod.exhaust)
  obtain b5 g5 where o: "limits_mmio_block P t c st u1 u2 g4 = (b5, g5)" by (metis prod.exhaust)
  obtain b6 g6 where p: "limits_powercap_block P c (pl1_spin g3) (pl2_spin g3) g5 = (b6, g6)"
    by (metis prod.exhaust)
  note s3 = stages_calls [OF rd un bu]
  note pc = stages_powercap [OF rd un bu m o]
  define Dm where "Dm \<longleftrightarrow> (\<forall>d w. \<not> fst (message_box P ''Write MSR?'' d w))"
  define Dw where "Dw \<longleftrightarrow> (\<forall>d w. \<not> fst (message_box P ''Write MMIO?'' d w))"
  define Dc where "Dc \<longleftrightarrow> (\<forall>d w. \<not> fst (message_box P ''Write kernel powercap?'' d w))"
  define Am where "Am \<longleftrightarrow> (\<forall>d w. fst (message_box P ''Write MSR?'' d w))"
  define Aw where "Aw \<longleftrightarrow> (\<forall>d w. fst (message_box P ''Write MMIO?'' d w))"
  define Fm where "Fm \<longleftrightarrow> (\<forall>v ga. fst (write_msr P v ga) \<noteq> None)"
  define Fw where "Fw \<longleftrightarrow> (\<forall>v ga. fst (write_mmio P v ga) \<noteq> None)"
  define Sm where "Sm \<longleftrightarrow> (\<forall>v ga. fst (write_msr P v ga) = None)"
  define Sw where "Sw \<longleftrightarrow> (\<forall>v ga. fst (write_mmio P v ga) = None)"
  define Em where "Em \<longleftrightarrow> (\<exists>e. ErrorBox ''Write MSR failed'' e \<in> set (events g'))"
  define Ew where "Ew \<longleftrightarrow> (\<exists>e. ErrorBox ''Write MMIO failed'' e \<in> set (events g'))"
  note defs = Dm_def Dw_def Dc_def Am_def Aw_def Fm_def Fw_def Sm_def Sw_def Em_def Ew_def
  note that' = that [folded defs]
  from m show ?thesis
  proof (cases rule: limits_msr_block_shape)
    case (shape M)
    note M = this [folded defs]
    from o show ?thesis
    proof (cases rule: limits_mmio_block_shape)
      case (shape W)
      note W = this [folded defs]
      from p show ?thesis
      proof (cases rule: limits_powercap_block_shape)
        case (shape C)
        note C = this [folded defs]
        from apply_limits_internal_result [OF rd un bu m o p res]
        consider (a) "\<not> b4" "\<not> ok" "g' = g4" | (b) "b4" "\<not> b5" "\<not> ok" "g' = g5"
          | (c) "b4" "b5" "\<not> b6" "\<not> ok" "g' = g6"
          | (d) "b4" "b5" "b6" "ok" "g' = (if rf then refresh P g6 else g6)" by blast
        then show ?thesis
        proof cases
          case a
          have e: "helper_calls (events g') = helper_calls (events g) @ [[''--read'']] @ M @ [] @ [] @ []"
            using a M(1) s3 by simp
          from a have eq: "g4 = g'" by simp
          show ?thesis
            by (rule that' [OF e]; use a M(2-9) [unfolded eq, folded defs] in argo)
        next
          case b
          have e: "helper_calls (events g') = helper_calls (events g) @ [[''--read'']] @ M @ W @ [] @ []"
            using b M(1) W(1) s3 by simp
          from b have eq: "g5 = g'" by simp
          show ?thesis
            by (rule that' [OF e]; use b M(2-9) W(2-9) [unfolded eq, folded defs] in argo)
        next
          case c
          have e: "helper_calls (events g') = helper_calls (events g) @ [[''--read'']] @ M @ W @ C @ []"
            using c M(1) W(1) C(1) s3 by simp
          show ?thesis
            by (rule that' [OF e]; use c M(2-9) W(2-9) C(2-5) pc in argo)
        next
          case d
          show ?thesis
          proof (cases rf)
            case True
            have e: "helper_calls (events g') = helper_calls (events g) @ [[''--read'']] @ M @ W @ C
                       @ [[''--read'']]"
              using d True M(1) W(1) C(1) s3 refresh_calls [of P g6] by simp
            show ?thesis
              by (rule that' [OF e]; use d M(2-9) W(2-9) C(2-5) pc in argo)
          next
            case False
            have e: "helper_calls (events g') = helper_calls (events g) @ [[''--read'']] @ M @ W @ C @ []"
              using d False M(1) W(1) C(1) s3 by simp
            show ?thesis
              by (rule that' [OF e]; use d M(2-9) W(2-9) C(2-5) pc in argo)
          qed
        qed
      qed
    qed
  qed
qed

lemma filter_calls_shape:
  assumes "M = [] \<or> M = [[''--write-msr'', vm]]"
      and "W = [] \<or> W = [[''--write-mmio'', vw]]"
      and "C = [] \<or> (\<exists>a1 a2. C = [[''--write-powercap'', a1, a2]])"
      and "R = [] \<or> R = [[''--read'']]"
  shows "filter (\<lambda>args. args \<noteq> [] \<and> hd args = ''--write-msr'') ([[''--read'']] @ M @ W @ C @ R) = M"
    and "filter (\<lambda>args. args \<noteq> [] \<and> hd args = ''--write-mmio'') ([[''--read'']] @ M @ W @ C @ R) = W"
    and "filter (\<lambda>args. args \<noteq> [] \<and> hd args = ''--write-powercap'') ([[''--read'']] @ M @ W @ C @ R) = C"
proof -
  have m: "filter (\<lambda>args. args \<noteq> [] \<and> hd args = ''--write-msr'') M = M"
          "filter (\<lambda>args. args \<noteq> [] \<and> hd args = ''--write-mmio'') M = []"
          "filter (\<lambda>args. args \<noteq> [] \<and> hd args = ''--write-powercap'') M = []"
    using assms(1) by auto
  have w: "filter (\<lambda>args. args \<noteq> [] \<and> hd args = ''--write-msr'') W = []"
          "filter (\<lambda>args. args \<noteq> [] \<and> hd args = ''--write-mmio'') W = W"
          "filter (\<lambda>args. args \<noteq> [] \<and> hd args = ''--write-powercap'') W = []"
    using assms(2) by auto
  have c: "filter (\<lambda>args. args \<noteq> [] \<and> hd args = ''--write-msr'') C = []"
          "filter (\<lambda>args. args \<noteq> [] \<and> hd args = ''--write-mmio'') C = []"
          "filter (\<lambda>args. args \<noteq> [] \<and> hd args = ''--write-powercap'') C = C"
    using assms(3) by auto
  have r: "filter (\<lambda>args. args \<noteq> [] \<and> hd args = ''--write-msr'') R = []"
          "filter (\<lambda>args. args \<noteq> [] \<and> hd args = ''--write-mmio'') R = []"
          "filter (\<lambda>args. args \<noteq> [] \<and> hd args = ''--write-powercap'') R = []"
    using assms(4) by auto
  show "filter (\<lambda>args. args \<noteq> [] \<and> hd args = ''--write-msr'') ([[''--read'']] @ M @ W @ C @ R) = M"
    by (simp add: m w c r)
  show "filter (\<lambda>args. args \<noteq> [] \<and> hd args = ''--write-mmio'') ([[''--read'']] @ M @ W @ C @ R) = W"
    by (simp add: m w c r)
  show "filter (\<lambda>args. args \<noteq> [] \<and> hd args = ''--write-powercap'') ([[''--read'']] @ M @ W @ C @ R) = C"
    by (simp add: m w c r)
qed

lemma apply_limits_internal_writes:
  assumes rd: "read_state P g = (Inr st, g1)" and un: "update_units P st g1 = (True, g2)"
      and bu: "build_units (unit_watts st) g2 = (Some (u1, u2), g3)"
      and res: "apply_limits_internal P t c rf g = (ok, g')"
  obtains (writes) M W C R where
    "helper_calls (events g') = helper_calls (events g) @ [[''--read'']] @ M @ W @ C @ R"
    "calls_of ''--write-msr'' (events g') = calls_of ''--write-msr'' (events g) @ M"
    "calls_of ''--write-mmio'' (events g') = calls_of ''--write-mmio'' (events g) @ W"
    "calls_of ''--write-powercap'' (events g') = calls_of ''--write-powercap'' (events g) @ C"
    "M = [] \<or> M = [[''--write-msr'', hex64 (apply_pl_units (msr st) u1 u2)]]"
    "W = [] \<or> W = [[''--write-mmio'', hex64 (apply_pl_units (mmio st) u1 u2)]]"
    "C = [] \<or> (\<exists>a1 a2. C = [[''--write-powercap'', a1, a2]])"
    "R = [] \<or> R = [[''--read'']]"
    "t = Mmio \<longrightarrow> M = []"
    "t = Msr \<longrightarrow> W = []"
    "ok \<longrightarrow> (t \<noteq> Mmio \<longrightarrow> M \<noteq> []) \<and> (t \<noteq> Msr \<longrightarrow> W \<noteq> [])"
    "\<not> ok \<longrightarrow> R = []"
    "M = [] \<and> t \<noteq> Mmio \<longrightarrow> W = [] \<and> C = [] \<and> \<not> ok"
    "W = [] \<and> t \<noteq> Msr \<longrightarrow> C = [] \<and> \<not> ok"
    "c \<and> t \<noteq> Mmio \<and> (\<forall>d w. \<not> fst (message_box P ''Write MSR?'' d w)) \<longrightarrow> M = []"
    "c \<and> t \<noteq> Msr \<and> (\<forall>d w. \<not> fst (message_box P ''Write MMIO?'' d w)) \<longrightarrow> W = []"
    "c \<and> powercap_check g \<and> (\<forall>d w. \<not> fst (message_box P ''Write kernel powercap?'' d w))
       \<longrightarrow> C = [] \<and> \<not> ok"
    "(c \<longrightarrow> (\<forall>d w. fst (message_box P ''Write MSR?'' d w))) \<and> t \<noteq> Mmio \<longrightarrow> M \<noteq> []"
    "(c \<longrightarrow> (\<forall>d w. fst (message_box P ''Write MMIO?'' d w))) \<and> t \<noteq> Msr
       \<and> (t \<noteq> Mmio \<longrightarrow> M \<noteq> [] \<and> (\<forall>v ga. fst (write_msr P v ga) = None)) \<longrightarrow> W \<noteq> []"
    "M \<noteq> [] \<and> (\<forall>v ga. fst (write_msr P v ga) \<noteq> None) \<longrightarrow>
       W = [] \<and> C = [] \<and> \<not> ok \<and> (\<exists>e. ErrorBox ''Write MSR failed'' e \<in> set (events g'))"
    "W \<noteq> [] \<and> (\<forall>v ga. fst (write_mmio P v ga) \<noteq> None) \<longrightarrow>
       C = [] \<and> \<not> ok \<and> (\<exists>e. ErrorBox ''Write MMIO failed'' e \<in> set (events g'))"
    "(c \<longrightarrow> (\<forall>d w. fst (message_box P ''Write MSR?'' d w)))
       \<and> (c \<longrightarrow> (\<forall>d w. fst (message_box P ''Write MMIO?'' d w)))
       \<and> (\<forall>v ga. fst (write_msr P v ga) = None) \<and> (\<forall>v ga. fst (write_mmio P v ga) = None)
       \<and> \<not> powercap_check g \<longrightarrow> ok"
  using rd un bu res
proof (cases rule: apply_limits_internal_shape)
  case (shape M W C R)
  note f = filter_calls_shape [OF shape(2) shape(3) shape(4) shape(5)]
  have a: "calls_of ''--write-msr'' (events g') = calls_of ''--write-msr'' (events g) @ M"
    unfolding calls_of_def shape(1) by (subst filter_append) (simp only: f)
  have b: "calls_of ''--write-mmio'' (events g') = calls_of ''--write-mmio'' (events g) @ W"
    unfolding calls_of_def shape(1) by (subst filter_append) (simp only: f)
  have c: "calls_of ''--write-powercap'' (events g') = calls_of ''--write-powercap'' (events g) @ C"
    unfolding calls_of_def shape(1) by (subst filter_append) (simp only: f)
  show ?thesis
    by (rule writes [OF shape(1) a b c shape(2-)])
qed

section \<open>Settled: the conversion\<close>

lemma apply_limits_internal_rejected:
  assumes "read_state P g0 = (Inr st, g1)" "update_units P st g1 = (True, g)"
      and "fst (build_units (unit_watts st) g) = None"
  shows "fst (apply_limits_internal P t c rf g0) = False
       \<and> helper_calls (events (snd (apply_limits_internal P t c rf g0)))
           = helper_calls (events g0) @ [[''--read'']]"
proof -
  obtain g3 where bu: "build_units (unit_watts st) g = (None, g3)"
    using assms(3) by (cases "build_units (unit_watts st) g") simp
  have r: "apply_limits_internal P t c rf g0 = (False, g3)"
    using assms(1,2) bu by (simp add: apply_limits_internal_def)
  from assms(1) read_state_events [of P g0]
  have "events g1 = events g0 @ [HelperCall [''--read'']]" by simp
  moreover from assms(2) update_units_events [of P st g1] have "events g = events g1" by simp
  moreover from bu build_units_no_call [of "unit_watts st" g]
  have "helper_calls (events g3) = helper_calls (events g)" by simp
  ultimately show ?thesis using r by (simp add: helper_calls_append)
qed

text \<open>
  C3 (as amended). The quotient is the one the program computes, the double quotient of
  the watts by the unit, rounded by \<^verbatim>\<open>llround\<close>. For a positive unit scale and rounded
  quotients within the range of \<^verbatim>\<open>long long\<close>, the window's conversion
  \<^const>\<open>build_units\<close> fails exactly when the rounded quotient of one of the two limits
  is at most 0 or above 32767; otherwise it returns the two rounded quotients. It runs no
  helper command, and the workflow that meets the failure returns failure with the read
  as its only helper command, so nothing is written. The command-line conversion
  \<^const>\<open>cli_build_units\<close> decides the same way for rounded quotients from \<open>-32768\<close> to
  \<open>65535\<close>.
\<close>

theorem watts_to_units_range:
  assumes "0 < uw"
      and "- (2 ^ 63) \<le> llround (ddiv (pl1_spin g) uw)" "llround (ddiv (pl1_spin g) uw) < 2 ^ 63"
      and "- (2 ^ 63) \<le> llround (ddiv (pl2_spin g) uw)" "llround (ddiv (pl2_spin g) uw) < 2 ^ 63"
  shows "(fst (build_units uw g) = None) =
           (llround (ddiv (pl1_spin g) uw) \<le> 0 \<or> 32767 < llround (ddiv (pl1_spin g) uw)
            \<or> llround (ddiv (pl2_spin g) uw) \<le> 0 \<or> 32767 < llround (ddiv (pl2_spin g) uw))
       \<and> (\<forall>a b. fst (build_units uw g) = Some (a, b) \<longrightarrow>
              uint a = llround (ddiv (pl1_spin g) uw) \<and> uint b = llround (ddiv (pl2_spin g) uw))
       \<and> helper_calls (events (snd (build_units uw g))) = helper_calls (events g)
       \<and> (read_state P g0 = (Inr st, g1) \<and> update_units P st g1 = (True, g) \<and> unit_watts st = uw
            \<and> fst (build_units uw g) = None \<longrightarrow>
              fst (apply_limits_internal P t c rf g0) = False
              \<and> helper_calls (events (snd (apply_limits_internal P t c rf g0)))
                  = helper_calls (events g0) @ [[''--read'']])
       \<and> (- (2 ^ 15) \<le> llround (ddiv w1 uw) \<and> llround (ddiv w1 uw) < 2 ^ 16
            \<and> - (2 ^ 15) \<le> llround (ddiv w2 uw) \<and> llround (ddiv w2 uw) < 2 ^ 16 \<longrightarrow>
              (cli_build_units uw w1 w2 = None) =
                (llround (ddiv w1 uw) \<le> 0 \<or> 32767 < llround (ddiv w1 uw)
                 \<or> llround (ddiv w2 uw) \<le> 0 \<or> 32767 < llround (ddiv w2 uw)))"
proof (intro conjI allI impI)
  show "(fst (build_units uw g) = None) =
           (llround (ddiv (pl1_spin g) uw) \<le> 0 \<or> 32767 < llround (ddiv (pl1_spin g) uw)
            \<or> llround (ddiv (pl2_spin g) uw) \<le> 0 \<or> 32767 < llround (ddiv (pl2_spin g) uw))"
    by (rule build_units_None [OF assms])
next
  fix a b assume "fst (build_units uw g) = Some (a, b)"
  from build_units_Some [OF this assms(2-5)]
  show "uint a = llround (ddiv (pl1_spin g) uw)" "uint b = llround (ddiv (pl2_spin g) uw)" by simp_all
next
  show "helper_calls (events (snd (build_units uw g))) = helper_calls (events g)"
    by (rule build_units_no_call)
next
  assume a: "read_state P g0 = (Inr st, g1) \<and> update_units P st g1 = (True, g) \<and> unit_watts st = uw
            \<and> fst (build_units uw g) = None"
  then have "fst (build_units (unit_watts st) g) = None" by simp
  from apply_limits_internal_rejected [OF _ _ this, of P g0 g1 t c rf] a
  show "fst (apply_limits_internal P t c rf g0) = False"
    "helper_calls (events (snd (apply_limits_internal P t c rf g0)))
                  = helper_calls (events g0) @ [[''--read'']]" by simp_all
next
  assume "- (2 ^ 15) \<le> llround (ddiv w1 uw) \<and> llround (ddiv w1 uw) < 2 ^ 16
            \<and> - (2 ^ 15) \<le> llround (ddiv w2 uw) \<and> llround (ddiv w2 uw) < 2 ^ 16"
  then show "(cli_build_units uw w1 w2 = None) =
                (llround (ddiv w1 uw) \<le> 0 \<or> 32767 < llround (ddiv w1 uw)
                 \<or> llround (ddiv w2 uw) \<le> 0 \<or> 32767 < llround (ddiv w2 uw))"
    by (intro cli_build_units_None) simp_all
qed

theorem watts_to_units_range_witness:
  "llround (ddiv (pl1_spin (demo_window demo_machine)) (1 / 8)) = 440
   \<and> llround (ddiv (pl2_spin (demo_window demo_machine)) (1 / 8)) = 1256
   \<and> fst (build_units (1 / 8) (demo_window demo_machine)) = Some (440, 1256)
   \<and> uint (440 :: u16) = llround (ddiv (pl1_spin (demo_window demo_machine)) (1 / 8))
   \<and> cli_build_units (1 / 8) 55 157 \<noteq> None
   \<and> cli_build_units (1 / 8) 5000 157 = None
   \<and> llround (ddiv (13107 / 4) (binary64 (1 / 10))) = 32768
   \<and> fst (build_units (binary64 (1 / 10)) ((demo_window demo_machine)\<lparr>pl1_spin := 13107 / 4\<rparr>)) = None"
proof -
  let ?g = "demo_window demo_machine"
  let ?h = "(demo_window demo_machine)\<lparr>pl1_spin := 13107 / 4\<rparr>"
  note c1 = demo_units(1) and c2 = demo_units(2) and c3 = demo_units(3)
  have r1: "llround (ddiv (pl1_spin ?g) (1 / 8)) = 440" by (simp add: demo_window_def c1)
  have r2: "llround (ddiv (pl2_spin ?g) (1 / 8)) = 1256" by (simp add: demo_window_def c2)
  have b: "fst (build_units (1 / 8) ?g) = Some (440, 1256)"
    unfolding build_units_def Let_def r1 r2 by simp
  have h: "(0::real) < 1 / 8" by simp
  have "- (2 ^ 63) \<le> llround (ddiv (pl1_spin ?g) (1 / 8))" "llround (ddiv (pl1_spin ?g) (1 / 8)) < 2 ^ 63"
       "- (2 ^ 63) \<le> llround (ddiv (pl2_spin ?g) (1 / 8))" "llround (ddiv (pl2_spin ?g) (1 / 8)) < 2 ^ 63"
    unfolding r1 r2 by simp_all
  note T = watts_to_units_range [OF h this]
  from T [of _ _ _ _ _ _ _ 55 157] have "cli_build_units (1 / 8) 55 157 \<noteq> None"
    unfolding c1 c2 by simp
  moreover from T [of _ _ _ _ _ _ _ 5000 157] have "cli_build_units (1 / 8) 5000 157 = None"
    unfolding c1 c2 c3 by simp
  moreover from T b have "uint (440 :: u16) = llround (ddiv (pl1_spin ?g) (1 / 8))" by simp
  moreover have "fst (build_units (binary64 (1 / 10)) ?h) = None"
  proof -
    have s: "pl1_spin ?h = 13107 / 4" "pl2_spin ?h = 157" by (simp_all add: demo_window_def)
    have u: "(0::real) < binary64 (1 / 10)" unfolding double_tenth by simp
    have "- (2 ^ 63) \<le> llround (ddiv (pl1_spin ?h) (binary64 (1 / 10)))"
         "llround (ddiv (pl1_spin ?h) (binary64 (1 / 10))) < 2 ^ 63"
         "- (2 ^ 63) \<le> llround (ddiv (pl2_spin ?h) (binary64 (1 / 10)))"
         "llround (ddiv (pl2_spin ?h) (binary64 (1 / 10))) < 2 ^ 63"
      unfolding s tenth_units by simp_all
    from watts_to_units_range [OF u this] show ?thesis unfolding s tenth_units by simp
  qed
  ultimately show ?thesis using r1 r2 b tenth_units(1) by simp
qed

text \<open>
  The claim as it was stated fails where the rounded quotient is negative: the scanner
  given \<^verbatim>\<open>--pl1 -1 --pl2 -1\<close> on a machine whose unit is one watt rejects the limits,
  though the rounded quotient \<open>-1\<close> is neither 0 nor above 32767.
\<close>

theorem watts_to_units_range_counterexample:
  "\<not> ((cli_build_units 1 (- 1) (- 1) = None) =
        (llround (ddiv (- 1) 1) = 0 \<or> 32767 < llround (ddiv (- 1) 1)))"
proof -
  have "cli_build_units 1 (- 1) (- 1) = None"
    unfolding cli_build_units_def cli_units_def demo_units by code_simp
  moreover note demo_units(5)
  ultimately show ?thesis by simp
qed

text \<open>
  Beyond 65535 the 16-bit cast of the command-line tools wraps before the range test:
  4100 W at a unit of 1/16 W is 65600 units, which the cast turns into 64.
\<close>

lemma cli_units_wrap: "cli_build_units (1 / 16) 4100 4100 = Some (64, 64)"
  unfolding cli_build_units_def cli_units_def demo_units by code_simp

lemma build_units_no_wrap:
  "fst (build_units (1 / 16) ((demo_window demo_machine)\<lparr>pl1_spin := 4100, pl2_spin := 4100\<rparr>)) = None"
  by (simp add: build_units_def Let_def demo_units)

section \<open>The small machine, step by step\<close>

lemma demo_accepts: "\<forall>d w. fst (message_box (demo_platform fails []) title d w)"
  by (simp add: demo_platform_def)

lemma demo_declines: "\<forall>d w. \<not> fst (message_box (demo_platform fails [title]) title d w)"
  by (simp add: demo_platform_def)

lemma demo_accepts_other:
  "title \<noteq> other \<Longrightarrow> \<forall>d w. fst (message_box (demo_platform fails [other]) title d w)"
  by (simp add: demo_platform_def)

lemma demo_write_msr_ok:
  "\<not> List.member fails ''--write-msr'' \<Longrightarrow> \<forall>v ga. fst (write_msr (demo_platform fails nos) v ga) = None"
  by (simp add: write_msr_def run_simple_def run_pkexec_def demo_platform_def demo_pkexec_def
        demo_exit_def Let_def split: prod.splits)

lemma demo_write_mmio_ok:
  "\<not> List.member fails ''--write-mmio'' \<Longrightarrow> \<forall>v ga. fst (write_mmio (demo_platform fails nos) v ga) = None"
  by (simp add: write_mmio_def run_simple_def run_pkexec_def demo_platform_def demo_pkexec_def
        demo_exit_def Let_def split: prod.splits)

lemma demo_write_msr_fails:
  "List.member fails ''--write-msr'' \<Longrightarrow> \<forall>v ga. fst (write_msr (demo_platform fails nos) v ga) \<noteq> None"
  by (simp add: write_msr_def run_simple_def run_pkexec_def demo_platform_def demo_pkexec_def
        demo_exit_def Let_def split: prod.splits)

lemma demo_write_mmio_fails:
  "List.member fails ''--write-mmio'' \<Longrightarrow> \<forall>v ga. fst (write_mmio (demo_platform fails nos) v ga) \<noteq> None"
  by (simp add: write_mmio_def run_simple_def run_pkexec_def demo_platform_def demo_pkexec_def
        demo_exit_def Let_def split: prod.splits)

lemma demo_read_state:
  "\<not> List.member fails ''--read'' \<Longrightarrow>
   read_state (demo_platform fails nos) (demo_window demo_machine) = (Inr demo_state, demo_window_read)"
  by (simp add: read_state_def run_pkexec_def demo_platform_def demo_pkexec_def demo_exit_def
        Let_def demo_window_def demo_window_read_def)
     code_simp

lemma demo_update_units:
  "update_units (demo_platform fails nos) demo_state demo_window_read
     = (True, snd (update_units (demo_platform fails nos) demo_state demo_window_read))"
  by (simp add: update_units_def demo_state_def)

lemma demo_build_units:
  "build_units (unit_watts demo_state) (snd (update_units (demo_platform fails nos) demo_state demo_window_read))
     = (Some (440, 1256), snd (update_units (demo_platform fails nos) demo_state demo_window_read))"
proof -
  have p: "pl1_spin (snd (update_units (demo_platform fails nos) demo_state demo_window_read)) = 55"
          "pl2_spin (snd (update_units (demo_platform fails nos) demo_state demo_window_read)) = 157"
    by (simp_all add: update_units_def demo_state_def demo_window_read_def demo_window_def)
  have u: "unit_watts demo_state = 1 / 8" by (simp add: demo_state_def)
  note r = demo_units(1,2)
  show ?thesis unfolding build_units_def Let_def p u r by simp
qed

lemma demo_no_calls:
  "helper_calls (events (demo_window demo_machine)) = []"
  "calls_of c (events (demo_window demo_machine)) = []"
  by (simp_all add: demo_window_def calls_of_def)

lemma demo_encoded:
  "apply_pl_units (msr demo_state) 440 1256 = 0x00DD84E8004281B8"
  "apply_pl_units (mmio demo_state) 440 1256 = 0x004284E800DF81B8"
  by (simp_all add: demo_state_def apply_pl_units_def)

lemma demo_confirm:
  "confirm_action (demo_platform fails nos) title d g
     = (\<not> List.member nos title, snd (confirm_action (demo_platform fails nos) title d g))"
  by (simp add: confirm_action_def demo_platform_def)

lemma demo_msr_block_passes:
  assumes "\<not> List.member fails ''--write-msr''" "\<not> List.member nos ''Write MSR?''"
  shows "limits_msr_block (demo_platform fails nos) t c st u1 u2 g
           = (True, snd (limits_msr_block (demo_platform fails nos) t c st u1 u2 g))"
proof -
  obtain b g' where r: "limits_msr_block (demo_platform fails nos) t c st u1 u2 g = (b, g')"
    by (metis prod.exhaust)
  from r have b using assms demo_write_msr_ok [OF assms(1), of nos]
    by (cases rule: limits_msr_block_cases) (simp_all add: demo_platform_def)
  with r show ?thesis by simp
qed

lemma demo_mmio_block_passes:
  assumes "\<not> List.member fails ''--write-mmio''" "\<not> List.member nos ''Write MMIO?''"
  shows "limits_mmio_block (demo_platform fails nos) t c st u1 u2 g
           = (True, snd (limits_mmio_block (demo_platform fails nos) t c st u1 u2 g))"
proof -
  obtain b g' where r: "limits_mmio_block (demo_platform fails nos) t c st u1 u2 g = (b, g')"
    by (metis prod.exhaust)
  from r have b using assms demo_write_mmio_ok [OF assms(1), of nos]
    by (cases rule: limits_mmio_block_cases) (simp_all add: demo_platform_def)
  with r show ?thesis by simp
qed

lemma demo_spins:
  "pl1_spin (snd (update_units (demo_platform fails nos) demo_state demo_window_read)) = 55"
  "pl2_spin (snd (update_units (demo_platform fails nos) demo_state demo_window_read)) = 157"
  "powercap_check (snd (update_units (demo_platform fails nos) demo_state demo_window_read))"
  by (simp_all add: update_units_def demo_state_def demo_window_read_def demo_window_def)

section \<open>The command-line tool and the sync, step by step\<close>

lemma rd64_wr64: "rd64 (wr64 base off v) off = v"
  unfolding rd64_def wr64_def Let_def mask32_u64
  by (rule bit_eqI) (auto simp add: bit_simps)

lemma confirm_keeps:
  "msr_regs (snd (confirm m)) = msr_regs m" "mmio_mem (snd (confirm m)) = mmio_mem m"
  "msr_writable (snd (confirm m)) = msr_writable m"
  by (simp_all add: confirm_def read_line_def Let_def split: prod.splits option.splits)

lemma wrmsr_result:
  "wrmsr reg val m = (b, m') \<Longrightarrow>
     mmio_mem m' = mmio_mem m
     \<and> (if msr_writable m reg then b \<and> msr_regs m' = (msr_regs m)(reg \<mapsto> val)
         else \<not> b \<and> msr_regs m' = msr_regs m)"
  by (auto simp add: wrmsr_def split: if_splits)

lemma set_limits_msr_result:
  assumes "set_limits_msr target p1 p2 m = (b, m')"
  shows "mmio_mem m' = mmio_mem m
       \<and> (msr_regs m' = msr_regs m
          \<or> (\<exists>cur. rdmsr m MSR_PKG_POWER_LIMIT = Some cur
                \<and> msr_regs m' = (msr_regs m)(MSR_PKG_POWER_LIMIT \<mapsto> set_pl_units cur p1 p2)))
       \<and> ((target = 1 \<or> target = 3) \<and> fst (confirm m) \<and> msr_writable m MSR_PKG_POWER_LIMIT \<longrightarrow>
            (\<exists>cur. rdmsr m MSR_PKG_POWER_LIMIT = Some cur
                \<and> msr_regs m' = (msr_regs m)(MSR_PKG_POWER_LIMIT \<mapsto> set_pl_units cur p1 p2)) \<or> \<not> b)"
proof (cases "target = 1 \<or> target = 3")
  case False
  with assms show ?thesis by (auto simp add: set_limits_msr_def)
next
  case t: True
  show ?thesis
  proof (cases "rdmsr m MSR_PKG_POWER_LIMIT")
    case None
    with assms t show ?thesis by (auto simp add: set_limits_msr_def)
  next
    case (Some cur)
    obtain yes mc where c: "confirm m = (yes, mc)" by (metis prod.exhaust)
    with confirm_keeps [of m] have k: "msr_regs mc = msr_regs m" "mmio_mem mc = mmio_mem m"
      "msr_writable mc = msr_writable m" by simp_all
    show ?thesis
    proof (cases yes)
      case False
      with assms t Some c k show ?thesis by (auto simp add: set_limits_msr_def Let_def)
    next
      case True
      with assms t Some c have "wrmsr MSR_PKG_POWER_LIMIT (set_pl_units cur p1 p2) mc = (b, m')"
        by (simp add: set_limits_msr_def Let_def)
      from wrmsr_result [OF this] k Some c True show ?thesis by (auto split: if_splits)
    qed
  qed
qed

lemma set_limits_mmio_result:
  "msr_regs (set_limits_mmio target p1 p2 m) = msr_regs m
   \<and> (mmio_mem (set_limits_mmio target p1 p2 m) = mmio_mem m
      \<or> mmio_mem (set_limits_mmio target p1 p2 m)
           = wr64 (mmio_mem m) PL_OFF (set_pl_units (rd64 (mmio_mem m) PL_OFF) p1 p2))
   \<and> ((target = 2 \<or> target = 3) \<and> fst (confirm m) \<longrightarrow>
        rd64 (mmio_mem (set_limits_mmio target p1 p2 m)) PL_OFF
          = set_pl_units (rd64 (mmio_mem m) PL_OFF) p1 p2)"
proof -
  obtain yes mc where c: "confirm m = (yes, mc)" by (metis prod.exhaust)
  with confirm_keeps [of m] have k: "msr_regs mc = msr_regs m" "mmio_mem mc = mmio_mem m"
    by simp_all
  show ?thesis using c k
    by (cases yes) (auto simp add: set_limits_mmio_def Let_def rd64_wr64)
qed

lemma sync_limits_dir_1:
  assumes "rdmsr m MSR_PKG_POWER_LIMIT = Some v"
  shows "msr_regs (snd (sync_limits_dir 1 m)) = msr_regs m"
    and "fst (confirm m) \<Longrightarrow> rd64 (mmio_mem (snd (sync_limits_dir 1 m))) PL_OFF = v"
    and "\<not> fst (confirm m) \<Longrightarrow> mmio_mem (snd (sync_limits_dir 1 m)) = mmio_mem m"
    and "mmio_mem (snd (sync_limits_dir 1 m)) = mmio_mem m
         \<or> mmio_mem (snd (sync_limits_dir 1 m)) = wr64 (mmio_mem m) PL_OFF v"
proof -
  obtain yes mc where c: "confirm m = (yes, mc)" by (metis prod.exhaust)
  with confirm_keeps [of m] have k: "msr_regs mc = msr_regs m" "mmio_mem mc = mmio_mem m"
    by simp_all
  show "msr_regs (snd (sync_limits_dir 1 m)) = msr_regs m"
    using assms c k by (cases yes) (simp_all add: sync_limits_dir_def)
  show "fst (confirm m) \<Longrightarrow> rd64 (mmio_mem (snd (sync_limits_dir 1 m))) PL_OFF = v"
    using assms c k by (simp add: sync_limits_dir_def rd64_wr64)
  show "\<not> fst (confirm m) \<Longrightarrow> mmio_mem (snd (sync_limits_dir 1 m)) = mmio_mem m"
    using assms c k by (simp add: sync_limits_dir_def)
  show "mmio_mem (snd (sync_limits_dir 1 m)) = mmio_mem m
         \<or> mmio_mem (snd (sync_limits_dir 1 m)) = wr64 (mmio_mem m) PL_OFF v"
    using assms c k by (cases yes) (simp_all add: sync_limits_dir_def)
qed

lemma sync_limits_dir_2:
  "mmio_mem (snd (sync_limits_dir 2 m)) = mmio_mem m"
  "fst (confirm m) \<Longrightarrow> msr_writable m MSR_PKG_POWER_LIMIT \<Longrightarrow>
     msr_regs (snd (sync_limits_dir 2 m)) = (msr_regs m)(MSR_PKG_POWER_LIMIT \<mapsto> rd64 (mmio_mem m) PL_OFF)"
proof -
  obtain yes mc where c: "confirm m = (yes, mc)" by (metis prod.exhaust)
  with confirm_keeps [of m] have k: "msr_regs mc = msr_regs m" "mmio_mem mc = mmio_mem m"
    "msr_writable mc = msr_writable m" by simp_all
  show "mmio_mem (snd (sync_limits_dir 2 m)) = mmio_mem m"
    using c k by (cases yes) (simp_all add: sync_limits_dir_def Let_def wrmsr_def)
  show "fst (confirm m) \<Longrightarrow> msr_writable m MSR_PKG_POWER_LIMIT \<Longrightarrow>
     msr_regs (snd (sync_limits_dir 2 m)) = (msr_regs m)(MSR_PKG_POWER_LIMIT \<mapsto> rd64 (mmio_mem m) PL_OFF)"
    using c k by (simp add: sync_limits_dir_def Let_def wrmsr_def)
qed

lemma sync_limits_dir_1_twice:
  assumes "rdmsr m MSR_PKG_POWER_LIMIT = Some v" "fst (confirm m)"
  shows "rd64 (mmio_mem (snd (sync_limits_dir 1 (snd (sync_limits_dir 1 m))))) PL_OFF
           = rd64 (mmio_mem (snd (sync_limits_dir 1 m))) PL_OFF"
proof -
  let ?m1 = "snd (sync_limits_dir 1 m)"
  from sync_limits_dir_1(1) [OF assms(1)] assms(1) have r: "rdmsr ?m1 MSR_PKG_POWER_LIMIT = Some v"
    by (simp add: rdmsr_def)
  from sync_limits_dir_1(2) [OF assms] have a: "rd64 (mmio_mem ?m1) PL_OFF = v" .
  from sync_limits_dir_1(4) [OF r] show ?thesis
  proof
    assume "mmio_mem (snd (sync_limits_dir 1 ?m1)) = mmio_mem ?m1"
    then show ?thesis by simp
  next
    assume "mmio_mem (snd (sync_limits_dir 1 ?m1)) = wr64 (mmio_mem ?m1) PL_OFF v"
    then show ?thesis by (simp add: rd64_wr64 a)
  qed
qed

lemma sync_msr_to_mmio_calls:
  assumes rd: "read_state P g = (Inr st, g1)"
  obtains (sync) X where
    "helper_calls (events (sync_msr_to_mmio P g)) = helper_calls (events g) @ [[''--read'']] @ X"
    "X = [] \<or> X = [[''--write-mmio'', hex64 (msr st)]]
       \<or> X = [[''--write-mmio'', hex64 (msr st)], [''--read'']]"
    "(\<forall>d w. fst (message_box P ''Sync MSR -> MMIO?'' d w)) \<longrightarrow> X \<noteq> []"
    "(\<forall>d w. \<not> fst (message_box P ''Sync MSR -> MMIO?'' d w)) \<longrightarrow> X = []"
proof -
  let ?d = "''MMIO (0x'' @ ''59a0'' @ '') will be set to '' @ hex64 (msr st)"
  from rd read_state_events [of P g] have e1: "events g1 = events g @ [HelperCall [''--read'']]"
    by simp
  obtain yes ga where q: "confirm_action P ''Sync MSR -> MMIO?'' ?d g1 = (yes, ga)"
    by (metis prod.exhaust)
  with confirm_action_events [of P "''Sync MSR -> MMIO?''" ?d g1]
  have ea: "helper_calls (events ga) = helper_calls (events g1)"
    by (simp add: helper_calls_append)
  from q confirm_action_answer [of P "''Sync MSR -> MMIO?''" ?d g1]
  have ans: "yes = fst (message_box P ''Sync MSR -> MMIO?'' ?d (world g1))" by simp
  show ?thesis
  proof (cases yes)
    case False
    with rd q have "sync_msr_to_mmio P g = ga" by (simp add: sync_msr_to_mmio_def)
    with e1 ea False ans show ?thesis
      by (intro sync [of "[]"]) (auto simp add: helper_calls_append)
  next
    case True
    obtain r gb where w: "write_mmio P (msr st) ga = (r, gb)" by (metis prod.exhaust)
    with run_simple_events [of P "[''--write-mmio'', hex64 (msr st)]" ga]
    have eb: "events gb = events ga @ [HelperCall [''--write-mmio'', hex64 (msr st)]]"
      by (simp add: write_mmio_def)
    show ?thesis
    proof (cases r)
      case (Some err)
      with rd q True w have "sync_msr_to_mmio P g = show_error ''Write MMIO failed'' err gb"
        by (simp add: sync_msr_to_mmio_def)
      with e1 ea eb True ans show ?thesis
        by (intro sync [of "[[''--write-mmio'', hex64 (msr st)]]"])
           (auto simp add: helper_calls_append show_error_events)
    next
      case None
      with rd q True w have "sync_msr_to_mmio P g
          = refresh P (log_message (''Synced MSR -> MMIO ('' @ hex64 (msr st) @ '')'') gb)"
        by (simp add: sync_msr_to_mmio_def)
      with e1 ea eb True ans show ?thesis
        by (intro sync [of "[[''--write-mmio'', hex64 (msr st)], [''--read'']]"])
           (auto simp add: helper_calls_append refresh_calls log_message_events)
    qed
  qed
qed

lemma sync_mmio_to_msr_calls:
  assumes rd: "read_state P g = (Inr st, g1)"
  obtains (sync) X where
    "helper_calls (events (sync_mmio_to_msr P g)) = helper_calls (events g) @ [[''--read'']] @ X"
    "X = [] \<or> X = [[''--write-msr'', hex64 (mmio st)]]
       \<or> X = [[''--write-msr'', hex64 (mmio st)], [''--read'']]"
    "(\<forall>d w. fst (message_box P ''Sync MMIO -> MSR?'' d w)) \<longrightarrow> X \<noteq> []"
proof -
  let ?d = "''MSR (0x'' @ ''610'' @ '') will be set to '' @ hex64 (mmio st)"
  from rd read_state_events [of P g] have e1: "events g1 = events g @ [HelperCall [''--read'']]"
    by simp
  obtain yes ga where q: "confirm_action P ''Sync MMIO -> MSR?'' ?d g1 = (yes, ga)"
    by (metis prod.exhaust)
  with confirm_action_events [of P "''Sync MMIO -> MSR?''" ?d g1]
  have ea: "helper_calls (events ga) = helper_calls (events g1)"
    by (simp add: helper_calls_append)
  from q confirm_action_answer [of P "''Sync MMIO -> MSR?''" ?d g1]
  have ans: "yes = fst (message_box P ''Sync MMIO -> MSR?'' ?d (world g1))" by simp
  show ?thesis
  proof (cases yes)
    case False
    with rd q have "sync_mmio_to_msr P g = ga" by (simp add: sync_mmio_to_msr_def)
    with e1 ea False ans show ?thesis
      by (intro sync [of "[]"]) (auto simp add: helper_calls_append)
  next
    case True
    obtain r gb where w: "write_msr P (mmio st) ga = (r, gb)" by (metis prod.exhaust)
    with run_simple_events [of P "[''--write-msr'', hex64 (mmio st)]" ga]
    have eb: "events gb = events ga @ [HelperCall [''--write-msr'', hex64 (mmio st)]]"
      by (simp add: write_msr_def)
    show ?thesis
    proof (cases r)
      case (Some err)
      with rd q True w have "sync_mmio_to_msr P g = show_error ''Write MSR failed'' err gb"
        by (simp add: sync_mmio_to_msr_def)
      with e1 ea eb True ans show ?thesis
        by (intro sync [of "[[''--write-msr'', hex64 (mmio st)]]"])
           (auto simp add: helper_calls_append show_error_events)
    next
      case None
      with rd q True w have "sync_mmio_to_msr P g
          = refresh P (log_message (''Synced MMIO -> MSR ('' @ hex64 (mmio st) @ '')'') gb)"
        by (simp add: sync_mmio_to_msr_def)
      with e1 ea eb True ans show ?thesis
        by (intro sync [of "[[''--write-msr'', hex64 (mmio st)], [''--read'']]"])
           (auto simp add: helper_calls_append refresh_calls log_message_events)
    qed
  qed
qed

lemma sync_msr_to_mmio_writes:
  assumes rd: "read_state P g = (Inr st, g1)"
  shows "calls_of ''--write-msr'' (events (sync_msr_to_mmio P g)) = calls_of ''--write-msr'' (events g)"
    and "calls_of ''--write-mmio'' (events (sync_msr_to_mmio P g)) = calls_of ''--write-mmio'' (events g)
         \<or> calls_of ''--write-mmio'' (events (sync_msr_to_mmio P g))
              = calls_of ''--write-mmio'' (events g) @ [[''--write-mmio'', hex64 (msr st)]]"
    and "(\<forall>d w. fst (message_box P ''Sync MSR -> MMIO?'' d w)) \<Longrightarrow>
         calls_of ''--write-mmio'' (events (sync_msr_to_mmio P g))
              = calls_of ''--write-mmio'' (events g) @ [[''--write-mmio'', hex64 (msr st)]]"
    and "(\<forall>d w. \<not> fst (message_box P ''Sync MSR -> MMIO?'' d w)) \<Longrightarrow>
         calls_of ''--write-mmio'' (events (sync_msr_to_mmio P g)) = calls_of ''--write-mmio'' (events g)"
  using rd
  by (cases rule: sync_msr_to_mmio_calls; auto simp add: calls_of_def)+

lemma sync_mmio_to_msr_writes:
  assumes rd: "read_state P g = (Inr st, g1)"
  shows "calls_of ''--write-mmio'' (events (sync_mmio_to_msr P g)) = calls_of ''--write-mmio'' (events g)"
    and "calls_of ''--write-msr'' (events (sync_mmio_to_msr P g)) = calls_of ''--write-msr'' (events g)
         \<or> calls_of ''--write-msr'' (events (sync_mmio_to_msr P g))
              = calls_of ''--write-msr'' (events g) @ [[''--write-msr'', hex64 (mmio st)]]"
    and "(\<forall>d w. fst (message_box P ''Sync MMIO -> MSR?'' d w)) \<Longrightarrow>
         calls_of ''--write-msr'' (events (sync_mmio_to_msr P g))
              = calls_of ''--write-msr'' (events g) @ [[''--write-msr'', hex64 (mmio st)]]"
  using rd
  by (cases rule: sync_mmio_to_msr_calls; auto simp add: calls_of_def)+

lemma set_limits_msr_written:
  assumes "target = 1 \<or> target = 3" "rdmsr m MSR_PKG_POWER_LIMIT = Some cur" "fst (confirm m)"
      and "msr_writable m MSR_PKG_POWER_LIMIT"
  shows "fst (set_limits_msr target p1 p2 m)
       \<and> msr_regs (snd (set_limits_msr target p1 p2 m)) MSR_PKG_POWER_LIMIT
           = Some (set_pl_units cur p1 p2)"
proof -
  obtain yes mc where c: "confirm m = (yes, mc)" by (metis prod.exhaust)
  with confirm_keeps [of m] have k: "msr_regs mc = msr_regs m" "msr_writable mc = msr_writable m"
    by simp_all
  from c assms(3) have "yes" by simp
  with assms c k show ?thesis by (auto simp add: set_limits_msr_def Let_def wrmsr_def)
qed

lemma demo_cli_confirm: "fst (confirm (demo_cli (CHR ''y'' # CHR 0x0A # rest)))"
  by (simp add: confirm_def read_line_def demo_cli_def Let_def)

section \<open>One run of the workflow\<close>

lemma confirm_step_calls:
  assumes "(if c then confirm_action P title d g else (True, g)) = (yes, g')"
  shows "helper_calls (events g') = helper_calls (events g)"
  using assms confirm_action_events [of P title d g]
  by (cases c) (auto simp add: helper_calls_append)

lemma write_msr_events:
  assumes "write_msr P v g = (r, g')"
  shows "events g' = events g @ [HelperCall [''--write-msr'', hex64 v]]"
  using assms run_simple_events [of P "[''--write-msr'', hex64 v]" g] by (simp add: write_msr_def)

lemma write_mmio_events:
  assumes "write_mmio P v g = (r, g')"
  shows "events g' = events g @ [HelperCall [''--write-mmio'', hex64 v]]"
  using assms run_simple_events [of P "[''--write-mmio'', hex64 v]" g] by (simp add: write_mmio_def)

lemma msr_block_passed:
  assumes "limits_msr_block P t c st u1 u2 g = (True, g')"
  shows "helper_calls (events g') = helper_calls (events g)
           @ (if t = Mmio then [] else [[''--write-msr'', hex64 (apply_pl_units (msr st) u1 u2)]])"
  using assms
proof (cases rule: limits_msr_block_shape)
  case (shape M)
  from shape(2,3,4) have "M = (if t = Mmio then [] else [[''--write-msr'', hex64 (apply_pl_units (msr st) u1 u2)]])"
    by auto
  with shape(1) show ?thesis by simp
qed

lemma mmio_block_passed:
  assumes "limits_mmio_block P t c st u1 u2 g = (True, g')"
  shows "helper_calls (events g') = helper_calls (events g)
           @ (if t = Msr then [] else [[''--write-mmio'', hex64 (apply_pl_units (mmio st) u1 u2)]])"
  using assms
proof (cases rule: limits_mmio_block_shape)
  case (shape M)
  from shape(2,3,4) have "M = (if t = Msr then [] else [[''--write-mmio'', hex64 (apply_pl_units (mmio st) u1 u2)]])"
    by auto
  with shape(1) show ?thesis by simp
qed

lemma msr_write_failure_run:
  assumes rd: "read_state P g = (Inr st, g1)" and un: "update_units P st g1 = (True, g2)"
      and bu: "build_units (unit_watts st) g2 = (Some (u1, u2), g3)"
      and t: "t \<noteq> Mmio"
      and q: "(if c then confirm_action P ''Write MSR?''
                  (''MSR (0x'' @ ''610'' @ '') new value: '' @ hex64 (apply_pl_units (msr st) u1 u2)) g3
               else (True, g3)) = (True, ga)"
      and w: "write_msr P (apply_pl_units (msr st) u1 u2) ga = (Some e, gb)"
  shows "apply_limits_internal P t c rf g = (False, show_error ''Write MSR failed'' e gb)"
    and "helper_calls (events (show_error ''Write MSR failed'' e gb))
           = helper_calls (events g)
               @ [[''--read''], [''--write-msr'', hex64 (apply_pl_units (msr st) u1 u2)]]"
    and "ErrorBox ''Write MSR failed'' e \<in> set (events (show_error ''Write MSR failed'' e gb))"
proof -
  from t have tt: "t = Msr \<or> t = Both" by (cases t) simp_all
  have "limits_msr_block P t c st u1 u2 g3 = (False, show_error ''Write MSR failed'' e gb)"
    using tt q w by (auto simp add: limits_msr_block_def Let_def)
  then show "apply_limits_internal P t c rf g = (False, show_error ''Write MSR failed'' e gb)"
    using rd un bu by (simp add: apply_limits_internal_def Let_def)
  from stages_calls [OF rd un bu] confirm_step_calls [OF q] write_msr_events [OF w]
  show "helper_calls (events (show_error ''Write MSR failed'' e gb))
           = helper_calls (events g)
               @ [[''--read''], [''--write-msr'', hex64 (apply_pl_units (msr st) u1 u2)]]"
    by (simp add: show_error_events helper_calls_append)
  show "ErrorBox ''Write MSR failed'' e \<in> set (events (show_error ''Write MSR failed'' e gb))"
    by (simp add: show_error_events)
qed

lemma mmio_write_failure_run:
  assumes rd: "read_state P g = (Inr st, g1)" and un: "update_units P st g1 = (True, g2)"
      and bu: "build_units (unit_watts st) g2 = (Some (u1, u2), g3)"
      and t: "t \<noteq> Msr"
      and m: "limits_msr_block P t c st u1 u2 g3 = (True, ha)"
      and q: "(if c then confirm_action P ''Write MMIO?''
                  (''MMIO (0x'' @ ''59a0'' @ '') new value: '' @ hex64 (apply_pl_units (mmio st) u1 u2)) ha
               else (True, ha)) = (True, hb)"
      and w: "write_mmio P (apply_pl_units (mmio st) u1 u2) hb = (Some e, hc)"
  shows "apply_limits_internal P t c rf g = (False, show_error ''Write MMIO failed'' e hc)"
    and "helper_calls (events (show_error ''Write MMIO failed'' e hc))
           = helper_calls (events g) @ [[''--read'']]
               @ (if t = Both then [[''--write-msr'', hex64 (apply_pl_units (msr st) u1 u2)]] else [])
               @ [[''--write-mmio'', hex64 (apply_pl_units (mmio st) u1 u2)]]"
    and "ErrorBox ''Write MMIO failed'' e \<in> set (events (show_error ''Write MMIO failed'' e hc))"
proof -
  from t have tt: "t = Mmio \<or> t = Both" by (cases t) simp_all
  have "limits_mmio_block P t c st u1 u2 ha = (False, show_error ''Write MMIO failed'' e hc)"
    using tt q w by (auto simp add: limits_mmio_block_def Let_def)
  then show "apply_limits_internal P t c rf g = (False, show_error ''Write MMIO failed'' e hc)"
    using rd un bu m by (simp add: apply_limits_internal_def Let_def)
  from stages_calls [OF rd un bu] msr_block_passed [OF m] confirm_step_calls [OF q]
    write_mmio_events [OF w] tt
  show "helper_calls (events (show_error ''Write MMIO failed'' e hc))
           = helper_calls (events g) @ [[''--read'']]
               @ (if t = Both then [[''--write-msr'', hex64 (apply_pl_units (msr st) u1 u2)]] else [])
               @ [[''--write-mmio'', hex64 (apply_pl_units (mmio st) u1 u2)]]"
    by (auto simp add: show_error_events helper_calls_append)
  show "ErrorBox ''Write MMIO failed'' e \<in> set (events (show_error ''Write MMIO failed'' e hc))"
    by (simp add: show_error_events)
qed

lemma msr_declined_run:
  assumes rd: "read_state P g = (Inr st, g1)" and un: "update_units P st g1 = (True, g2)"
      and bu: "build_units (unit_watts st) g2 = (Some (u1, u2), g3)"
      and t: "t \<noteq> Mmio"
      and q: "confirm_action P ''Write MSR?''
                (''MSR (0x'' @ ''610'' @ '') new value: '' @ hex64 (apply_pl_units (msr st) u1 u2)) g3
              = (False, ga)"
  shows "apply_limits_internal P t True rf g = (False, ga)"
    and "helper_calls (events ga) = helper_calls (events g) @ [[''--read'']]"
proof -
  from t have tt: "t = Msr \<or> t = Both" by (cases t) simp_all
  have "limits_msr_block P t True st u1 u2 g3 = (False, ga)"
    using tt q by (auto simp add: limits_msr_block_def Let_def)
  then show "apply_limits_internal P t True rf g = (False, ga)"
    using rd un bu by (simp add: apply_limits_internal_def Let_def)
  from q have "(if True then confirm_action P ''Write MSR?''
                (''MSR (0x'' @ ''610'' @ '') new value: '' @ hex64 (apply_pl_units (msr st) u1 u2)) g3
              else (True, g3)) = (False, ga)" by simp
  from stages_calls [OF rd un bu] confirm_step_calls [OF this]
  show "helper_calls (events ga) = helper_calls (events g) @ [[''--read'']]" by simp
qed

lemma mmio_declined_run:
  assumes rd: "read_state P g = (Inr st, g1)" and un: "update_units P st g1 = (True, g2)"
      and bu: "build_units (unit_watts st) g2 = (Some (u1, u2), g3)"
      and t: "t \<noteq> Msr"
      and m: "limits_msr_block P t True st u1 u2 g3 = (True, ha)"
      and q: "confirm_action P ''Write MMIO?''
                (''MMIO (0x'' @ ''59a0'' @ '') new value: '' @ hex64 (apply_pl_units (mmio st) u1 u2)) ha
              = (False, hb)"
  shows "apply_limits_internal P t True rf g = (False, hb)"
    and "helper_calls (events hb) = helper_calls (events g) @ [[''--read'']]
           @ (if t = Both then [[''--write-msr'', hex64 (apply_pl_units (msr st) u1 u2)]] else [])"
proof -
  from t have tt: "t = Mmio \<or> t = Both" by (cases t) simp_all
  have "limits_mmio_block P t True st u1 u2 ha = (False, hb)"
    using tt q by (auto simp add: limits_mmio_block_def Let_def)
  then show "apply_limits_internal P t True rf g = (False, hb)"
    using rd un bu m by (simp add: apply_limits_internal_def Let_def)
  from q have "(if True then confirm_action P ''Write MMIO?''
                (''MMIO (0x'' @ ''59a0'' @ '') new value: '' @ hex64 (apply_pl_units (mmio st) u1 u2)) ha
              else (True, ha)) = (False, hb)" by simp
  from stages_calls [OF rd un bu] msr_block_passed [OF m] confirm_step_calls [OF this] tt
  show "helper_calls (events hb) = helper_calls (events g) @ [[''--read'']]
           @ (if t = Both then [[''--write-msr'', hex64 (apply_pl_units (msr st) u1 u2)]] else [])"
    by auto
qed

lemma powercap_declined_run:
  assumes rd: "read_state P g = (Inr st, g1)" and un: "update_units P st g1 = (True, g2)"
      and bu: "build_units (unit_watts st) g2 = (Some (u1, u2), g3)"
      and m: "limits_msr_block P t True st u1 u2 g3 = (True, ka)"
      and w: "limits_mmio_block P t True st u1 u2 ka = (True, kb)"
      and pc: "powercap_check kb"
      and nz: "(word_of_int (llround (dmul (pl1_spin g3) 1000000)) :: u64) \<noteq> 0"
              "(word_of_int (llround (dmul (pl2_spin g3) 1000000)) :: u64) \<noteq> 0"
      and q: "confirm_action P ''Write kernel powercap?''
                (''PL1: '' @ arg_f P (pl1_spin g3) 2 @ '' W (''
                  @ dec_nat (unat (word_of_int (llround (dmul (pl1_spin g3) 1000000)) :: u64))
                  @ '' uW)'' @ [CHR 0x0A] @ ''PL2: '' @ arg_f P (pl2_spin g3) 2 @ '' W (''
                  @ dec_nat (unat (word_of_int (llround (dmul (pl2_spin g3) 1000000)) :: u64))
                  @ '' uW)'') kb
              = (False, kc)"
  shows "apply_limits_internal P t True rf g = (False, kc)"
    and "helper_calls (events kc) = helper_calls (events g) @ [[''--read'']]
           @ (if t = Mmio then [] else [[''--write-msr'', hex64 (apply_pl_units (msr st) u1 u2)]])
           @ (if t = Msr then [] else [[''--write-mmio'', hex64 (apply_pl_units (mmio st) u1 u2)]])"
proof -
  have "limits_powercap_block P True (pl1_spin g3) (pl2_spin g3) kb = (False, kc)"
    using pc nz q by (simp add: limits_powercap_block_def Let_def)
  then show "apply_limits_internal P t True rf g = (False, kc)"
    using rd un bu m w by (simp add: apply_limits_internal_def Let_def)
  from q have "(if True then confirm_action P ''Write kernel powercap?''
                (''PL1: '' @ arg_f P (pl1_spin g3) 2 @ '' W (''
                  @ dec_nat (unat (word_of_int (llround (dmul (pl1_spin g3) 1000000)) :: u64))
                  @ '' uW)'' @ [CHR 0x0A] @ ''PL2: '' @ arg_f P (pl2_spin g3) 2 @ '' W (''
                  @ dec_nat (unat (word_of_int (llround (dmul (pl2_spin g3) 1000000)) :: u64))
                  @ '' uW)'') kb
              else (True, kb)) = (False, kc)" by simp
  then have "helper_calls (events kc) = helper_calls (events kb)" by (rule confirm_step_calls)
  with stages_calls [OF rd un bu] msr_block_passed [OF m] mmio_block_passed [OF w]
  show "helper_calls (events kc) = helper_calls (events g) @ [[''--read'']]
           @ (if t = Mmio then [] else [[''--write-msr'', hex64 (apply_pl_units (msr st) u1 u2)]])
           @ (if t = Msr then [] else [[''--write-mmio'', hex64 (apply_pl_units (mmio st) u1 u2)]])"
    by simp
qed

section \<open>Settled: the limit workflow\<close>

lemma apply_limits_internal_own_raw:
  assumes rd: "read_state P g = (Inr st, g1)" and un: "update_units P st g1 = (True, g2)"
      and bu: "build_units (unit_watts st) g2 = (Some (u1, u2), g3)"
      and res: "apply_limits_internal P t c rf g = (ok, g')"
  shows "(calls_of ''--write-msr'' (events g') = calls_of ''--write-msr'' (events g)
          \<or> calls_of ''--write-msr'' (events g') = calls_of ''--write-msr'' (events g)
               @ [[''--write-msr'', hex64 (apply_pl_units (msr st) u1 u2)]])
       \<and> (calls_of ''--write-mmio'' (events g') = calls_of ''--write-mmio'' (events g)
          \<or> calls_of ''--write-mmio'' (events g') = calls_of ''--write-mmio'' (events g)
               @ [[''--write-mmio'', hex64 (apply_pl_units (mmio st) u1 u2)]])
       \<and> (ok \<and> t \<noteq> Mmio \<longrightarrow>
            calls_of ''--write-msr'' (events g') = calls_of ''--write-msr'' (events g)
               @ [[''--write-msr'', hex64 (apply_pl_units (msr st) u1 u2)]])
       \<and> (ok \<and> t \<noteq> Msr \<longrightarrow>
            calls_of ''--write-mmio'' (events g') = calls_of ''--write-mmio'' (events g)
               @ [[''--write-mmio'', hex64 (apply_pl_units (mmio st) u1 u2)]])"
  using rd un bu res
proof (cases rule: apply_limits_internal_writes)
  case (writes M W C R)
  from writes(5,11) have m: "ok \<and> t \<noteq> Mmio \<longrightarrow> M = [[''--write-msr'', hex64 (apply_pl_units (msr st) u1 u2)]]"
    by argo
  from writes(6,11) have w: "ok \<and> t \<noteq> Msr \<longrightarrow> W = [[''--write-mmio'', hex64 (apply_pl_units (mmio st) u1 u2)]]"
    by argo
  from writes(5) have 1: "calls_of ''--write-msr'' (events g') = calls_of ''--write-msr'' (events g)
          \<or> calls_of ''--write-msr'' (events g') = calls_of ''--write-msr'' (events g)
               @ [[''--write-msr'', hex64 (apply_pl_units (msr st) u1 u2)]]"
    unfolding writes(2) by auto
  from writes(6) have 2: "calls_of ''--write-mmio'' (events g') = calls_of ''--write-mmio'' (events g)
          \<or> calls_of ''--write-mmio'' (events g') = calls_of ''--write-mmio'' (events g)
               @ [[''--write-mmio'', hex64 (apply_pl_units (mmio st) u1 u2)]]"
    unfolding writes(3) by auto
  from m have 3: "ok \<and> t \<noteq> Mmio \<longrightarrow>
            calls_of ''--write-msr'' (events g') = calls_of ''--write-msr'' (events g)
               @ [[''--write-msr'', hex64 (apply_pl_units (msr st) u1 u2)]]"
    unfolding writes(2) by simp
  from w have 4: "ok \<and> t \<noteq> Msr \<longrightarrow>
            calls_of ''--write-mmio'' (events g') = calls_of ''--write-mmio'' (events g)
               @ [[''--write-mmio'', hex64 (apply_pl_units (mmio st) u1 u2)]]"
    unfolding writes(3) by simp
  from 1 2 3 4 show ?thesis by (intro conjI)
qed

text \<open>
  C6. Once the state is read and the watts are converted, every MSR write the window's
  workflow runs carries the encoding of the units into the raw value read from the MSR,
  and every MMIO write the encoding into the raw value read from MMIO: at most one write
  of each is added to the helper commands, with exactly that argument, and a successful
  workflow has added the write of each selected target. In the command-line tool the MSR
  block leaves the MMIO window alone and stores, if anything, the encoding into the value
  it read from the MSR; the MMIO block leaves the MSR alone and stores, if anything, the
  encoding into the value it read from the MMIO window.
\<close>

theorem apply_limits_own_raw_value:
  assumes rd: "read_state P g = (Inr st, g1)" and un: "update_units P st g1 = (True, g2)"
      and bu: "build_units (unit_watts st) g2 = (Some (u1, u2), g3)"
      and res: "apply_limits_internal P t c rf g = (ok, g')"
  shows "(calls_of ''--write-msr'' (events g') = calls_of ''--write-msr'' (events g)
          \<or> calls_of ''--write-msr'' (events g') = calls_of ''--write-msr'' (events g)
               @ [[''--write-msr'', hex64 (apply_pl_units (msr st) u1 u2)]])
       \<and> (calls_of ''--write-mmio'' (events g') = calls_of ''--write-mmio'' (events g)
          \<or> calls_of ''--write-mmio'' (events g') = calls_of ''--write-mmio'' (events g)
               @ [[''--write-mmio'', hex64 (apply_pl_units (mmio st) u1 u2)]])
       \<and> (ok \<and> t \<noteq> Mmio \<longrightarrow>
            calls_of ''--write-msr'' (events g') = calls_of ''--write-msr'' (events g)
               @ [[''--write-msr'', hex64 (apply_pl_units (msr st) u1 u2)]])
       \<and> (ok \<and> t \<noteq> Msr \<longrightarrow>
            calls_of ''--write-mmio'' (events g') = calls_of ''--write-mmio'' (events g)
               @ [[''--write-mmio'', hex64 (apply_pl_units (mmio st) u1 u2)]])
       \<and> (\<forall>b m'. set_limits_msr target p1 p2 m = (b, m') \<longrightarrow>
            mmio_mem m' = mmio_mem m
            \<and> (msr_regs m' = msr_regs m
               \<or> (\<exists>cur. rdmsr m MSR_PKG_POWER_LIMIT = Some cur
                     \<and> msr_regs m' = (msr_regs m)(MSR_PKG_POWER_LIMIT \<mapsto> set_pl_units cur p1 p2))))
       \<and> (\<forall>cur. (target = 1 \<or> target = 3) \<and> rdmsr m MSR_PKG_POWER_LIMIT = Some cur
              \<and> fst (confirm m) \<and> msr_writable m MSR_PKG_POWER_LIMIT \<longrightarrow>
            fst (set_limits_msr target p1 p2 m)
            \<and> msr_regs (snd (set_limits_msr target p1 p2 m)) MSR_PKG_POWER_LIMIT
                = Some (set_pl_units cur p1 p2))
       \<and> msr_regs (set_limits_mmio target p1 p2 m) = msr_regs m
       \<and> (mmio_mem (set_limits_mmio target p1 p2 m) = mmio_mem m
          \<or> mmio_mem (set_limits_mmio target p1 p2 m)
               = wr64 (mmio_mem m) PL_OFF (set_pl_units (rd64 (mmio_mem m) PL_OFF) p1 p2))
       \<and> ((target = 2 \<or> target = 3) \<and> fst (confirm m) \<longrightarrow>
            rd64 (mmio_mem (set_limits_mmio target p1 p2 m)) PL_OFF
              = set_pl_units (rd64 (mmio_mem m) PL_OFF) p1 p2)"
proof -
  note w = apply_limits_internal_own_raw [OF rd un bu res]
  have a: "\<forall>b m'. set_limits_msr target p1 p2 m = (b, m') \<longrightarrow>
            mmio_mem m' = mmio_mem m
            \<and> (msr_regs m' = msr_regs m
               \<or> (\<exists>cur. rdmsr m MSR_PKG_POWER_LIMIT = Some cur
                     \<and> msr_regs m' = (msr_regs m)(MSR_PKG_POWER_LIMIT \<mapsto> set_pl_units cur p1 p2)))"
    using set_limits_msr_result [of target p1 p2 m] by blast
  have b: "\<forall>cur. (target = 1 \<or> target = 3) \<and> rdmsr m MSR_PKG_POWER_LIMIT = Some cur
              \<and> fst (confirm m) \<and> msr_writable m MSR_PKG_POWER_LIMIT \<longrightarrow>
            fst (set_limits_msr target p1 p2 m)
            \<and> msr_regs (snd (set_limits_msr target p1 p2 m)) MSR_PKG_POWER_LIMIT
                = Some (set_pl_units cur p1 p2)"
    using set_limits_msr_written [of target m _ p1 p2] by blast
  note c = set_limits_mmio_result [of target p1 p2 m]
  from w a b c show ?thesis by (intro conjI) simp_all
qed

theorem apply_limits_own_raw_value_witness:
  "fst (apply_limits_internal (demo_platform [] []) Both True True
          ((demo_window demo_machine)\<lparr>powercap_check := False\<rparr>)) = True
   \<and> calls_of ''--write-msr''
        (events (snd (apply_limits_internal (demo_platform [] []) Both True True
          ((demo_window demo_machine)\<lparr>powercap_check := False\<rparr>))))
       = [[''--write-msr'', hex64 0x00DD84E8004281B8]]
   \<and> calls_of ''--write-mmio''
        (events (snd (apply_limits_internal (demo_platform [] []) Both True True
          ((demo_window demo_machine)\<lparr>powercap_check := False\<rparr>))))
       = [[''--write-mmio'', hex64 0x004284E800DF81B8]]
   \<and> msr demo_state = 0x00DD8000004281B8 \<and> mmio demo_state = 0x004280A000DF8168
   \<and> apply_pl_units 0x00DD8000004281B8 440 1256 = 0x00DD84E8004281B8
   \<and> apply_pl_units 0x004280A000DF8168 440 1256 = 0x004284E800DF81B8
   \<and> msr_regs (snd (set_limits_msr 3 440 1256 (demo_cli (CHR ''y'' # CHR 0x0A # ''y'')))) MSR_PKG_POWER_LIMIT
       = Some 0x00DD84E8004281B8
   \<and> rd64 (mmio_mem (set_limits_mmio 3 440 1256 (demo_cli (CHR ''y'' # CHR 0x0A # ''y'')))) PL_OFF
       = 0x004284E800DF81B8"
proof -
  let ?P = "demo_platform [] []"
  let ?G = "(demo_window demo_machine)\<lparr>powercap_check := False\<rparr>"
  let ?G1 = "demo_window_read\<lparr>powercap_check := False\<rparr>"
  let ?u = "update_units ?P demo_state ?G1"
  let ?res = "apply_limits_internal ?P Both True True ?G"
  let ?m = "demo_cli (CHR ''y'' # CHR 0x0A # ''y'')"
  have rd: "read_state ?P ?G = (Inr demo_state, ?G1)"
    by (simp add: read_state_def run_pkexec_def demo_platform_def demo_pkexec_def demo_exit_def
          Let_def demo_window_def demo_window_read_def)
       code_simp
  have un: "?u = (True, snd ?u)" by (simp add: update_units_def demo_state_def)
  have bu: "build_units (unit_watts demo_state) (snd ?u) = (Some (440, 1256), snd ?u)"
  proof -
    have p: "pl1_spin (snd ?u) = 55" "pl2_spin (snd ?u) = 157"
      by (simp_all add: update_units_def demo_state_def demo_window_read_def demo_window_def)
    have u: "unit_watts demo_state = 1 / 8" by (simp add: demo_state_def)
    note r = demo_units(1,2)
    show ?thesis unfolding build_units_def Let_def p u r by simp
  qed
  have res: "?res = (fst ?res, snd ?res)" by simp
  have pc: "\<not> powercap_check ?G" by simp
  have e: "calls_of ''--write-msr'' (events ?G) = []" "calls_of ''--write-mmio'' (events ?G) = []"
    by (simp_all add: demo_window_def calls_of_def)
  have ok: "fst ?res"
    using rd un bu res
  proof (cases rule: apply_limits_internal_writes)
    case (writes M W C R)
    from writes(22) demo_accepts [of "[]"] demo_write_msr_ok [of "[]" "[]"]
      demo_write_mmio_ok [of "[]" "[]"] pc
    show ?thesis by simp
  qed
  have x: "apply_pl_units 0x00DD8000004281B8 440 1256 = 0x00DD84E8004281B8"
          "apply_pl_units 0x004280A000DF8168 440 1256 = 0x004284E800DF81B8"
          "set_pl_units 0x00DD8000004281B8 440 1256 = 0x00DD84E8004281B8"
          "set_pl_units 0x004280A000DF8168 440 1256 = 0x004284E800DF81B8"
    by (simp_all add: apply_pl_units_def set_pl_units_def)
  have ms: "rdmsr ?m MSR_PKG_POWER_LIMIT = Some 0x00DD8000004281B8"
           "msr_writable ?m MSR_PKG_POWER_LIMIT"
    by (simp_all add: rdmsr_def demo_cli_def MSR_PKG_POWER_LIMIT_def)
  have o: "rd64 (mmio_mem ?m) PL_OFF = 0x004280A000DF8168"
    by (simp add: rd64_def demo_cli_def PL_OFF_def)
  from apply_limits_own_raw_value [OF rd un bu res, of 3 440 1256 ?m] ok ms
    demo_cli_confirm [of "''y''"]
  show ?thesis unfolding e demo_encoded o by (simp add: demo_state_def x)
qed

text \<open>
  C4 (as amended). The workflow stops at the first write that fails. In a run whose MSR
  write fails (the question, where one is asked, was answered Yes, and the helper's write
  of the encoded value returned an error), the workflow returns failure with the error
  shown, and the read and that write are its only helper commands: neither the MMIO
  write nor the powercap write is run. In a run whose MSR block went through and whose
  MMIO write fails, the workflow returns failure with the error shown, and its helper
  commands are the read, the MSR write when the target is Both, and the failed MMIO
  write: no powercap write, and nothing that undoes the MSR write.
\<close>

theorem write_failure_stops_workflow:
  assumes rd: "read_state P g = (Inr st, g1)" and un: "update_units P st g1 = (True, g2)"
      and bu: "build_units (unit_watts st) g2 = (Some (u1, u2), g3)"
  shows "(t \<noteq> Mmio
          \<and> (if c then confirm_action P ''Write MSR?''
                 (''MSR (0x'' @ ''610'' @ '') new value: '' @ hex64 (apply_pl_units (msr st) u1 u2)) g3
              else (True, g3)) = (True, ga)
          \<and> write_msr P (apply_pl_units (msr st) u1 u2) ga = (Some e, gb) \<longrightarrow>
            apply_limits_internal P t c rf g = (False, show_error ''Write MSR failed'' e gb)
            \<and> helper_calls (events (show_error ''Write MSR failed'' e gb))
                = helper_calls (events g)
                    @ [[''--read''], [''--write-msr'', hex64 (apply_pl_units (msr st) u1 u2)]]
            \<and> ErrorBox ''Write MSR failed'' e \<in> set (events (show_error ''Write MSR failed'' e gb)))
       \<and> (t \<noteq> Msr
          \<and> limits_msr_block P t c st u1 u2 g3 = (True, ha)
          \<and> (if c then confirm_action P ''Write MMIO?''
                 (''MMIO (0x'' @ ''59a0'' @ '') new value: '' @ hex64 (apply_pl_units (mmio st) u1 u2)) ha
              else (True, ha)) = (True, hb)
          \<and> write_mmio P (apply_pl_units (mmio st) u1 u2) hb = (Some e', hc) \<longrightarrow>
            apply_limits_internal P t c rf g = (False, show_error ''Write MMIO failed'' e' hc)
            \<and> helper_calls (events (show_error ''Write MMIO failed'' e' hc))
                = helper_calls (events g) @ [[''--read'']]
                    @ (if t = Both then [[''--write-msr'', hex64 (apply_pl_units (msr st) u1 u2)]] else [])
                    @ [[''--write-mmio'', hex64 (apply_pl_units (mmio st) u1 u2)]]
            \<and> ErrorBox ''Write MMIO failed'' e' \<in> set (events (show_error ''Write MMIO failed'' e' hc)))"
proof (intro conjI impI)
  assume a: "t \<noteq> Mmio
          \<and> (if c then confirm_action P ''Write MSR?''
                 (''MSR (0x'' @ ''610'' @ '') new value: '' @ hex64 (apply_pl_units (msr st) u1 u2)) g3
              else (True, g3)) = (True, ga)
          \<and> write_msr P (apply_pl_units (msr st) u1 u2) ga = (Some e, gb)"
  then have t: "t \<noteq> Mmio"
    and q: "(if c then confirm_action P ''Write MSR?''
                 (''MSR (0x'' @ ''610'' @ '') new value: '' @ hex64 (apply_pl_units (msr st) u1 u2)) g3
              else (True, g3)) = (True, ga)"
    and w: "write_msr P (apply_pl_units (msr st) u1 u2) ga = (Some e, gb)" by simp_all
  note r = msr_write_failure_run [OF rd un bu t q w]
  show "apply_limits_internal P t c rf g = (False, show_error ''Write MSR failed'' e gb)" by (rule r(1))
  show "helper_calls (events (show_error ''Write MSR failed'' e gb))
                = helper_calls (events g)
                    @ [[''--read''], [''--write-msr'', hex64 (apply_pl_units (msr st) u1 u2)]]" by (rule r(2))
  show "ErrorBox ''Write MSR failed'' e \<in> set (events (show_error ''Write MSR failed'' e gb))" by (rule r(3))
next
  assume a: "t \<noteq> Msr
          \<and> limits_msr_block P t c st u1 u2 g3 = (True, ha)
          \<and> (if c then confirm_action P ''Write MMIO?''
                 (''MMIO (0x'' @ ''59a0'' @ '') new value: '' @ hex64 (apply_pl_units (mmio st) u1 u2)) ha
              else (True, ha)) = (True, hb)
          \<and> write_mmio P (apply_pl_units (mmio st) u1 u2) hb = (Some e', hc)"
  then have t: "t \<noteq> Msr" and m: "limits_msr_block P t c st u1 u2 g3 = (True, ha)"
    and q: "(if c then confirm_action P ''Write MMIO?''
                 (''MMIO (0x'' @ ''59a0'' @ '') new value: '' @ hex64 (apply_pl_units (mmio st) u1 u2)) ha
              else (True, ha)) = (True, hb)"
    and w: "write_mmio P (apply_pl_units (mmio st) u1 u2) hb = (Some e', hc)" by simp_all
  note r = mmio_write_failure_run [OF rd un bu t m q w]
  show "apply_limits_internal P t c rf g = (False, show_error ''Write MMIO failed'' e' hc)" by (rule r(1))
  show "helper_calls (events (show_error ''Write MMIO failed'' e' hc))
                = helper_calls (events g) @ [[''--read'']]
                    @ (if t = Both then [[''--write-msr'', hex64 (apply_pl_units (msr st) u1 u2)]] else [])
                    @ [[''--write-mmio'', hex64 (apply_pl_units (mmio st) u1 u2)]]" by (rule r(2))
  show "ErrorBox ''Write MMIO failed'' e' \<in> set (events (show_error ''Write MMIO failed'' e' hc))" by (rule r(3))
qed

theorem write_failure_stops_workflow_witness:
  "fst (apply_limits_internal (demo_platform [''--write-mmio''] []) Both True True
          (demo_window demo_machine)) = False
   \<and> helper_calls (events (snd (apply_limits_internal (demo_platform [''--write-mmio''] []) Both True
          True (demo_window demo_machine))))
       = [[''--read''], [''--write-msr'', hex64 0x00DD84E8004281B8],
          [''--write-mmio'', hex64 0x004284E800DF81B8]]
   \<and> fst (apply_limits_internal (demo_platform [''--write-msr''] []) Both True True
          (demo_window demo_machine)) = False
   \<and> helper_calls (events (snd (apply_limits_internal (demo_platform [''--write-msr''] []) Both True
          True (demo_window demo_machine))))
       = [[''--read''], [''--write-msr'', hex64 0x00DD84E8004281B8]]"
proof -
  let ?G = "demo_window demo_machine"
  have mmio: "fst (apply_limits_internal (demo_platform [''--write-mmio''] []) Both True True ?G) = False
     \<and> helper_calls (events (snd (apply_limits_internal (demo_platform [''--write-mmio''] []) Both True
          True ?G)))
       = [[''--read''], [''--write-msr'', hex64 0x00DD84E8004281B8],
          [''--write-mmio'', hex64 0x004284E800DF81B8]]"
  proof -
    let ?P = "demo_platform [''--write-mmio''] []"
    let ?g3 = "snd (update_units ?P demo_state demo_window_read)"
    let ?ha = "snd (limits_msr_block ?P Both True demo_state 440 1256 ?g3)"
    let ?d = "''MMIO (0x'' @ ''59a0'' @ '') new value: '' @ hex64 (apply_pl_units (mmio demo_state) 440 1256)"
    let ?hb = "snd (confirm_action ?P ''Write MMIO?'' ?d ?ha)"
    let ?w = "write_mmio ?P (apply_pl_units (mmio demo_state) 440 1256) ?hb"
    have rd: "read_state ?P ?G = (Inr demo_state, demo_window_read)"
      by (rule demo_read_state) simp
    have m: "limits_msr_block ?P Both True demo_state 440 1256 ?g3 = (True, ?ha)"
      by (rule demo_msr_block_passes) simp_all
    have q: "(if True then confirm_action ?P ''Write MMIO?'' ?d ?ha else (True, ?ha)) = (True, ?hb)"
      using demo_confirm [of "[''--write-mmio'']" "[]" "''Write MMIO?''" ?d ?ha] by simp
    have "fst ?w \<noteq> None" using demo_write_mmio_fails [of "[''--write-mmio'']" "[]"] by simp
    then obtain e where "fst ?w = Some e" by blast
    then have w: "?w = (Some e, snd ?w)" by (simp add: prod_eq_iff)
    from write_failure_stops_workflow [OF rd demo_update_units demo_build_units,
        where t = Both and c = True and rf = True and ha = ?ha and hb = ?hb and e' = e
          and hc = "snd ?w"] m q w
    show ?thesis by (simp add: demo_no_calls demo_encoded)
  qed
  have msr: "fst (apply_limits_internal (demo_platform [''--write-msr''] []) Both True True ?G) = False
     \<and> helper_calls (events (snd (apply_limits_internal (demo_platform [''--write-msr''] []) Both True
          True ?G)))
       = [[''--read''], [''--write-msr'', hex64 0x00DD84E8004281B8]]"
  proof -
    let ?P = "demo_platform [''--write-msr''] []"
    let ?g3 = "snd (update_units ?P demo_state demo_window_read)"
    let ?d = "''MSR (0x'' @ ''610'' @ '') new value: '' @ hex64 (apply_pl_units (msr demo_state) 440 1256)"
    let ?ga = "snd (confirm_action ?P ''Write MSR?'' ?d ?g3)"
    let ?w = "write_msr ?P (apply_pl_units (msr demo_state) 440 1256) ?ga"
    have rd: "read_state ?P ?G = (Inr demo_state, demo_window_read)"
      by (rule demo_read_state) simp
    have q: "(if True then confirm_action ?P ''Write MSR?'' ?d ?g3 else (True, ?g3)) = (True, ?ga)"
      using demo_confirm [of "[''--write-msr'']" "[]" "''Write MSR?''" ?d ?g3] by simp
    have "fst ?w \<noteq> None" using demo_write_msr_fails [of "[''--write-msr'']" "[]"] by simp
    then obtain e where "fst ?w = Some e" by blast
    then have w: "?w = (Some e, snd ?w)" by (simp add: prod_eq_iff)
    from write_failure_stops_workflow [OF rd demo_update_units demo_build_units,
        where t = Both and c = True and rf = True and ga = ?ga and e = e and gb = "snd ?w"] q w
    show ?thesis by (simp add: demo_no_calls demo_encoded)
  qed
  from mmio msr show ?thesis by simp
qed

text \<open>
  The claim as it was stated fails when the MSR write fails: the failure is shown, but
  the MMIO write is not attempted.
\<close>

theorem write_failure_stops_workflow_counterexample:
  "\<not> (calls_of ''--write-msr''
          (events (snd (apply_limits_internal (demo_platform [''--write-msr''] []) Both True True
                  (demo_window demo_machine)))) \<noteq> []
        \<and> (\<exists>e. ErrorBox ''Write MSR failed'' e
              \<in> set (events (snd (apply_limits_internal (demo_platform [''--write-msr''] []) Both
                      True True (demo_window demo_machine)))))
        \<longrightarrow> calls_of ''--write-mmio''
              (events (snd (apply_limits_internal (demo_platform [''--write-msr''] []) Both True
                      True (demo_window demo_machine)))) \<noteq> [])"
proof -
  let ?P = "demo_platform [''--write-msr''] []"
  let ?G = "demo_window demo_machine"
  let ?res = "apply_limits_internal ?P Both True True ?G"
  have rd: "read_state ?P ?G = (Inr demo_state, demo_window_read)"
    by (rule demo_read_state) simp
  have res: "?res = (fst ?res, snd ?res)" by simp
  from rd demo_update_units demo_build_units res show ?thesis
  proof (cases rule: apply_limits_internal_writes)
    case (writes M W C R)
    have a: "\<forall>d w. fst (message_box ?P ''Write MSR?'' d w)"
      by (rule demo_accepts)
    have f: "\<forall>v ga. fst (write_msr ?P v ga) \<noteq> None"
      by (rule demo_write_msr_fails) simp
    from writes(18) a have m: "M \<noteq> []" by simp
    with writes(20) f have "W = []" "\<exists>e. ErrorBox ''Write MSR failed'' e \<in> set (events (snd ?res))"
      by simp_all
    with m show ?thesis unfolding writes(2,3) by (simp add: demo_no_calls)
  qed
qed

text \<open>
  C10. With confirmation on, a question answered No ends the workflow with failure and
  no helper command after it. In a run where the MSR question is declined, the read is
  the only helper command. In a run where the MSR block went through and the MMIO
  question is declined, the helper commands are the read and, when the target is Both,
  the MSR write that was confirmed before: it stays, and nothing follows it. In a run
  where both register blocks went through and the powercap question is declined, the
  helper commands are the read and the register writes of the selected targets: no
  powercap write, and nothing that undoes a write.
\<close>

theorem declined_confirmation_stops_workflow:
  assumes rd: "read_state P g = (Inr st, g1)" and un: "update_units P st g1 = (True, g2)"
      and bu: "build_units (unit_watts st) g2 = (Some (u1, u2), g3)"
  shows "(t \<noteq> Mmio
          \<and> confirm_action P ''Write MSR?''
                (''MSR (0x'' @ ''610'' @ '') new value: '' @ hex64 (apply_pl_units (msr st) u1 u2)) g3
              = (False, ga) \<longrightarrow>
            apply_limits_internal P t True rf g = (False, ga)
            \<and> helper_calls (events ga) = helper_calls (events g) @ [[''--read'']])
       \<and> (t \<noteq> Msr
          \<and> limits_msr_block P t True st u1 u2 g3 = (True, ha)
          \<and> confirm_action P ''Write MMIO?''
                (''MMIO (0x'' @ ''59a0'' @ '') new value: '' @ hex64 (apply_pl_units (mmio st) u1 u2)) ha
              = (False, hb) \<longrightarrow>
            apply_limits_internal P t True rf g = (False, hb)
            \<and> helper_calls (events hb) = helper_calls (events g) @ [[''--read'']]
                 @ (if t = Both then [[''--write-msr'', hex64 (apply_pl_units (msr st) u1 u2)]] else []))
       \<and> (limits_msr_block P t True st u1 u2 g3 = (True, ka)
          \<and> limits_mmio_block P t True st u1 u2 ka = (True, kb)
          \<and> powercap_check kb
          \<and> (word_of_int (llround (dmul (pl1_spin g3) 1000000)) :: u64) \<noteq> 0
          \<and> (word_of_int (llround (dmul (pl2_spin g3) 1000000)) :: u64) \<noteq> 0
          \<and> confirm_action P ''Write kernel powercap?''
                (''PL1: '' @ arg_f P (pl1_spin g3) 2 @ '' W (''
                  @ dec_nat (unat (word_of_int (llround (dmul (pl1_spin g3) 1000000)) :: u64))
                  @ '' uW)'' @ [CHR 0x0A] @ ''PL2: '' @ arg_f P (pl2_spin g3) 2 @ '' W (''
                  @ dec_nat (unat (word_of_int (llround (dmul (pl2_spin g3) 1000000)) :: u64))
                  @ '' uW)'') kb
              = (False, kc) \<longrightarrow>
            apply_limits_internal P t True rf g = (False, kc)
            \<and> helper_calls (events kc) = helper_calls (events g) @ [[''--read'']]
                 @ (if t = Mmio then [] else [[''--write-msr'', hex64 (apply_pl_units (msr st) u1 u2)]])
                 @ (if t = Msr then [] else [[''--write-mmio'', hex64 (apply_pl_units (mmio st) u1 u2)]]))"
proof (intro conjI impI)
  assume "t \<noteq> Mmio
          \<and> confirm_action P ''Write MSR?''
                (''MSR (0x'' @ ''610'' @ '') new value: '' @ hex64 (apply_pl_units (msr st) u1 u2)) g3
              = (False, ga)"
  then have t: "t \<noteq> Mmio"
    and q: "confirm_action P ''Write MSR?''
                (''MSR (0x'' @ ''610'' @ '') new value: '' @ hex64 (apply_pl_units (msr st) u1 u2)) g3
              = (False, ga)" by simp_all
  show "apply_limits_internal P t True rf g = (False, ga)"
    by (rule msr_declined_run(1) [OF rd un bu t q])
  show "helper_calls (events ga) = helper_calls (events g) @ [[''--read'']]"
    by (rule msr_declined_run(2) [OF rd un bu t q])
next
  assume "t \<noteq> Msr
          \<and> limits_msr_block P t True st u1 u2 g3 = (True, ha)
          \<and> confirm_action P ''Write MMIO?''
                (''MMIO (0x'' @ ''59a0'' @ '') new value: '' @ hex64 (apply_pl_units (mmio st) u1 u2)) ha
              = (False, hb)"
  then have t: "t \<noteq> Msr" and m: "limits_msr_block P t True st u1 u2 g3 = (True, ha)"
    and q: "confirm_action P ''Write MMIO?''
                (''MMIO (0x'' @ ''59a0'' @ '') new value: '' @ hex64 (apply_pl_units (mmio st) u1 u2)) ha
              = (False, hb)" by simp_all
  show "apply_limits_internal P t True rf g = (False, hb)"
    by (rule mmio_declined_run(1) [OF rd un bu t m q])
  show "helper_calls (events hb) = helper_calls (events g) @ [[''--read'']]
                 @ (if t = Both then [[''--write-msr'', hex64 (apply_pl_units (msr st) u1 u2)]] else [])"
    by (rule mmio_declined_run(2) [OF rd un bu t m q])
next
  assume "limits_msr_block P t True st u1 u2 g3 = (True, ka)
          \<and> limits_mmio_block P t True st u1 u2 ka = (True, kb)
          \<and> powercap_check kb
          \<and> (word_of_int (llround (dmul (pl1_spin g3) 1000000)) :: u64) \<noteq> 0
          \<and> (word_of_int (llround (dmul (pl2_spin g3) 1000000)) :: u64) \<noteq> 0
          \<and> confirm_action P ''Write kernel powercap?''
                (''PL1: '' @ arg_f P (pl1_spin g3) 2 @ '' W (''
                  @ dec_nat (unat (word_of_int (llround (dmul (pl1_spin g3) 1000000)) :: u64))
                  @ '' uW)'' @ [CHR 0x0A] @ ''PL2: '' @ arg_f P (pl2_spin g3) 2 @ '' W (''
                  @ dec_nat (unat (word_of_int (llround (dmul (pl2_spin g3) 1000000)) :: u64))
                  @ '' uW)'') kb
              = (False, kc)"
  then have m: "limits_msr_block P t True st u1 u2 g3 = (True, ka)"
    and w: "limits_mmio_block P t True st u1 u2 ka = (True, kb)"
    and pc: "powercap_check kb"
    and nz: "(word_of_int (llround (dmul (pl1_spin g3) 1000000)) :: u64) \<noteq> 0"
            "(word_of_int (llround (dmul (pl2_spin g3) 1000000)) :: u64) \<noteq> 0"
    and q: "confirm_action P ''Write kernel powercap?''
                (''PL1: '' @ arg_f P (pl1_spin g3) 2 @ '' W (''
                  @ dec_nat (unat (word_of_int (llround (dmul (pl1_spin g3) 1000000)) :: u64))
                  @ '' uW)'' @ [CHR 0x0A] @ ''PL2: '' @ arg_f P (pl2_spin g3) 2 @ '' W (''
                  @ dec_nat (unat (word_of_int (llround (dmul (pl2_spin g3) 1000000)) :: u64))
                  @ '' uW)'') kb
              = (False, kc)" by simp_all
  show "apply_limits_internal P t True rf g = (False, kc)"
    by (rule powercap_declined_run(1) [OF rd un bu m w pc nz q])
  show "helper_calls (events kc) = helper_calls (events g) @ [[''--read'']]
                 @ (if t = Mmio then [] else [[''--write-msr'', hex64 (apply_pl_units (msr st) u1 u2)]])
                 @ (if t = Msr then [] else [[''--write-mmio'', hex64 (apply_pl_units (mmio st) u1 u2)]])"
    by (rule powercap_declined_run(2) [OF rd un bu m w pc nz q])
qed

theorem declined_confirmation_stops_workflow_witness:
  "fst (apply_limits_internal (demo_platform [] [''Write MMIO?'']) Both True True
          (demo_window demo_machine)) = False
   \<and> helper_calls (events (snd (apply_limits_internal (demo_platform [] [''Write MMIO?'']) Both True
          True (demo_window demo_machine))))
       = [[''--read''], [''--write-msr'', hex64 0x00DD84E8004281B8]]
   \<and> fst (apply_limits_internal (demo_platform [] [''Write MSR?'']) Both True True
          (demo_window demo_machine)) = False
   \<and> helper_calls (events (snd (apply_limits_internal (demo_platform [] [''Write MSR?'']) Both True
          True (demo_window demo_machine))))
       = [[''--read'']]
   \<and> fst (apply_limits_internal (demo_platform [] [''Write kernel powercap?'']) Both True True
          (demo_window demo_machine)) = False
   \<and> helper_calls (events (snd (apply_limits_internal (demo_platform [] [''Write kernel powercap?''])
          Both True True (demo_window demo_machine))))
       = [[''--read''], [''--write-msr'', hex64 0x00DD84E8004281B8],
          [''--write-mmio'', hex64 0x004284E800DF81B8]]"
proof -
  let ?G = "demo_window demo_machine"
  have mmio: "fst (apply_limits_internal (demo_platform [] [''Write MMIO?'']) Both True True ?G) = False
   \<and> helper_calls (events (snd (apply_limits_internal (demo_platform [] [''Write MMIO?'']) Both True
          True ?G)))
       = [[''--read''], [''--write-msr'', hex64 0x00DD84E8004281B8]]"
  proof -
    let ?P = "demo_platform [] [''Write MMIO?'']"
    let ?g3 = "snd (update_units ?P demo_state demo_window_read)"
    let ?ha = "snd (limits_msr_block ?P Both True demo_state 440 1256 ?g3)"
    let ?d = "''MMIO (0x'' @ ''59a0'' @ '') new value: '' @ hex64 (apply_pl_units (mmio demo_state) 440 1256)"
    let ?hb = "snd (confirm_action ?P ''Write MMIO?'' ?d ?ha)"
    have rd: "read_state ?P ?G = (Inr demo_state, demo_window_read)"
      by (rule demo_read_state) simp
    have m: "limits_msr_block ?P Both True demo_state 440 1256 ?g3 = (True, ?ha)"
      by (rule demo_msr_block_passes) simp_all
    have q: "confirm_action ?P ''Write MMIO?'' ?d ?ha = (False, ?hb)"
      using demo_confirm [of "[]" "[''Write MMIO?'']" "''Write MMIO?''" ?d ?ha] by simp
    have t: "Both \<noteq> Msr" by simp
    from declined_confirmation_stops_workflow [OF rd demo_update_units demo_build_units,
        where t = Both and rf = True and ha = ?ha and hb = ?hb] t m q
    have "apply_limits_internal ?P Both True True ?G = (False, ?hb)
          \<and> helper_calls (events ?hb) = helper_calls (events ?G) @ [[''--read'']]
                 @ (if Both = Both then [[''--write-msr'', hex64 (apply_pl_units (msr demo_state) 440 1256)]]
                    else [])"
      by blast
    then show ?thesis by (simp add: demo_no_calls demo_encoded)
  qed
  have msr: "fst (apply_limits_internal (demo_platform [] [''Write MSR?'']) Both True True ?G) = False
   \<and> helper_calls (events (snd (apply_limits_internal (demo_platform [] [''Write MSR?'']) Both True
          True ?G)))
       = [[''--read'']]"
  proof -
    let ?P = "demo_platform [] [''Write MSR?'']"
    let ?g3 = "snd (update_units ?P demo_state demo_window_read)"
    let ?d = "''MSR (0x'' @ ''610'' @ '') new value: '' @ hex64 (apply_pl_units (msr demo_state) 440 1256)"
    let ?ga = "snd (confirm_action ?P ''Write MSR?'' ?d ?g3)"
    have rd: "read_state ?P ?G = (Inr demo_state, demo_window_read)"
      by (rule demo_read_state) simp
    have q: "confirm_action ?P ''Write MSR?'' ?d ?g3 = (False, ?ga)"
      using demo_confirm [of "[]" "[''Write MSR?'']" "''Write MSR?''" ?d ?g3] by simp
    have t: "Both \<noteq> Mmio" by simp
    from declined_confirmation_stops_workflow [OF rd demo_update_units demo_build_units,
        where t = Both and rf = True and ga = ?ga] t q
    have "apply_limits_internal ?P Both True True ?G = (False, ?ga)
          \<and> helper_calls (events ?ga) = helper_calls (events ?G) @ [[''--read'']]"
      by blast
    then show ?thesis by (simp add: demo_no_calls)
  qed
  have cap: "fst (apply_limits_internal (demo_platform [] [''Write kernel powercap?'']) Both True True ?G)
      = False
   \<and> helper_calls (events (snd (apply_limits_internal (demo_platform [] [''Write kernel powercap?''])
          Both True True ?G)))
       = [[''--read''], [''--write-msr'', hex64 0x00DD84E8004281B8],
          [''--write-mmio'', hex64 0x004284E800DF81B8]]"
  proof -
    let ?P = "demo_platform [] [''Write kernel powercap?'']"
    let ?g3 = "snd (update_units ?P demo_state demo_window_read)"
    let ?ka = "snd (limits_msr_block ?P Both True demo_state 440 1256 ?g3)"
    let ?kb = "snd (limits_mmio_block ?P Both True demo_state 440 1256 ?ka)"
    let ?d = "''PL1: '' @ arg_f ?P (pl1_spin ?g3) 2 @ '' W (''
                  @ dec_nat (unat (word_of_int (llround (dmul (pl1_spin ?g3) 1000000)) :: u64))
                  @ '' uW)'' @ [CHR 0x0A] @ ''PL2: '' @ arg_f ?P (pl2_spin ?g3) 2 @ '' W (''
                  @ dec_nat (unat (word_of_int (llround (dmul (pl2_spin ?g3) 1000000)) :: u64))
                  @ '' uW)''"
    let ?kc = "snd (confirm_action ?P ''Write kernel powercap?'' ?d ?kb)"
    have rd: "read_state ?P ?G = (Inr demo_state, demo_window_read)"
      by (rule demo_read_state) simp
    have m: "limits_msr_block ?P Both True demo_state 440 1256 ?g3 = (True, ?ka)"
      by (rule demo_msr_block_passes) simp_all
    have w: "limits_mmio_block ?P Both True demo_state 440 1256 ?ka = (True, ?kb)"
      by (rule demo_mmio_block_passes) simp_all
    have pc: "powercap_check ?kb"
      by (simp add: limits_mmio_block_powercap limits_msr_block_powercap demo_spins)
    have nz: "(word_of_int (llround (dmul (pl1_spin ?g3) 1000000)) :: u64) \<noteq> 0"
             "(word_of_int (llround (dmul (pl2_spin ?g3) 1000000)) :: u64) \<noteq> 0"
      by (simp_all add: demo_spins demo_microwatts)
    have q: "confirm_action ?P ''Write kernel powercap?'' ?d ?kb = (False, ?kc)"
      using demo_confirm [of "[]" "[''Write kernel powercap?'']" "''Write kernel powercap?''" ?d ?kb]
      by simp
    from declined_confirmation_stops_workflow [OF rd demo_update_units demo_build_units,
        where t = Both and rf = True and ka = ?ka and kb = ?kb and kc = ?kc] m w pc nz q
    have "apply_limits_internal ?P Both True True ?G = (False, ?kc)
          \<and> helper_calls (events ?kc) = helper_calls (events ?G) @ [[''--read'']]
                 @ (if Both = Mmio then []
                    else [[''--write-msr'', hex64 (apply_pl_units (msr demo_state) 440 1256)]])
                 @ (if Both = Msr then []
                    else [[''--write-mmio'', hex64 (apply_pl_units (mmio demo_state) 440 1256)]])"
      by blast
    then show ?thesis by (simp add: demo_no_calls demo_encoded)
  qed
  from mmio msr cap show ?thesis by simp
qed

section \<open>Settled: the helper's response\<close>

lemma insert_line_dom:
  "dom (insert_line vals line) = dom vals \<union> set_option (line_key line)"
  by (auto simp add: insert_line_def line_key_def Let_def)

lemma foldl_insert_line_dom:
  "dom (foldl insert_line vals ls) = dom vals \<union> set (List.map_filter line_key ls)"
proof (induction ls arbitrary: vals)
  case Nil
  then show ?case by (simp add: map_filter_simps)
next
  case (Cons l ls)
  show ?case
    by (cases "line_key l") (auto simp add: Cons.IH insert_line_dom map_filter_simps)
qed

lemma state_values_dom: "dom (state_values out) = set (response_keys out)"
  by (simp add: state_values_def response_keys_def foldl_insert_line_dom)

lemma lacking_key: "k \<notin> set (response_keys out) \<Longrightarrow> value_of (state_values out) k = []"
proof -
  assume "k \<notin> set (response_keys out)"
  then have "state_values out k = None" using state_values_dom [of out] by blast
  then show ?thesis by (simp add: value_of_def)
qed

lemma parse_state_Inr:
  assumes "parse_state P out = Inr st"
  shows "toInt P (value_of (state_values out) ''POWER_UNIT'') = Some (power_unit st)
       \<and> toDouble P (value_of (state_values out) ''UNIT_WATTS'') = Some (unit_watts st)
       \<and> toULongLong P (value_of (state_values out) ''MSR'') = Some (msr st)
       \<and> toULongLong P (value_of (state_values out) ''MMIO'') = Some (mmio st)"
  using assms by (auto simp add: parse_state_def Let_def split: option.splits)

lemma read_state_Inr:
  assumes "fst (read_state P g) = Inr st"
  shows "parse_state P (std_out (fst (pkexec P [''--read''] (world g)))) = Inr st"
  using assms
  by (auto simp add: read_state_def run_pkexec_def Let_def split: prod.splits if_splits)

lemma parse_state_known_keys:
  assumes "\<forall>k. List.member state_keys k \<longrightarrow> state_values out k = state_values out' k"
  shows "parse_state P out = parse_state P out'"
proof -
  have h: "value_of (state_values out) k = value_of (state_values out') k"
    if "List.member state_keys k" for k
    using assms that by (simp add: value_of_def)
  have m: "List.member state_keys k"
    if "k = ''POWER_UNIT'' \<or> k = ''UNIT_WATTS'' \<or> k = ''MSR'' \<or> k = ''MMIO''
        \<or> k = ''CORE_TYPE_SUPPORTED'' \<or> k = ''P_CPUS'' \<or> k = ''E_CPUS'' \<or> k = ''U_CPUS''
        \<or> k = ''P_RATIO_VALID'' \<or> k = ''E_RATIO_VALID'' \<or> k = ''P_RATIO_CUR_VALID''
        \<or> k = ''E_RATIO_CUR_VALID'' \<or> k = ''P_RATIO_TARGET'' \<or> k = ''E_RATIO_TARGET''
        \<or> k = ''P_RATIO_CUR'' \<or> k = ''E_RATIO_CUR'' \<or> k = ''CORE_UV_VALID''
        \<or> k = ''CORE_UV_MV'' \<or> k = ''CORE_UV_RAW''" for k
    using that by (auto simp add: state_keys_def)
  note e = h [OF m]
  show ?thesis
    unfolding parse_state_def Let_def
      e [of "''POWER_UNIT''", simplified] e [of "''UNIT_WATTS''", simplified]
      e [of "''MSR''", simplified] e [of "''MMIO''", simplified]
      e [of "''CORE_TYPE_SUPPORTED''", simplified] e [of "''P_CPUS''", simplified]
      e [of "''E_CPUS''", simplified] e [of "''U_CPUS''", simplified]
      e [of "''P_RATIO_VALID''", simplified] e [of "''E_RATIO_VALID''", simplified]
      e [of "''P_RATIO_CUR_VALID''", simplified] e [of "''E_RATIO_CUR_VALID''", simplified]
      e [of "''P_RATIO_TARGET''", simplified] e [of "''E_RATIO_TARGET''", simplified]
      e [of "''P_RATIO_CUR''", simplified] e [of "''E_RATIO_CUR''", simplified]
      e [of "''CORE_UV_VALID''", simplified] e [of "''CORE_UV_MV''", simplified]
      e [of "''CORE_UV_RAW''", simplified] ..
qed

lemma parse_state_optional:
  assumes "parse_state P out = Inr st"
  shows "core_type_supported st = (int_or_0 (toInt P (value_of (state_values out) ''CORE_TYPE_SUPPORTED'')) = 1)"
    and "p_cpus st = value_of (state_values out) ''P_CPUS''"
    and "e_cpus st = value_of (state_values out) ''E_CPUS''"
    and "u_cpus st = value_of (state_values out) ''U_CPUS''"
    and "p_ratio_valid st = (int_or_0 (toInt P (value_of (state_values out) ''P_RATIO_VALID'')) = 1)"
    and "e_ratio_valid st = (int_or_0 (toInt P (value_of (state_values out) ''E_RATIO_VALID'')) = 1)"
    and "p_ratio st = int_or_0 (toInt P (value_of (state_values out) ''P_RATIO_TARGET''))"
    and "e_ratio st = int_or_0 (toInt P (value_of (state_values out) ''E_RATIO_TARGET''))"
    and "p_ratio_cur_valid st = (int_or_0 (toInt P (value_of (state_values out) ''P_RATIO_CUR_VALID'')) = 1)"
    and "e_ratio_cur_valid st = (int_or_0 (toInt P (value_of (state_values out) ''E_RATIO_CUR_VALID'')) = 1)"
    and "p_ratio_cur st = int_or_0 (toInt P (value_of (state_values out) ''P_RATIO_CUR''))"
    and "e_ratio_cur st = int_or_0 (toInt P (value_of (state_values out) ''E_RATIO_CUR''))"
    and "core_uv_valid st = (int_or_0 (toInt P (value_of (state_values out) ''CORE_UV_VALID'')) = 1)"
    and "core_uv_mv st = (case toDouble P (value_of (state_values out) ''CORE_UV_MV'') of None \<Rightarrow> 0 | Some v \<Rightarrow> v)"
    and "core_uv_raw st = value_of (state_values out) ''CORE_UV_RAW''"
  using assms by (auto simp add: parse_state_def Let_def split: option.splits)

lemma demo_response_keys:
  "response_keys demo_response = [''POWER_UNIT'', ''UNIT_WATTS'', ''MSR'', ''MMIO'', ''CORE_UV_VALID'', ''BOGUS'']"
  by code_simp

lemma demo_response_state:
  "parse_state (demo_platform [] []) demo_response = Inr (demo_state\<lparr>core_uv_valid := True\<rparr>)"
  by (simp add: demo_platform_def) code_simp

text \<open>
  C8 (as amended). Provided the library's conversions reject the empty string, a response
  that lacks one of the keys \<^verbatim>\<open>POWER_UNIT\<close>, \<^verbatim>\<open>UNIT_WATTS\<close>, \<^verbatim>\<open>MSR\<close>, \<^verbatim>\<open>MMIO\<close>, or gives
  one of them a value its conversion rejects, makes \<^const>\<open>parse_state\<close> and
  \<^const>\<open>read_state\<close> fail; the four values of a state that is returned are the
  conversions of the values the response gives for these keys, never a default. The other
  keys are optional: a state that is returned has 0, false or the empty text where the
  response lacks one of them. Keys outside \<^const>\<open>state_keys\<close> are ignored: two
  responses that agree on the keys of \<^const>\<open>state_keys\<close> parse alike.
\<close>

theorem required_keys_or_failure:
  assumes "toInt P [] = None" and "toDouble P [] = None" and "toULongLong P [] = None"
  shows "(List.member required_keys k \<and> \<not> List.member (response_keys out) k \<longrightarrow>
            (\<exists>e. parse_state P out = Inl e))
       \<and> (toInt P (value_of (state_values out) ''POWER_UNIT'') = None
            \<or> toDouble P (value_of (state_values out) ''UNIT_WATTS'') = None
            \<or> toULongLong P (value_of (state_values out) ''MSR'') = None
            \<or> toULongLong P (value_of (state_values out) ''MMIO'') = None \<longrightarrow>
            (\<exists>e. parse_state P out = Inl e))
       \<and> (\<forall>st. parse_state P out = Inr st \<longrightarrow>
            (\<exists>a b c d. state_values out ''POWER_UNIT'' = Some a \<and> toInt P a = Some (power_unit st)
               \<and> state_values out ''UNIT_WATTS'' = Some b \<and> toDouble P b = Some (unit_watts st)
               \<and> state_values out ''MSR'' = Some c \<and> toULongLong P c = Some (msr st)
               \<and> state_values out ''MMIO'' = Some d \<and> toULongLong P d = Some (mmio st)))
       \<and> (\<forall>st. fst (read_state P g) = Inr st \<longrightarrow>
            (\<forall>key. List.member required_keys key \<longrightarrow>
               List.member (response_keys (std_out (fst (pkexec P [''--read''] (world g))))) key))
       \<and> (\<forall>st. parse_state P out = Inr st \<longrightarrow>
            (\<not> List.member (response_keys out) ''CORE_TYPE_SUPPORTED'' \<longrightarrow> \<not> core_type_supported st)
            \<and> (\<not> List.member (response_keys out) ''P_CPUS'' \<longrightarrow> p_cpus st = [])
            \<and> (\<not> List.member (response_keys out) ''E_CPUS'' \<longrightarrow> e_cpus st = [])
            \<and> (\<not> List.member (response_keys out) ''U_CPUS'' \<longrightarrow> u_cpus st = [])
            \<and> (\<not> List.member (response_keys out) ''P_RATIO_VALID'' \<longrightarrow> \<not> p_ratio_valid st)
            \<and> (\<not> List.member (response_keys out) ''E_RATIO_VALID'' \<longrightarrow> \<not> e_ratio_valid st)
            \<and> (\<not> List.member (response_keys out) ''P_RATIO_CUR_VALID'' \<longrightarrow> \<not> p_ratio_cur_valid st)
            \<and> (\<not> List.member (response_keys out) ''E_RATIO_CUR_VALID'' \<longrightarrow> \<not> e_ratio_cur_valid st)
            \<and> (\<not> List.member (response_keys out) ''P_RATIO_TARGET'' \<longrightarrow> p_ratio st = 0)
            \<and> (\<not> List.member (response_keys out) ''E_RATIO_TARGET'' \<longrightarrow> e_ratio st = 0)
            \<and> (\<not> List.member (response_keys out) ''P_RATIO_CUR'' \<longrightarrow> p_ratio_cur st = 0)
            \<and> (\<not> List.member (response_keys out) ''E_RATIO_CUR'' \<longrightarrow> e_ratio_cur st = 0)
            \<and> (\<not> List.member (response_keys out) ''CORE_UV_VALID'' \<longrightarrow> \<not> core_uv_valid st)
            \<and> (\<not> List.member (response_keys out) ''CORE_UV_MV'' \<longrightarrow> core_uv_mv st = 0)
            \<and> (\<not> List.member (response_keys out) ''CORE_UV_RAW'' \<longrightarrow> core_uv_raw st = []))
       \<and> ((\<forall>key. List.member state_keys key \<longrightarrow> state_values out key = state_values out' key) \<longrightarrow>
            parse_state P out = parse_state P out')"
proof -
  have unp: "\<exists>e. parse_state P out = Inl e"
    if "toInt P (value_of (state_values out) ''POWER_UNIT'') = None
            \<or> toDouble P (value_of (state_values out) ''UNIT_WATTS'') = None
            \<or> toULongLong P (value_of (state_values out) ''MSR'') = None
            \<or> toULongLong P (value_of (state_values out) ''MMIO'') = None" for out
    using that by (auto simp add: parse_state_def Let_def split: option.splits)
  have mis: "\<exists>e. parse_state P out = Inl e"
    if "List.member required_keys k" "\<not> List.member (response_keys out) k" for out k
  proof -
    from that(2) have "value_of (state_values out) k = []" by (simp add: lacking_key)
    with that(1) assms show ?thesis
      by (intro unp) (auto simp add: required_keys_def)
  qed
  have got: "\<exists>a b c d. state_values out ''POWER_UNIT'' = Some a \<and> toInt P a = Some (power_unit st)
               \<and> state_values out ''UNIT_WATTS'' = Some b \<and> toDouble P b = Some (unit_watts st)
               \<and> state_values out ''MSR'' = Some c \<and> toULongLong P c = Some (msr st)
               \<and> state_values out ''MMIO'' = Some d \<and> toULongLong P d = Some (mmio st)"
    if "parse_state P out = Inr st" for st
  proof -
    note p = parse_state_Inr [OF that]
    have "state_values out key \<noteq> None" if "List.member required_keys key" for key
    proof
      assume "state_values out key = None"
      then have "\<not> List.member (response_keys out) key" using state_values_dom [of out] by auto
      from mis [OF that this] \<open>parse_state P out = Inr st\<close> show False by simp
    qed
    then have "state_values out ''POWER_UNIT'' \<noteq> None" "state_values out ''UNIT_WATTS'' \<noteq> None"
      "state_values out ''MSR'' \<noteq> None" "state_values out ''MMIO'' \<noteq> None"
      by (simp_all add: required_keys_def)
    then obtain a b c d where "state_values out ''POWER_UNIT'' = Some a"
      "state_values out ''UNIT_WATTS'' = Some b" "state_values out ''MSR'' = Some c"
      "state_values out ''MMIO'' = Some d"
      by blast
    with p show ?thesis by (simp add: value_of_def)
  qed
  have rs: "List.member (response_keys (std_out (fst (pkexec P [''--read''] (world g))))) key"
    if "fst (read_state P g) = Inr st" "List.member required_keys key" for st key
  proof (rule ccontr)
    assume "\<not> List.member (response_keys (std_out (fst (pkexec P [''--read''] (world g))))) key"
    from mis [OF that(2) this] read_state_Inr [OF that(1)] show False by simp
  qed
  have lk: "\<not> List.member (response_keys out) key \<Longrightarrow> value_of (state_values out) key = []" for key
    by (simp add: lacking_key)
  have opt: "(\<not> List.member (response_keys out) ''CORE_TYPE_SUPPORTED'' \<longrightarrow> \<not> core_type_supported st)
            \<and> (\<not> List.member (response_keys out) ''P_CPUS'' \<longrightarrow> p_cpus st = [])
            \<and> (\<not> List.member (response_keys out) ''E_CPUS'' \<longrightarrow> e_cpus st = [])
            \<and> (\<not> List.member (response_keys out) ''U_CPUS'' \<longrightarrow> u_cpus st = [])
            \<and> (\<not> List.member (response_keys out) ''P_RATIO_VALID'' \<longrightarrow> \<not> p_ratio_valid st)
            \<and> (\<not> List.member (response_keys out) ''E_RATIO_VALID'' \<longrightarrow> \<not> e_ratio_valid st)
            \<and> (\<not> List.member (response_keys out) ''P_RATIO_CUR_VALID'' \<longrightarrow> \<not> p_ratio_cur_valid st)
            \<and> (\<not> List.member (response_keys out) ''E_RATIO_CUR_VALID'' \<longrightarrow> \<not> e_ratio_cur_valid st)
            \<and> (\<not> List.member (response_keys out) ''P_RATIO_TARGET'' \<longrightarrow> p_ratio st = 0)
            \<and> (\<not> List.member (response_keys out) ''E_RATIO_TARGET'' \<longrightarrow> e_ratio st = 0)
            \<and> (\<not> List.member (response_keys out) ''P_RATIO_CUR'' \<longrightarrow> p_ratio_cur st = 0)
            \<and> (\<not> List.member (response_keys out) ''E_RATIO_CUR'' \<longrightarrow> e_ratio_cur st = 0)
            \<and> (\<not> List.member (response_keys out) ''CORE_UV_VALID'' \<longrightarrow> \<not> core_uv_valid st)
            \<and> (\<not> List.member (response_keys out) ''CORE_UV_MV'' \<longrightarrow> core_uv_mv st = 0)
            \<and> (\<not> List.member (response_keys out) ''CORE_UV_RAW'' \<longrightarrow> core_uv_raw st = [])"
    if "parse_state P out = Inr st" for st
    unfolding parse_state_optional [OF that]
    by (intro conjI impI) (simp_all add: lk assms int_or_0_def)
  have unk: "(\<forall>key. List.member state_keys key \<longrightarrow> state_values out key = state_values out' key) \<longrightarrow>
            parse_state P out = parse_state P out'"
    using parse_state_known_keys [of out out' P] by blast
  from unp [of out] mis [of k out] have c12:
    "List.member required_keys k \<and> \<not> List.member (response_keys out) k \<longrightarrow>
            (\<exists>e. parse_state P out = Inl e)"
    "toInt P (value_of (state_values out) ''POWER_UNIT'') = None
            \<or> toDouble P (value_of (state_values out) ''UNIT_WATTS'') = None
            \<or> toULongLong P (value_of (state_values out) ''MSR'') = None
            \<or> toULongLong P (value_of (state_values out) ''MMIO'') = None \<longrightarrow>
            (\<exists>e. parse_state P out = Inl e)"
    by blast+
  from got rs have c34:
    "\<forall>st. parse_state P out = Inr st \<longrightarrow>
            (\<exists>a b c d. state_values out ''POWER_UNIT'' = Some a \<and> toInt P a = Some (power_unit st)
               \<and> state_values out ''UNIT_WATTS'' = Some b \<and> toDouble P b = Some (unit_watts st)
               \<and> state_values out ''MSR'' = Some c \<and> toULongLong P c = Some (msr st)
               \<and> state_values out ''MMIO'' = Some d \<and> toULongLong P d = Some (mmio st))"
    "\<forall>st. fst (read_state P g) = Inr st \<longrightarrow>
            (\<forall>key. List.member required_keys key \<longrightarrow>
               List.member (response_keys (std_out (fst (pkexec P [''--read''] (world g))))) key)"
    by blast+
  from opt have c5: "\<forall>st. parse_state P out = Inr st \<longrightarrow>
            (\<not> List.member (response_keys out) ''CORE_TYPE_SUPPORTED'' \<longrightarrow> \<not> core_type_supported st)
            \<and> (\<not> List.member (response_keys out) ''P_CPUS'' \<longrightarrow> p_cpus st = [])
            \<and> (\<not> List.member (response_keys out) ''E_CPUS'' \<longrightarrow> e_cpus st = [])
            \<and> (\<not> List.member (response_keys out) ''U_CPUS'' \<longrightarrow> u_cpus st = [])
            \<and> (\<not> List.member (response_keys out) ''P_RATIO_VALID'' \<longrightarrow> \<not> p_ratio_valid st)
            \<and> (\<not> List.member (response_keys out) ''E_RATIO_VALID'' \<longrightarrow> \<not> e_ratio_valid st)
            \<and> (\<not> List.member (response_keys out) ''P_RATIO_CUR_VALID'' \<longrightarrow> \<not> p_ratio_cur_valid st)
            \<and> (\<not> List.member (response_keys out) ''E_RATIO_CUR_VALID'' \<longrightarrow> \<not> e_ratio_cur_valid st)
            \<and> (\<not> List.member (response_keys out) ''P_RATIO_TARGET'' \<longrightarrow> p_ratio st = 0)
            \<and> (\<not> List.member (response_keys out) ''E_RATIO_TARGET'' \<longrightarrow> e_ratio st = 0)
            \<and> (\<not> List.member (response_keys out) ''P_RATIO_CUR'' \<longrightarrow> p_ratio_cur st = 0)
            \<and> (\<not> List.member (response_keys out) ''E_RATIO_CUR'' \<longrightarrow> e_ratio_cur st = 0)
            \<and> (\<not> List.member (response_keys out) ''CORE_UV_VALID'' \<longrightarrow> \<not> core_uv_valid st)
            \<and> (\<not> List.member (response_keys out) ''CORE_UV_MV'' \<longrightarrow> core_uv_mv st = 0)
            \<and> (\<not> List.member (response_keys out) ''CORE_UV_RAW'' \<longrightarrow> core_uv_raw st = [])"
    by (intro allI impI)
  from c12 c34 c5 unk show ?thesis by (intro conjI)
qed

theorem required_keys_or_failure_witness:
  "toInt (demo_platform [] []) [] = None \<and> toDouble (demo_platform [] []) [] = None
   \<and> toULongLong (demo_platform [] []) [] = None
   \<and> List.member required_keys ''MMIO''
   \<and> response_keys (''POWER_UNIT=3'' @ [CHR 0x0A] @ ''UNIT_WATTS=0.125'' @ [CHR 0x0A] @ ''MSR=0x10'' @ [CHR 0x0A])
       = [''POWER_UNIT'', ''UNIT_WATTS'', ''MSR'']
   \<and> (\<exists>e. parse_state (demo_platform [] [])
             (''POWER_UNIT=3'' @ [CHR 0x0A] @ ''UNIT_WATTS=0.125'' @ [CHR 0x0A] @ ''MSR=0x10'' @ [CHR 0x0A])
           = Inl e)
   \<and> parse_state (demo_platform [] []) demo_response = Inr (demo_state\<lparr>core_uv_valid := True\<rparr>)
   \<and> core_uv_mv (demo_state\<lparr>core_uv_valid := True\<rparr>) = 0"
proof -
  let ?P = "demo_platform [] []"
  let ?out = "''POWER_UNIT=3'' @ [CHR 0x0A] @ ''UNIT_WATTS=0.125'' @ [CHR 0x0A] @ ''MSR=0x10'' @ [CHR 0x0A]"
  have h: "toInt ?P [] = None" "toDouble ?P [] = None" "toULongLong ?P [] = None"
    by (simp_all add: demo_platform_def demo_toInt_def demo_toDouble_def demo_toULongLong_def)
  have k: "List.member required_keys ''MMIO''" by (simp add: required_keys_def)
  have r: "response_keys ?out = [''POWER_UNIT'', ''UNIT_WATTS'', ''MSR'']" by code_simp
  then have n: "\<not> List.member (response_keys ?out) ''MMIO''" by simp
  from required_keys_or_failure [OF h, where k = "''MMIO''" and out = ?out] k n
  have 1: "\<exists>e. parse_state ?P ?out = Inl e" by blast
  have m: "\<not> List.member (response_keys demo_response) ''CORE_UV_MV''"
    by (simp add: demo_response_keys)
  from required_keys_or_failure [OF h, where out = demo_response] demo_response_state m
  have 2: "core_uv_mv (demo_state\<lparr>core_uv_valid := True\<rparr>) = 0" by blast
  from h k r 1 2 demo_response_state show ?thesis by simp
qed

text \<open>
  The claim as it was stated fails for the keys that are not required: a response without
  \<^verbatim>\<open>CORE_UV_MV\<close> and with the unknown key \<^verbatim>\<open>BOGUS\<close> is parsed to a state, whose voltage
  offset is flagged valid and is the default 0.
\<close>

theorem required_keys_or_failure_counterexample:
  "\<not> (\<not> List.member (response_keys demo_response) ''CORE_UV_MV''
        \<and> List.member (response_keys demo_response) ''BOGUS''
        \<and> \<not> List.member state_keys ''BOGUS''
      \<longrightarrow> isl (parse_state (demo_platform [] []) demo_response))"
  by (simp add: demo_response_keys demo_response_state state_keys_def)

section \<open>Settled: the sync\<close>

text \<open>
  C7. A sync hands the raw value it read to the write of the other register as it is. In
  the window, the MSR-to-MMIO sync runs no MSR write and at most one MMIO write, whose
  argument is the raw MSR value of the state read; confirmed twice in a row with the MSR
  reading the same, it writes the same raw value twice. The MMIO-to-MSR sync does the
  same with the raw MMIO value. In the command-line tool, a confirmed MSR-to-MMIO sync
  leaves the MSR as it was and the MMIO register holding the raw MSR value, and a second
  sync after it, confirmed or not, leaves the MMIO register at that value.
\<close>

theorem sync_copies_raw_value:
  assumes rd: "read_state P g = (Inr st, g1)"
      and ms: "rdmsr m MSR_PKG_POWER_LIMIT = Some v"
  shows "calls_of ''--write-msr'' (events (sync_msr_to_mmio P g)) = calls_of ''--write-msr'' (events g)
       \<and> (calls_of ''--write-mmio'' (events (sync_msr_to_mmio P g)) = calls_of ''--write-mmio'' (events g)
          \<or> calls_of ''--write-mmio'' (events (sync_msr_to_mmio P g))
               = calls_of ''--write-mmio'' (events g) @ [[''--write-mmio'', hex64 (msr st)]])
       \<and> ((\<forall>d w. fst (message_box P ''Sync MSR -> MMIO?'' d w)) \<longrightarrow>
            calls_of ''--write-mmio'' (events (sync_msr_to_mmio P g))
               = calls_of ''--write-mmio'' (events g) @ [[''--write-mmio'', hex64 (msr st)]])
       \<and> (\<forall>st2 g2. read_state P (sync_msr_to_mmio P g) = (Inr st2, g2) \<and> msr st2 = msr st
              \<and> (\<forall>d w. fst (message_box P ''Sync MSR -> MMIO?'' d w)) \<longrightarrow>
            calls_of ''--write-mmio'' (events (sync_msr_to_mmio P (sync_msr_to_mmio P g)))
               = calls_of ''--write-mmio'' (events g)
                   @ [[''--write-mmio'', hex64 (msr st)], [''--write-mmio'', hex64 (msr st)]])
       \<and> calls_of ''--write-mmio'' (events (sync_mmio_to_msr P g)) = calls_of ''--write-mmio'' (events g)
       \<and> ((\<forall>d w. fst (message_box P ''Sync MMIO -> MSR?'' d w)) \<longrightarrow>
            calls_of ''--write-msr'' (events (sync_mmio_to_msr P g))
               = calls_of ''--write-msr'' (events g) @ [[''--write-msr'', hex64 (mmio st)]])
       \<and> msr_regs (snd (sync_limits_dir 1 m)) = msr_regs m
       \<and> (fst (confirm m) \<longrightarrow>
            rd64 (mmio_mem (snd (sync_limits_dir 1 m))) PL_OFF = v
            \<and> rd64 (mmio_mem (snd (sync_limits_dir 1 (snd (sync_limits_dir 1 m))))) PL_OFF
                = rd64 (mmio_mem (snd (sync_limits_dir 1 m))) PL_OFF)
       \<and> mmio_mem (snd (sync_limits_dir 2 m)) = mmio_mem m
       \<and> (fst (confirm m) \<and> msr_writable m MSR_PKG_POWER_LIMIT \<longrightarrow>
            msr_regs (snd (sync_limits_dir 2 m))
              = (msr_regs m)(MSR_PKG_POWER_LIMIT \<mapsto> rd64 (mmio_mem m) PL_OFF))
       \<and> (\<forall>m1. prompt_int L m0 = (Some 1, m1) \<longrightarrow> sync_limits L m0 = sync_limits_dir 1 m1)"
proof -
  note a = sync_msr_to_mmio_writes [OF rd]
  note b = sync_mmio_to_msr_writes [OF rd]
  have twice: "calls_of ''--write-mmio'' (events (sync_msr_to_mmio P (sync_msr_to_mmio P g)))
               = calls_of ''--write-mmio'' (events g)
                   @ [[''--write-mmio'', hex64 (msr st)], [''--write-mmio'', hex64 (msr st)]]"
    if "read_state P (sync_msr_to_mmio P g) = (Inr st2, g2)" "msr st2 = msr st"
       "\<forall>d w. fst (message_box P ''Sync MSR -> MMIO?'' d w)" for st2 g2
    using sync_msr_to_mmio_writes(3) [OF that(1) that(3)] a(3) [OF that(3)] that(2) by simp
  have c1: "msr_regs (snd (sync_limits_dir 1 m)) = msr_regs m"
    by (rule sync_limits_dir_1(1) [OF ms])
  have c2: "fst (confirm m) \<longrightarrow>
            rd64 (mmio_mem (snd (sync_limits_dir 1 m))) PL_OFF = v
            \<and> rd64 (mmio_mem (snd (sync_limits_dir 1 (snd (sync_limits_dir 1 m))))) PL_OFF
                = rd64 (mmio_mem (snd (sync_limits_dir 1 m))) PL_OFF"
    using sync_limits_dir_1(2) [OF ms] sync_limits_dir_1_twice [OF ms] by simp
  have c3: "mmio_mem (snd (sync_limits_dir 2 m)) = mmio_mem m"
    by (rule sync_limits_dir_2(1))
  have c4: "fst (confirm m) \<and> msr_writable m MSR_PKG_POWER_LIMIT \<longrightarrow>
            msr_regs (snd (sync_limits_dir 2 m))
              = (msr_regs m)(MSR_PKG_POWER_LIMIT \<mapsto> rd64 (mmio_mem m) PL_OFF)"
    using sync_limits_dir_2(2) [of m] by simp
  have c5: "\<forall>m1. prompt_int L m0 = (Some 1, m1) \<longrightarrow> sync_limits L m0 = sync_limits_dir 1 m1"
    by (simp add: sync_limits_def)
  from a(1) a(2) a(3) twice b(1) b(3) c1 c2 c3 c4 c5 show ?thesis by blast
qed

theorem sync_copies_raw_value_witness:
  "calls_of ''--write-mmio'' (events (sync_msr_to_mmio (demo_platform [] []) (demo_window demo_machine)))
     = [[''--write-mmio'', hex64 0x00DD8000004281B8]]
   \<and> calls_of ''--write-msr'' (events (sync_msr_to_mmio (demo_platform [] []) (demo_window demo_machine)))
     = []
   \<and> rd64 (mmio_mem (demo_cli ''y'')) PL_OFF = 0x004280A000DF8168
   \<and> rd64 (mmio_mem (snd (sync_limits_dir 1 (demo_cli (CHR ''y'' # CHR 0x0A # ''y''))))) PL_OFF
       = 0x00DD8000004281B8
   \<and> rd64 (mmio_mem (snd (sync_limits_dir 1 (snd (sync_limits_dir 1
           (demo_cli (CHR ''y'' # CHR 0x0A # ''y''))))))) PL_OFF
       = 0x00DD8000004281B8"
proof -
  let ?P = "demo_platform [] []"
  let ?G = "demo_window demo_machine"
  let ?m = "demo_cli (CHR ''y'' # CHR 0x0A # ''y'')"
  have rd: "read_state ?P ?G = (Inr demo_state, demo_window_read)"
    by (rule demo_read_state) simp
  have ms: "rdmsr ?m MSR_PKG_POWER_LIMIT = Some 0x00DD8000004281B8"
    by (simp add: rdmsr_def demo_cli_def MSR_PKG_POWER_LIMIT_def)
  have y: "\<forall>d w. fst (message_box ?P ''Sync MSR -> MMIO?'' d w)" by (rule demo_accepts)
  have o: "rd64 (mmio_mem (demo_cli ''y'')) PL_OFF = 0x004280A000DF8168"
    by (simp add: rd64_def demo_cli_def PL_OFF_def)
  from sync_copies_raw_value [OF rd ms] y demo_cli_confirm [of "''y''"] o
  show ?thesis by (simp add: demo_no_calls demo_state_def)
qed

section \<open>Settled: the quantisation\<close>

lemma kUvMvScale_value: "kUvMvScale = 1152921504606847 / 1125899906842624"
  unfolding kUvMvScale_def by (subst binary64_eval [of 0]) (simp_all add: rint_def)

lemma kUvMvScale_bounds: "1 < kUvMvScale" "kUvMvScale < 33 / 32"
  unfolding kUvMvScale_value by simp_all

lemma binary64_0: "binary64 0 = 0"
  by (simp add: binary64_def rint_def)

lemma pow2_low: "(2::real) powi (- 1022) \<le> 1 / 2"
  using pow2_mono [of "- 1022" "- 1"] by simp

lemma pow2_tiny: "(2::real) powi (- 1075) \<le> 1 / 2"
  using pow2_mono [of "- 1075" "- 1"] by simp

lemma pow2_high: "(2::real) ^ 52 < 2 powi 1026"
  using power_int_strict_increasing [of 52 1026 "2::real"] by simp

lemma binary64_bound:
  assumes "\<bar>z\<bar> \<le> 2 ^ 52"
  shows "\<bar>binary64 z - z\<bar> \<le> \<bar>z\<bar> / 2 ^ 53 + 1 / 2"
proof (cases "\<bar>z\<bar> < 2 powi (- 1022)")
  case True
  from binary64_subnormal [OF True] pow2_tiny have "\<bar>binary64 z - z\<bar> \<le> 1 / 2" by linarith
  moreover have "0 \<le> \<bar>z\<bar> / 2 ^ 53" by simp
  ultimately show ?thesis by linarith
next
  case False
  then have l: "2 powi (- 1022) \<le> \<bar>z\<bar>" by simp
  from assms pow2_high have u: "\<bar>z\<bar> < 2 powi 1026" by linarith
  from binary64_error [OF l u] show ?thesis by linarith
qed

lemma quantize_uv_mv_units:
  assumes "\<bar>x\<bar> \<le> 2 ^ 49"
  shows "\<bar>llround (dmul x kUvMvScale)\<bar> \<le> 2 ^ 50"
proof -
  define z where "z = x * kUvMvScale"
  define p where "p = binary64 z"
  have "\<bar>z\<bar> = \<bar>x\<bar> * kUvMvScale" unfolding z_def using kUvMvScale_bounds by (simp add: abs_mult)
  also have "\<dots> \<le> 2 ^ 49 * (33 / 32)"
    using assms kUvMvScale_bounds by (intro mult_mono) simp_all
  finally have z: "\<bar>z\<bar> \<le> 2 ^ 49 * (33 / 32)" .
  then have "\<bar>z\<bar> \<le> 2 ^ 52" by simp
  from binary64_bound [OF this] z have "\<bar>p\<bar> \<le> 2 ^ 50 - 1" unfolding p_def by simp
  with llround_error [of p] have "\<bar>real_of_int (llround p)\<bar> \<le> 2 ^ 50" by linarith
  then have "\<bar>llround p\<bar> \<le> 2 ^ 50"
    by (metis of_int_abs of_int_le_numeral_power_cancel_iff)
  then show ?thesis unfolding p_def z_def dmul_def .
qed

lemma quantize_uv_mv_fixed:
  assumes "\<bar>n\<bar> \<le> 2 ^ 50"
  shows "llround (dmul (ddiv (of_int n) kUvMvScale) kUvMvScale) = n"
proof (cases "n = 0")
  case True
  then show ?thesis by (simp add: dmul_def ddiv_def binary64_0 llround_def)
next
  case False
  define c where "c = kUvMvScale"
  define N :: real where "N = \<bar>of_int n\<bar>"
  define q where "q = of_int n / c"
  define y where "y = binary64 q"
  define z where "z = y * c"
  define p where "p = binary64 z"
  have c: "1 < c" "c < 33 / 32" unfolding c_def by (rule kUvMvScale_bounds)+
  from False have N1: "1 \<le> N" unfolding N_def by (simp flip: of_int_abs)
  from assms have N2: "N \<le> 2 ^ 50" unfolding N_def
    by (metis of_int_abs of_int_le_numeral_power_cancel_iff)
  have qc: "\<bar>q\<bar> * c = N" unfolding q_def N_def using c by (simp add: abs_mult)
  have q1: "\<bar>q\<bar> \<le> N" using qc c N1
    by (metis abs_ge_zero mult_left_mono mult.right_neutral less_imp_le)
  have "N < \<bar>q\<bar> * (33 / 32)" using qc c N1
    by (metis abs_ge_zero mult_strict_left_mono not_le mult_zero_left not_one_le_zero order.order_iff_strict)
  with N1 have q0: "1 / 2 \<le> \<bar>q\<bar>" by simp
  from q0 pow2_low have ql: "2 powi (- 1022) \<le> \<bar>q\<bar>" by linarith
  from q1 N2 pow2_high have qu: "\<bar>q\<bar> < 2 powi 1026" by simp
  have "\<bar>z - of_int n\<bar> = \<bar>y - q\<bar> * c"
  proof -
    have "z - of_int n = (y - q) * c" unfolding z_def q_def using c by (simp add: algebra_simps)
    then show ?thesis using c by (simp add: abs_mult)
  qed
  also have "\<dots> \<le> \<bar>q\<bar> / 2 ^ 53 * c"
    using binary64_error [OF ql qu] c unfolding y_def by (intro mult_right_mono) simp_all
  also have "\<dots> = N / 2 ^ 53" using qc by simp
  finally have e1: "\<bar>z - of_int n\<bar> \<le> N / 2 ^ 53" .
  have zn: "\<bar>z\<bar> \<le> N + N / 2 ^ 53" "N - N / 2 ^ 53 \<le> \<bar>z\<bar>"
    using e1 unfolding N_def by linarith+
  from zn(2) N1 have "1 / 2 \<le> \<bar>z\<bar>" by simp
  with pow2_low have zl: "2 powi (- 1022) \<le> \<bar>z\<bar>" by linarith
  from zn(1) N2 pow2_high have zu: "\<bar>z\<bar> < 2 powi 1026" by simp
  from binary64_error [OF zl zu] have e2: "\<bar>p - z\<bar> \<le> \<bar>z\<bar> / 2 ^ 53" unfolding p_def .
  have "\<bar>p - of_int n\<bar> \<le> \<bar>p - z\<bar> + \<bar>z - of_int n\<bar>" by linarith
  with e1 e2 zn(1) N2 have "\<bar>p - of_int n\<bar> < 1 / 2" by simp
  then have "llround p = n" by (rule llround_near)
  then show ?thesis unfolding p_def z_def y_def q_def c_def dmul_def ddiv_def .
qed

lemma quantize_uv_mv_eval:
  assumes "dmul x kUvMvScale = p" "llround p = n" "\<bar>n\<bar> < 2 ^ 53"
      and "ddiv (of_int n) kUvMvScale = y"
  shows "quantize_uv_mv x = Some y"
proof -
  from assms(3) have "- (2 ^ 63) \<le> n \<and> n < 2 ^ 63" by (auto simp add: abs_less_iff)
  then show ?thesis
    unfolding quantize_uv_mv_def Let_def assms(1,2) binary64_int [OF assms(3)] assms(4) by simp
qed

lemma quantize_uv_mv_50: "quantize_uv_mv 50 = Some (6375 / 128)"
proof (rule quantize_uv_mv_eval)
  show "dmul 50 kUvMvScale = 3602879701896397 / 70368744177664"
    unfolding dmul_def kUvMvScale_value by (subst binary64_eval [of 5]) (simp_all add: rint_def)
  show "llround (3602879701896397 / 70368744177664) = 51" by (simp add: llround_def)
  show "\<bar>51 :: int\<bar> < 2 ^ 53" by simp
  show "ddiv (of_int 51) kUvMvScale = 6375 / 128"
    unfolding ddiv_def kUvMvScale_value by (subst binary64_eval [of 5]) (simp_all add: rint_def)
qed

lemma quantize_uv_mv_large_1: "quantize_uv_mv (7062129644487597 / 2) = Some 3531064822243799"
proof (rule quantize_uv_mv_eval)
  show "dmul (7062129644487597 / 2) kUvMvScale = 7231620755955299 / 2"
    unfolding dmul_def kUvMvScale_value by (subst binary64_eval [of 51]) (simp_all add: rint_def)
  show "llround (7231620755955299 / 2) = 3615810377977650" by (simp add: llround_def)
  show "\<bar>3615810377977650 :: int\<bar> < 2 ^ 53" by simp
  show "ddiv (of_int 3615810377977650) kUvMvScale = 3531064822243799"
    unfolding ddiv_def kUvMvScale_value by (subst binary64_eval [of 51]) (simp_all add: rint_def)
qed

lemma quantize_uv_mv_large_2: "quantize_uv_mv 3531064822243799 = Some (7062129644487599 / 2)"
proof (rule quantize_uv_mv_eval)
  show "dmul 3531064822243799 kUvMvScale = 7231620755955301 / 2"
    unfolding dmul_def kUvMvScale_value by (subst binary64_eval [of 51]) (simp_all add: rint_def)
  show "llround (7231620755955301 / 2) = 3615810377977651" by (simp add: llround_def)
  show "\<bar>3615810377977651 :: int\<bar> < 2 ^ 53" by simp
  show "ddiv (of_int 3615810377977651) kUvMvScale = (7062129644487599 / 2)"
    unfolding ddiv_def kUvMvScale_value by (subst binary64_eval [of 51]) (simp_all add: rint_def)
qed

text \<open>
  C9 (as amended). For every offset of magnitude at most \<open>2 ^ 49\<close> millivolts, which
  covers every value of the offset spin box (from -500 to 500), \<^const>\<open>quantize_uv_mv\<close>
  returns a value, and quantizing that value returns it again. The argument need not be
  a double.
\<close>

theorem quantize_uv_mv_stable:
  assumes "\<bar>x\<bar> \<le> 2 ^ 49"
  shows "\<exists>y. quantize_uv_mv x = Some y \<and> quantize_uv_mv y = Some y"
proof -
  define n where "n = llround (dmul x kUvMvScale)"
  define y where "y = ddiv (of_int n) kUvMvScale"
  have n: "\<bar>n\<bar> \<le> 2 ^ 50" unfolding n_def using assms by (rule quantize_uv_mv_units)
  then have r: "- (2 ^ 63) \<le> n \<and> n < 2 ^ 63" by (auto simp add: abs_le_iff)
  from n have "\<bar>n\<bar> < 2 ^ 53" by simp
  then have b: "binary64 (of_int n) = of_int n" by (rule binary64_int)
  have 1: "quantize_uv_mv x = Some y"
    using r unfolding quantize_uv_mv_def Let_def n_def [symmetric] y_def b by simp
  have "llround (dmul y kUvMvScale) = n" unfolding y_def using n by (rule quantize_uv_mv_fixed)
  then have 2: "quantize_uv_mv y = Some y"
    using r unfolding quantize_uv_mv_def Let_def y_def [symmetric] by (simp add: b y_def)
  from 1 2 show ?thesis by blast
qed

theorem quantize_uv_mv_stable_witness:
  "\<bar>50 :: real\<bar> \<le> 2 ^ 49 \<and> quantize_uv_mv 50 = Some (6375 / 128)
   \<and> quantize_uv_mv (6375 / 128) = Some (6375 / 128)"
proof -
  have "\<bar>50 :: real\<bar> \<le> 2 ^ 49" by simp
  from quantize_uv_mv_stable [OF this] obtain y
    where y: "quantize_uv_mv 50 = Some y" "quantize_uv_mv y = Some y" by blast
  from y(1) have "y = 6375 / 128" unfolding quantize_uv_mv_50 by simp
  with y(2) have "quantize_uv_mv (6375 / 128) = Some (6375 / 128)" by (simp only:)
  then show ?thesis by (simp add: quantize_uv_mv_50)
qed

text \<open>
  The claim as it was stated fails for large doubles: 3531064822243798.5 is quantized to
  3531064822243799, and that to 3531064822243799.5.
\<close>

theorem quantize_uv_mv_stable_counterexample:
  "quantize_uv_mv (7062129644487597 / 2) = Some 3531064822243799
   \<and> quantize_uv_mv 3531064822243799 = Some (7062129644487599 / 2)
   \<and> \<not> (quantize_uv_mv (the (quantize_uv_mv (7062129644487597 / 2))) = quantize_uv_mv (7062129644487597 / 2))"
  by (simp add: quantize_uv_mv_large_1 quantize_uv_mv_large_2)

end
